theory Spec2Isabelle
  imports Complex_Main "HOL-Library.AList"
begin

section \<open>Types shared by the modules\<close>

text \<open>
  The declaration \<^verbatim>\<open>export type RowCount = 8 | 10 | 12 | 14 | 16\<close> of the types module:
  a row count is one of five literals, so the type has five values and \<open>rowNum\<close> reads
  the number a value stands for. JavaScript numbers are modelled as reals (exact
  arithmetic); integers that only count (loop indices, slot indices) are \<open>nat\<close> or \<open>int\<close>.
\<close>

datatype RowCount = R8 | R10 | R12 | R14 | R16

fun rowNum :: "RowCount \<Rightarrow> nat" where
  "rowNum R8 = 8"
| "rowNum R10 = 10"
| "rowNum R12 = 12"
| "rowNum R14 = 14"
| "rowNum R16 = 16"

section \<open>The probability model (utils/payouts)\<close>

definition getSlotCount :: "RowCount \<Rightarrow> nat" where
  "getSlotCount rowCount = rowNum rowCount + 1"

text \<open>
  \<^verbatim>\<open>binomialCoefficient(n, k)\<close>: two early returns, then the loop
  \<^verbatim>\<open>for (let i = 0; i < k; i++) result = (result * (n - i)) / (i + 1)\<close>.
  The loop is the recursive function \<open>binomialLoop\<close> on the loop variable and the
  accumulator.
\<close>

function binomialLoop :: "int \<Rightarrow> int \<Rightarrow> int \<Rightarrow> real \<Rightarrow> real" where
  "binomialLoop n k i result =
     (if i < k then binomialLoop n k (i + 1) ((result * real_of_int (n - i)) / real_of_int (i + 1))
      else result)"
  by pat_completeness auto
termination
  by (relation "measure (\<lambda>(n, k, i, result). nat (k - i))") auto

declare binomialLoop.simps [simp del]

definition binomialCoefficient :: "int \<Rightarrow> int \<Rightarrow> real" where
  "binomialCoefficient n k =
     (if k < 0 \<or> k > n then 0
      else if k = 0 \<or> k = n then 1
      else binomialLoop n k 0 1)"

text \<open>
  \<^verbatim>\<open>getSlotProbabilities\<close> of the repository's root copy of utils/payouts: the binomial
  coefficients divided by \<^verbatim>\<open>Math.pow(2, rowCount)\<close>.
\<close>

definition getSlotProbabilities :: "RowCount \<Rightarrow> real list" where
  "getSlotProbabilities rowCount =
     (let slotCount = getSlotCount rowCount;
          total = (2::real) ^ rowNum rowCount
      in map (\<lambda>i. binomialCoefficient (int (rowNum rowCount)) (int i) / total) [0..<slotCount])"

text \<open>
  \<^verbatim>\<open>getSlotProbabilities\<close> of plinko/src/utils/payouts.ts: the normalised binomial
  distribution is mixed with the uniform one (\<^verbatim>\<open>mixRatio = 0.3\<close>) and normalised again.
  \<^verbatim>\<open>reduce((a, b) => a + b, 0)\<close> is \<open>foldl (+) 0\<close>; the \<^verbatim>\<open>map\<close> with an index pairs
  every entry with its position.
\<close>

definition getSlotProbabilities_mixed :: "RowCount \<Rightarrow> real list" where
  "getSlotProbabilities_mixed rowCount =
     (let slotCount = getSlotCount rowCount;
          binomialProbs = map (\<lambda>i. binomialCoefficient (int (rowNum rowCount)) (int i)) [0..<slotCount];
          binomialTotal = foldl (+) 0 binomialProbs;
          normalizedBinomial = map (\<lambda>p. p / binomialTotal) binomialProbs;
          uniformProb = 1 / real slotCount;
          uniformProbs = replicate slotCount uniformProb;
          mixRatio = (3::real) / 10;
          probabilities = map (\<lambda>(binProb, i). binProb * mixRatio + (uniformProbs ! i) * (1 - mixRatio))
                              (zip normalizedBinomial [0..<length normalizedBinomial]);
          total = foldl (+) 0 probabilities
      in map (\<lambda>p. p / total) probabilities)"

text \<open>
  The closed form of one entry of the mixed distribution, used to state what
  \<open>getSlotProbabilities_mixed\<close> computes: 30 percent of the binomial probability plus
  70 percent of the uniform one.
\<close>

definition mixedEntry :: "nat \<Rightarrow> nat \<Rightarrow> real" where
  "mixedEntry n i = (real (n choose i) / 2 ^ n) * (3 / 10) + (1 / real (n + 1)) * (1 - 3 / 10)"

text \<open>
  \<^verbatim>\<open>selectTargetSlot(rowCount, seed?)\<close>: the loop over the cumulative distribution. The
  engine calls it without a seed, so the variate is the value of one \<^verbatim>\<open>Math.random()\<close>
  call, passed in as \<open>random\<close>.
\<close>

fun selectLoop :: "real list \<Rightarrow> real \<Rightarrow> real \<Rightarrow> nat \<Rightarrow> nat option" where
  "selectLoop [] random cumulative i = None"
| "selectLoop (p # ps) random cumulative i =
     (if random < cumulative + p then Some i else selectLoop ps random (cumulative + p) (i + 1))"

definition selectTargetSlot :: "RowCount \<Rightarrow> real \<Rightarrow> int" where
  "selectTargetSlot rowCount random =
     (let probabilities = getSlotProbabilities rowCount
      in case selectLoop probabilities random 0 0 of
           Some i \<Rightarrow> int i
         | None \<Rightarrow> int (length probabilities) - 1)"

section \<open>Strings of the body labels\<close>

text \<open>
  Bodies are told apart by their label: \<^verbatim>\<open>"peg"\<close>, \<^verbatim>\<open>"wall"\<close>, \<^verbatim>\<open>`slot-${i}`\<close>,
  \<^verbatim>\<open>`chip-${id}`\<close>. The string operations the engine applies to labels:
  \<^verbatim>\<open>startsWith\<close>, \<^verbatim>\<open>replace(pattern, "")\<close> (the first occurrence only), the decimal
  rendering of a loop index in a template literal, and \<^verbatim>\<open>parseInt(s, 10)\<close>, whose \<^verbatim>\<open>NaN\<close>
  is \<open>None\<close> (leading white space, which no label has, is not skipped).
\<close>

definition startsWith :: "string \<Rightarrow> string \<Rightarrow> bool" where
  "startsWith s p = (take (length p) s = p)"

fun removeFirst :: "string \<Rightarrow> string \<Rightarrow> string" where
  "removeFirst p [] = []"
| "removeFirst p (c # cs) =
     (if startsWith (c # cs) p then drop (length p) (c # cs) else c # removeFirst p cs)"

definition digitChar :: "nat \<Rightarrow> char" where
  "digitChar d = ''0123456789'' ! d"

fun showNat :: "nat \<Rightarrow> string" where
  "showNat n = (if n < 10 then [digitChar n] else showNat (n div 10) @ [digitChar (n mod 10)])"

declare showNat.simps [simp del]

definition digitVal :: "char \<Rightarrow> nat option" where
  "digitVal c = map_of (zip ''0123456789'' [0, 1, 2, 3, 4, 5, 6, 7, 8, 9]) c"

fun parseDigits :: "string \<Rightarrow> nat option \<Rightarrow> nat option" where
  "parseDigits [] acc = acc"
| "parseDigits (c # cs) acc =
     (case digitVal c of
        None \<Rightarrow> acc
      | Some d \<Rightarrow> parseDigits cs (Some ((case acc of None \<Rightarrow> 0 | Some a \<Rightarrow> a * 10) + d)))"

definition parseInt :: "string \<Rightarrow> int option" where
  "parseInt s =
     (case s of
        [] \<Rightarrow> None
      | c # cs \<Rightarrow>
          if c = CHR ''-'' then map_option (\<lambda>n. - int n) (parseDigits cs None)
          else if c = CHR ''+'' then map_option int (parseDigits cs None)
          else map_option int (parseDigits s None))"

section \<open>The physics library as the engine uses it\<close>

text \<open>
  A Matter body, with the fields the engine reads or writes. Render styles are left out.
  Options that a call does not give keep the defaults of \<^verbatim>\<open>Body.create\<close>
  (restitution 0, friction 0.1, frictionAir 0.01, not static, not a sensor).
  Vectors are pairs \<open>(x, y)\<close>; the y axis points down.
\<close>

type_synonym Vector = "real \<times> real"

datatype Shape = Circle real | Rectangle real real

record Body =
  label :: string
  position :: Vector
  velocity :: Vector
  force :: Vector
  angularVelocity :: real
  shape :: Shape
  isStatic :: bool
  isSensor :: bool
  restitution :: real
  friction :: real
  frictionAir :: real

definition Body_create :: "Body" where
  "Body_create =
     \<lparr>label = ''Body'', position = (0, 0), velocity = (0, 0), force = (0, 0),
      angularVelocity = 0, shape = Circle 0, isStatic = False, isSensor = False,
      restitution = 0, friction = 1 / 10, frictionAir = 1 / 100\<rparr>"

text \<open>The options object of a call is a function that sets the given fields.\<close>

definition Bodies_circle :: "real \<Rightarrow> real \<Rightarrow> real \<Rightarrow> (Body \<Rightarrow> Body) \<Rightarrow> Body" where
  "Bodies_circle x y radius options =
     options (Body_create\<lparr>label := ''Circle Body'', position := (x, y), shape := Circle radius\<rparr>)"

definition Bodies_rectangle :: "real \<Rightarrow> real \<Rightarrow> real \<Rightarrow> real \<Rightarrow> (Body \<Rightarrow> Body) \<Rightarrow> Body" where
  "Bodies_rectangle x y w h options =
     options (Body_create\<lparr>label := ''Rectangle Body'', position := (x, y), shape := Rectangle w h\<rparr>)"

text \<open>
  \<^verbatim>\<open>Body.applyForce(body, position, force)\<close> adds to the accumulated force (the force is
  applied at the body's own position, so it adds no torque); \<^verbatim>\<open>Body.setVelocity\<close> and
  \<^verbatim>\<open>Body.setAngularVelocity\<close> overwrite.
\<close>

definition Body_applyForce :: "Body \<Rightarrow> Vector \<Rightarrow> Body" where
  "Body_applyForce b f = b\<lparr>force := (fst (force b) + fst f, snd (force b) + snd f)\<rparr>"

definition Body_setVelocity :: "Body \<Rightarrow> Vector \<Rightarrow> Body" where
  "Body_setVelocity b v = b\<lparr>velocity := v\<rparr>"

definition Body_setAngularVelocity :: "Body \<Rightarrow> real \<Rightarrow> Body" where
  "Body_setAngularVelocity b w = b\<lparr>angularVelocity := w\<rparr>"

section \<open>The engine state\<close>

text \<open>The \<^verbatim>\<open>PHYSICS\<close> constants of the root copy of lib/plinkoEngine.\<close>

definition chipRestitutionBase :: real where "chipRestitutionBase = 65 / 100"
definition chipRestitutionVariance :: real where "chipRestitutionVariance = 15 / 100"
definition chipFrictionBase :: real where "chipFrictionBase = 8 / 100"
definition chipFrictionVariance :: real where "chipFrictionVariance = 4 / 100"
definition chipFrictionAir :: real where "chipFrictionAir = 1 / 100"
definition pegRestitution :: real where "pegRestitution = 85 / 100"
definition pegFriction :: real where "pegFriction = 3 / 100"
definition wallRestitution :: real where "wallRestitution = 4 / 10"
definition collisionForceMin :: real where "collisionForceMin = 3 / 100000"
definition collisionForceMax :: real where "collisionForceMax = 12 / 100000"

datatype SimulationMode = Physics | Deterministic

text \<open>
  \<^verbatim>\<open>interface ChipData\<close>. The field \<^verbatim>\<open>id\<close> is \<open>id_chip\<close> here; optional fields are options.
\<close>

record ChipData =
  id_chip :: string
  targetSlot :: "int option"
  hasLanded :: bool
  createdAt :: int
  lastPosition :: "Vector option"
  stuckCheckTime :: "int option"

text \<open>
  The three callbacks of the configuration are the engine's output. Every call of
  \<^verbatim>\<open>this.callbacks.onSlotLanded\<close>, \<^verbatim>\<open>onPegHit\<close> or \<^verbatim>\<open>onChipCreated\<close> appends an entry to
  \<open>callbackLog\<close>, in call order.
\<close>

datatype Callback =
    SlotLanded string "int option"
  | PegHit string
  | ChipCreated string

text \<open>
  The closure of the \<^verbatim>\<open>setInterval\<close> callback of \<^verbatim>\<open>applyDeterministicNudges\<close>: the chip
  body it holds, the constants it captured, its counter, and whether \<^verbatim>\<open>clearInterval\<close>
  has been called on it.
\<close>

record NudgeTask =
  nudgeChip :: nat
  targetX :: real
  nudgeSlotWidth :: real
  maxNudges :: nat
  nudgeCount :: nat
  cleared :: bool

text \<open>
  The fields of \<^verbatim>\<open>class PlinkoEngine\<close>. Bodies are objects with identity: \<open>bodies\<close> holds
  every body ever created, a reference is an index into it, and \<open>world\<close> lists the
  references that are in \<^verbatim>\<open>engine.world\<close>. \<open>chips\<close> is the \<^verbatim>\<open>Map\<close> in insertion order.
  \<open>timeouts\<close> are the pending \<^verbatim>\<open>setTimeout\<close> closures of the collision handler (chip id and
  slot index), \<open>intervals\<close> the steering tasks. \<open>rafPending\<close> says that the browser holds
  a frame request of the render loop; \<open>runnerRunning\<close> and \<open>canvasInDom\<close> record
  \<^verbatim>\<open>Runner.run\<close>/\<^verbatim>\<open>Runner.stop\<close> and whether the canvas has a parent node.
\<close>

record PlinkoEngine =
  rows :: RowCount
  callbackLog :: "Callback list"
  bodies :: "Body list"
  world :: "nat list"
  pegs :: "nat list"
  walls :: "nat list"
  slotSensors :: "nat list"
  slotDividers :: "nat list"
  chips :: "(string \<times> ChipData) list"
  width :: real
  height :: real
  pegRadius :: real
  chipRadius :: real
  pegSpacingX :: real
  pegSpacingY :: real
  boardPadding :: real
  slotHeight :: real
  animationFrame :: "nat option"
  isDestroyed :: bool
  rafPending :: bool
  runnerRunning :: bool
  canvasInDom :: bool
  timeouts :: "(string \<times> int option) list"
  intervals :: "NudgeTask list"

section \<open>The engine (root copy of lib/plinkoEngine)\<close>

subsection \<open>Dimensions and world building\<close>

text \<open>
  \<^verbatim>\<open>calculateDimensions\<close>. The rectangle of \<^verbatim>\<open>container.getBoundingClientRect()\<close> is the
  argument \<open>rect\<close> (width, height). The divisors \<open>rows * 4\<close> and \<open>rows + 1\<close> are never zero,
  since \<open>rows\<close> is a \<open>RowCount\<close>.
\<close>

definition calculateDimensions :: "Vector \<Rightarrow> PlinkoEngine \<Rightarrow> PlinkoEngine" where
  "calculateDimensions rect s =
     (let w = fst rect;
          h = snd rect;
          minDimension = min w h;
          pr = max 3 (minDimension / (real (rowNum (rows s)) * 4));
          cr = pr * (9 / 10);
          bp = w * (8 / 100);
          usableWidth = w - bp * 2
      in s\<lparr>width := w, height := h, pegRadius := pr, chipRadius := cr, boardPadding := bp,
            pegSpacingX := usableWidth / (real (rowNum (rows s)) + 1),
            pegSpacingY := (h * (75 / 100)) / (real (rowNum (rows s)) + 1),
            slotHeight := h * (12 / 100)\<rparr>)"

text \<open>
  The same function in plinko/src/lib/plinkoEngine.ts, which differs in one line:
  \<^verbatim>\<open>this.chipRadius = this.pegRadius * 1.5\<close>.
\<close>

definition calculateDimensions_plinko :: "Vector \<Rightarrow> PlinkoEngine \<Rightarrow> PlinkoEngine" where
  "calculateDimensions_plinko rect s =
     (let w = fst rect;
          h = snd rect;
          minDimension = min w h;
          pr = max 3 (minDimension / (real (rowNum (rows s)) * 4));
          cr = pr * (15 / 10);
          bp = w * (8 / 100);
          usableWidth = w - bp * 2
      in s\<lparr>width := w, height := h, pegRadius := pr, chipRadius := cr, boardPadding := bp,
            pegSpacingX := usableWidth / (real (rowNum (rows s)) + 1),
            pegSpacingY := (h * (75 / 100)) / (real (rowNum (rows s)) + 1),
            slotHeight := h * (12 / 100)\<rparr>)"

text \<open>
  \<^verbatim>\<open>createPegs\<close>: row \<open>row\<close> has \<open>row + 3\<close> pegs. Each \<^verbatim>\<open>push\<close> of a new body stores the
  body and appends its reference to the field.
\<close>

definition pegAt :: "PlinkoEngine \<Rightarrow> nat \<Rightarrow> nat \<Rightarrow> Body" where
  "pegAt s row col =
     (let startY = pegSpacingY s * (15 / 10);
          pegsInRow = row + 3;
          rowWidth = (real pegsInRow - 1) * pegSpacingX s;
          startX = (width s - rowWidth) / 2;
          x = startX + real col * pegSpacingX s;
          y = startY + real row * pegSpacingY s
      in Bodies_circle x y (pegRadius s)
           (\<lambda>b. b\<lparr>isStatic := True, restitution := pegRestitution, friction := pegFriction,
                   label := ''peg''\<rparr>))"

definition createPegs :: "PlinkoEngine \<Rightarrow> PlinkoEngine" where
  "createPegs s =
     (let new = concat (map (\<lambda>row. map (\<lambda>col. pegAt s row col) [0..<row + 3])
                            [0..<rowNum (rows s)]);
          base = length (bodies s)
      in s\<lparr>bodies := bodies s @ new, pegs := pegs s @ [base..<base + length new]\<rparr>)"

definition createWalls :: "PlinkoEngine \<Rightarrow> PlinkoEngine" where
  "createWalls s =
     (let wallThickness = 20;
          leftWall = Bodies_rectangle (- wallThickness / 2) (height s / 2) wallThickness
                       (height s * (25 / 10))
                       (\<lambda>b. b\<lparr>isStatic := True, restitution := wallRestitution,
                               friction := 1 / 10, label := ''wall''\<rparr>);
          rightWall = Bodies_rectangle (width s + wallThickness / 2) (height s / 2) wallThickness
                       (height s * (25 / 10))
                       (\<lambda>b. b\<lparr>isStatic := True, restitution := wallRestitution,
                               friction := 1 / 10, label := ''wall''\<rparr>);
          topWall = Bodies_rectangle (width s / 2) (- wallThickness / 2) (width s * (15 / 10))
                       wallThickness
                       (\<lambda>b. b\<lparr>isStatic := True, restitution := 2 / 10,
                               friction := 1 / 10, label := ''topWall''\<rparr>);
          bottomWall = Bodies_rectangle (width s / 2) (height s + wallThickness / 2) (width s)
                       wallThickness
                       (\<lambda>b. b\<lparr>isStatic := True, label := ''bottom''\<rparr>);
          new = [leftWall, rightWall, topWall, bottomWall];
          base = length (bodies s)
      in s\<lparr>bodies := bodies s @ new, walls := walls s @ [base..<base + length new]\<rparr>)"

definition createSlots :: "PlinkoEngine \<Rightarrow> PlinkoEngine" where
  "createSlots s =
     (let slotCount = rowNum (rows s) + 1;
          slotWidth = (width s - boardPadding s * 2) / real slotCount;
          slotY = height s - slotHeight s / 2;
          dividerHeight = slotHeight s;
          dividerWidth = 4;
          sensors = map (\<lambda>i. Bodies_rectangle (boardPadding s + slotWidth / 2 + real i * slotWidth)
                                  slotY (slotWidth - dividerWidth) (slotHeight s * (8 / 10))
                                  (\<lambda>b. b\<lparr>isStatic := True, isSensor := True,
                                          label := ''slot-'' @ showNat i\<rparr>))
                        [0..<slotCount];
          dividers = map (\<lambda>i. Bodies_rectangle (boardPadding s + real i * slotWidth)
                                  slotY dividerWidth dividerHeight
                                  (\<lambda>b. b\<lparr>isStatic := True, restitution := 3 / 10,
                                          label := ''divider''\<rparr>))
                        [0..<slotCount + 1];
          base = length (bodies s);
          base2 = base + length sensors
      in s\<lparr>bodies := bodies s @ sensors @ dividers,
            slotSensors := slotSensors s @ [base..<base + length sensors],
            slotDividers := slotDividers s @ [base2..<base2 + length dividers]\<rparr>)"

text \<open>
  \<^verbatim>\<open>buildWorld\<close>: \<^verbatim>\<open>World.clear(this.engine.world, false)\<close> removes every body from the
  world, static or not; the four fields are emptied and filled again; the new bodies are
  added to the world. The chip registry is not touched.
\<close>

definition buildWorld :: "PlinkoEngine \<Rightarrow> PlinkoEngine" where
  "buildWorld s =
     (let s0 = s\<lparr>world := [], pegs := [], walls := [], slotSensors := [], slotDividers := []\<rparr>;
          s1 = createPegs s0;
          s2 = createWalls s1;
          s3 = createSlots s2
      in s3\<lparr>world := world s3 @ (pegs s3 @ walls s3 @ slotSensors s3 @ slotDividers s3)\<rparr>)"

subsection \<open>Collision handling\<close>

text \<open>
  \<^verbatim>\<open>applyCollisionRandomness\<close>, with the three values of \<^verbatim>\<open>Math.random()\<close> in call order.
  \<open>positionBias\<close> divides by \<open>this.width\<close>: where the width is 0 the quotient is an
  infinity or \<^verbatim>\<open>NaN\<close> in JavaScript, and the comparison that picks the direction is true
  only for plus infinity, that is for a chip left of the centre; this is written out.
\<close>

definition applyCollisionRandomness :: "nat \<Rightarrow> real \<times> real \<times> real \<Rightarrow> PlinkoEngine \<Rightarrow> PlinkoEngine" where
  "applyCollisionRandomness chip rnd s =
     (let (rMagnitude, rDirection, rSpin) = rnd;
          b = bodies s ! chip;
          forceMagnitude = collisionForceMin + rMagnitude * (collisionForceMax - collisionForceMin);
          centerX = width s / 2;
          chipX = fst (position b);
          goRight = (if width s = 0 then centerX - chipX > 0
                     else rDirection < 1 / 2 + (centerX - chipX) / width s * (3 / 10));
          direction = (if goRight then 1 else - 1);
          b1 = Body_applyForce b (forceMagnitude * direction, 0);
          b2 = Body_setAngularVelocity b1 (angularVelocity b1 + (rSpin - 1 / 2) * (1 / 10))
      in s\<lparr>bodies := (bodies s)[chip := b2]\<rparr>)"

text \<open>
  One pair of a \<^verbatim>\<open>collisionStart\<close> event: the two bodies and the random values for
  \<^verbatim>\<open>applyCollisionRandomness\<close>. \<open>handlePair\<close> is the body of the loop over \<^verbatim>\<open>event.pairs\<close>:
  first the peg branch, then the slot branch. A landing schedules a timeout that holds
  the chip id and the slot index.
\<close>

record Pair =
  bodyA :: nat
  bodyB :: nat
  pairRandom :: "real \<times> real \<times> real"

definition chipOf :: "PlinkoEngine \<Rightarrow> Pair \<Rightarrow> nat option" where
  "chipOf s p =
     (if startsWith (label (bodies s ! bodyA p)) ''chip-'' then Some (bodyA p)
      else if startsWith (label (bodies s ! bodyB p)) ''chip-'' then Some (bodyB p)
      else None)"

definition slotOf :: "PlinkoEngine \<Rightarrow> Pair \<Rightarrow> nat option" where
  "slotOf s p =
     (if startsWith (label (bodies s ! bodyA p)) ''slot-'' then Some (bodyA p)
      else if startsWith (label (bodies s ! bodyB p)) ''slot-'' then Some (bodyB p)
      else None)"

definition pegBranch :: "Pair \<Rightarrow> PlinkoEngine \<Rightarrow> PlinkoEngine" where
  "pegBranch p s =
     (if label (bodies s ! bodyA p) = ''peg'' \<or> label (bodies s ! bodyB p) = ''peg'' then
        (case chipOf s p of
           None \<Rightarrow> s
         | Some chip \<Rightarrow>
             let chipId = removeFirst ''chip-'' (label (bodies s ! chip))
             in applyCollisionRandomness chip (pairRandom p)
                  (s\<lparr>callbackLog := callbackLog s @ [PegHit chipId]\<rparr>))
      else s)"

definition slotBranch :: "Pair \<Rightarrow> PlinkoEngine \<Rightarrow> PlinkoEngine" where
  "slotBranch p s =
     (case (slotOf s p, chipOf s p) of
        (Some slotBody, Some chipBody) \<Rightarrow>
          (let chipId = removeFirst ''chip-'' (label (bodies s ! chipBody))
           in case map_of (chips s) chipId of
                None \<Rightarrow> s
              | Some chipData \<Rightarrow>
                  if \<not> hasLanded chipData then
                    (let slotIndex = parseInt (removeFirst ''slot-'' (label (bodies s ! slotBody)))
                     in s\<lparr>chips := AList.update chipId (chipData\<lparr>hasLanded := True\<rparr>) (chips s),
                           timeouts := timeouts s @ [(chipId, slotIndex)]\<rparr>)
                  else s)
      | _ \<Rightarrow> s)"

definition handlePair :: "Pair \<Rightarrow> PlinkoEngine \<Rightarrow> PlinkoEngine" where
  "handlePair p s = slotBranch p (pegBranch p s)"

definition collisionStart :: "Pair list \<Rightarrow> PlinkoEngine \<Rightarrow> PlinkoEngine" where
  "collisionStart ps s = fold handlePair ps s"

text \<open>
  \<^verbatim>\<open>removeChip\<close>: the body with the chip's label is searched in the world and removed
  from it; the registry entry is deleted.
\<close>

definition findChip :: "PlinkoEngine \<Rightarrow> string \<Rightarrow> nat option" where
  "findChip s chipId = find (\<lambda>r. label (bodies s ! r) = ''chip-'' @ chipId) (world s)"

definition removeChip :: "string \<Rightarrow> PlinkoEngine \<Rightarrow> PlinkoEngine" where
  "removeChip chipId s =
     (let s1 = (case findChip s chipId of
                  Some chip \<Rightarrow> s\<lparr>world := remove1 chip (world s)\<rparr>
                | None \<Rightarrow> s)
      in s1\<lparr>chips := AList.delete chipId (chips s1)\<rparr>)"

text \<open>
  The \<^verbatim>\<open>setTimeout\<close> callback of the collision handler: the landing callback, then
  \<^verbatim>\<open>removeChip\<close>. It reads nothing but its two captured values. \<open>k\<close> is the position of
  the timer among the pending ones; a timer that does not exist does nothing.
\<close>

definition landingTimeout :: "nat \<Rightarrow> PlinkoEngine \<Rightarrow> PlinkoEngine" where
  "landingTimeout k s =
     (if k < length (timeouts s) then
        (let (chipId, slotIndex) = timeouts s ! k;
             s1 = s\<lparr>timeouts := take k (timeouts s) @ drop (Suc k) (timeouts s),
                    callbackLog := callbackLog s @ [SlotLanded chipId slotIndex]\<rparr>
         in removeChip chipId s1)
      else s)"

subsection \<open>Stuck-chip recovery and the render loop\<close>

text \<open>
  The body of the \<^verbatim>\<open>forEach\<close> of \<^verbatim>\<open>checkAndUnstickBalls\<close> for one registry entry; the
  body is searched in the world as in \<^verbatim>\<open>removeChip\<close>. \<open>now\<close>
  is \<^verbatim>\<open>Date.now()\<close>; \<open>rnd\<close> holds the three values of \<^verbatim>\<open>Math.random()\<close> in call order
  (angle, horizontal boost, vertical boost). \<^verbatim>\<open>!chipData.stuckCheckTime\<close> is true for
  \<^verbatim>\<open>undefined\<close> and for 0.
\<close>

definition distance2 :: "Vector \<Rightarrow> Vector \<Rightarrow> real" where
  "distance2 p q = sqrt ((fst p - fst q) ^ 2 + (snd p - snd q) ^ 2)"

definition speedOf :: "Vector \<Rightarrow> real" where
  "speedOf v = sqrt (fst v * fst v + snd v * snd v)"

definition unstickNudge :: "nat \<Rightarrow> real \<times> real \<times> real \<Rightarrow> PlinkoEngine \<Rightarrow> PlinkoEngine" where
  "unstickNudge chip rnd s =
     (let (rAngle, rBoostX, rBoostY) = rnd;
          b = bodies s ! chip;
          angle = rAngle * pi * 2;
          f = 1 / 1000;
          b1 = Body_applyForce b (cos angle * f, sin angle * f + 8 / 10000);
          currentVel = velocity b1;
          b2 = Body_setVelocity b1 (fst currentVel + (rBoostX - 1 / 2) * (3 / 10),
                                    snd currentVel + 1 / 2 + rBoostY * (1 / 2))
      in s\<lparr>bodies := (bodies s)[chip := b2]\<rparr>)"

definition unstickChip :: "int \<Rightarrow> real \<times> real \<times> real \<Rightarrow> string \<Rightarrow> PlinkoEngine \<Rightarrow> PlinkoEngine" where
  "unstickChip now rnd chipId s =
     (let stuckThreshold = 500;
          minMovement = 15 / 10
      in case map_of (chips s) chipId of
           None \<Rightarrow> s
         | Some chipData \<Rightarrow>
             if hasLanded chipData then s
             else
               (case findChip s chipId of
                  None \<Rightarrow> s
                | Some chip \<Rightarrow>
                    let currentPos = position (bodies s ! chip)
                    in case lastPosition chipData of
                         None \<Rightarrow>
                           s\<lparr>chips := AList.update chipId
                                 (chipData\<lparr>lastPosition := Some currentPos,
                                            stuckCheckTime := Some now\<rparr>) (chips s)\<rparr>
                       | Some lastPos \<Rightarrow>
                           if distance2 currentPos lastPos < minMovement then
                             (if stuckCheckTime chipData = None \<or> stuckCheckTime chipData = Some 0 then
                                s\<lparr>chips := AList.update chipId
                                      (chipData\<lparr>stuckCheckTime := Some now\<rparr>) (chips s)\<rparr>
                              else if now - the (stuckCheckTime chipData) > stuckThreshold then
                                (if speedOf (velocity (bodies s ! chip)) < 2 / 10 then
                                   (let s1 = unstickNudge chip rnd s
                                    in s1\<lparr>chips := AList.update chipId
                                            (chipData\<lparr>stuckCheckTime := Some now,
                                                       lastPosition := Some currentPos\<rparr>) (chips s1)\<rparr>)
                                 else s)
                              else s)
                           else
                             s\<lparr>chips := AList.update chipId
                                   (chipData\<lparr>lastPosition := Some currentPos,
                                              stuckCheckTime := None\<rparr>) (chips s)\<rparr>))"

definition checkAndUnstickBalls :: "int \<Rightarrow> (string \<Rightarrow> real \<times> real \<times> real) \<Rightarrow> PlinkoEngine \<Rightarrow> PlinkoEngine" where
  "checkAndUnstickBalls now rnd s =
     fold (\<lambda>chipId. unstickChip now (rnd chipId) chipId) (map fst (chips s)) s"

text \<open>
  The closure \<^verbatim>\<open>render\<close> of \<^verbatim>\<open>startRenderLoop\<close>. Drawing on the canvas changes no field.
  \<^verbatim>\<open>requestAnimationFrame\<close> returns a new positive handle.
\<close>

definition render :: "int \<Rightarrow> (string \<Rightarrow> real \<times> real \<times> real) \<Rightarrow> PlinkoEngine \<Rightarrow> PlinkoEngine" where
  "render now rnd s =
     (if isDestroyed s then s
      else
        (let s1 = checkAndUnstickBalls now rnd s
         in s1\<lparr>animationFrame := Some (case animationFrame s1 of None \<Rightarrow> 1 | Some h \<Rightarrow> h + 1),
                rafPending := True\<rparr>))"

subsection \<open>Dropping a chip and steering it\<close>

definition getRandomizedChipPhysics :: "real \<Rightarrow> real \<Rightarrow> real \<times> real" where
  "getRandomizedChipPhysics r1 r2 =
     (let rest = chipRestitutionBase + (r1 - 1 / 2) * 2 * chipRestitutionVariance;
          fric = chipFrictionBase + (r2 - 1 / 2) * 2 * chipFrictionVariance
      in (max (3 / 10) (min (9 / 10) rest), max (2 / 100) (min (15 / 100) fric)))"

text \<open>
  \<^verbatim>\<open>applyDeterministicNudges\<close> computes the target and the bound on the number of
  nudges, and registers the interval. \<open>nudgeTick\<close> is the interval's callback for the
  interval with handle \<open>h\<close>; \<open>r\<close> is its value of \<^verbatim>\<open>Math.random()\<close>. A handle that does not
  exist or was cleared has no callback. Where \<open>height - slotHeight\<close> is 0 the quotient
  \<open>progress\<close> is an infinity or \<^verbatim>\<open>NaN\<close> in JavaScript and 0 here; in both the band test
  fails.
\<close>

definition applyDeterministicNudges :: "nat \<Rightarrow> int \<Rightarrow> PlinkoEngine \<Rightarrow> PlinkoEngine" where
  "applyDeterministicNudges chip tSlot s =
     (let slotCount = rowNum (rows s) + 1;
          slotWidth = (width s - boardPadding s * 2) / real slotCount;
          tX = boardPadding s + slotWidth / 2 + real_of_int tSlot * slotWidth
      in s\<lparr>intervals := intervals s @
              [\<lparr>nudgeChip = chip, targetX = tX, nudgeSlotWidth = slotWidth,
                maxNudges = rowNum (rows s) div 2, nudgeCount = 0, cleared = False\<rparr>]\<rparr>)"

definition clearInterval :: "nat \<Rightarrow> PlinkoEngine \<Rightarrow> PlinkoEngine" where
  "clearInterval h s = s\<lparr>intervals := (intervals s)[h := (intervals s ! h)\<lparr>cleared := True\<rparr>]\<rparr>"

definition nudgeTick :: "nat \<Rightarrow> real \<Rightarrow> PlinkoEngine \<Rightarrow> PlinkoEngine" where
  "nudgeTick h r s =
     (if h < length (intervals s) \<and> \<not> cleared (intervals s ! h) then
        (let t = intervals s ! h
         in if isDestroyed s \<or> nudgeCount t \<ge> maxNudges t then clearInterval h s
            else
              (case map_of (chips s) (removeFirst ''chip-'' (label (bodies s ! nudgeChip t))) of
                 None \<Rightarrow> clearInterval h s
               | Some chipData \<Rightarrow>
                   if hasLanded chipData then clearInterval h s
                   else
                     (let chip = bodies s ! nudgeChip t;
                          progress = snd (position chip) / (height s - slotHeight s);
                          diff = targetX t - fst (position chip);
                          s1 = (if progress > 3 / 10 \<and> progress < 85 / 100
                                   \<and> \<bar>diff\<bar> > nudgeSlotWidth t * (3 / 10) then
                                  s\<lparr>bodies := (bodies s)[nudgeChip t :=
                                        Body_applyForce chip (diff * (2 / 100000) * (r + 1 / 2), 0)]\<rparr>
                                else s)
                      in s1\<lparr>intervals := (intervals s1)[h := t\<lparr>nudgeCount := nudgeCount t + 1\<rparr>]\<rparr>)))
      else s)"

text \<open>
  \<^verbatim>\<open>dropChip\<close>. The generated id and \<^verbatim>\<open>Date.now()\<close> are arguments, and so is every value
  of \<^verbatim>\<open>Math.random()\<close>, named after the quantity it is drawn for.
\<close>

record DropRandom =
  rDropX :: real
  rRestitution :: real
  rFriction :: real
  rTargetSlot :: real
  rBias :: real
  rDetRestitution :: real
  rDetFriction :: real
  rVelX :: real
  rVelY :: real
  rSpin :: real

definition dropChip ::
  "string \<Rightarrow> int \<Rightarrow> real option \<Rightarrow> SimulationMode \<Rightarrow> int option \<Rightarrow> DropRandom \<Rightarrow>
   PlinkoEngine \<Rightarrow> PlinkoEngine" where
  "dropChip newId now xPosition simulationMode tSlot rnd s =
     (let safeMargin = chipRadius s + pegRadius s + 10;
          minX = boardPadding s + safeMargin;
          maxX = width s - boardPadding s - safeMargin;
          dropX0 = (case xPosition of
                      Some xp \<Rightarrow> minX + xp * (maxX - minX)
                    | None \<Rightarrow>
                        (let centerX = width s / 2;
                             dropRange = (maxX - minX) * (7 / 10)
                         in centerX + (rDropX rnd - 1 / 2) * dropRange));
          dropX1 = max minX (min maxX dropX0);
          firstPegY = pegSpacingY s * (15 / 10);
          dropY = max (chipRadius s * (15 / 10)) (firstPegY - chipRadius s * 4);
          (restitution0, friction0) = getRandomizedChipPhysics (rRestitution rnd) (rFriction rnd);
          finalTargetSlot = (if simulationMode = Deterministic \<and> tSlot = None
                             then Some (selectTargetSlot (rows s) (rTargetSlot rnd)) else tSlot);
          (dropX, rest, fric) =
            (if simulationMode = Deterministic then
               (let slotCount = rowNum (rows s) + 1;
                    slotWidth = (width s - boardPadding s * 2) / real slotCount;
                    tX = boardPadding s + slotWidth / 2
                         + real_of_int (the finalTargetSlot) * slotWidth;
                    bias = (tX - width s / 2) * (15 / 100);
                    dropX2 = width s / 2 + bias + (rBias rnd - 1 / 2) * pegSpacingX s * (3 / 10)
                in (max minX (min maxX dropX2),
                    4 / 10 + rDetRestitution rnd * (15 / 100),
                    8 / 100 + rDetFriction rnd * (4 / 100)))
             else (dropX1, restitution0, friction0));
          chip0 = Bodies_circle dropX dropY (chipRadius s)
                    (\<lambda>b. b\<lparr>restitution := rest, friction := fric, frictionAir := chipFrictionAir,
                            label := ''chip-'' @ newId\<rparr>);
          chip1 = Body_setVelocity chip0 ((rVelX rnd - 1 / 2) * 2, 15 / 10 + rVelY rnd * (15 / 10));
          chip2 = Body_setAngularVelocity chip1 ((rSpin rnd - 1 / 2) * (15 / 100));
          ref = length (bodies s);
          s1 = s\<lparr>chips := AList.update newId
                    \<lparr>id_chip = newId, targetSlot = finalTargetSlot, hasLanded = False,
                     createdAt = now, lastPosition = None, stuckCheckTime = None\<rparr> (chips s),
                  bodies := bodies s @ [chip2],
                  world := world s @ [ref],
                  callbackLog := callbackLog s @ [ChipCreated newId]\<rparr>
      in if simulationMode = Deterministic \<and> finalTargetSlot \<noteq> None
         then applyDeterministicNudges ref (the finalTargetSlot) s1
         else s1)"

subsection \<open>The facade\<close>

definition resize :: "Vector \<Rightarrow> PlinkoEngine \<Rightarrow> PlinkoEngine" where
  "resize rect s = buildWorld (calculateDimensions rect s)"

definition setRows :: "RowCount \<Rightarrow> Vector \<Rightarrow> PlinkoEngine \<Rightarrow> PlinkoEngine" where
  "setRows rws rect s = buildWorld (calculateDimensions rect (s\<lparr>rows := rws\<rparr>))"

definition getActiveChipCount :: "PlinkoEngine \<Rightarrow> nat" where
  "getActiveChipCount s = length (chips s)"

text \<open>
  \<^verbatim>\<open>destroy\<close>: the flag, the cancelled frame request (\<^verbatim>\<open>if (this.animationFrame)\<close> is
  false for \<^verbatim>\<open>null\<close> and for 0), the stopped runner, the cleared world, the canvas taken
  out of its parent, the cleared registry. Pending timeouts and intervals are left alone.
\<close>

definition destroy :: "PlinkoEngine \<Rightarrow> PlinkoEngine" where
  "destroy s =
     (let s1 = s\<lparr>isDestroyed := True\<rparr>;
          s2 = (if animationFrame s1 \<noteq> None \<and> animationFrame s1 \<noteq> Some 0
                then s1\<lparr>rafPending := False\<rparr> else s1)
      in s2\<lparr>runnerRunning := False, world := [], canvasInDom := False, chips := []\<rparr>)"

text \<open>
  The constructor: the fields' initial values, the dimensions, the canvas, the world, the
  collision handler (registered once, it is \<open>collisionStart\<close>), the runner, and the first
  call of the render closure.
\<close>

definition initialFields :: "RowCount \<Rightarrow> PlinkoEngine" where
  "initialFields rws =
     \<lparr>rows = rws, callbackLog = [], bodies = [], world = [], pegs = [], walls = [],
      slotSensors = [], slotDividers = [], chips = [], width = 0, height = 0,
      pegRadius = 0, chipRadius = 0, pegSpacingX = 0, pegSpacingY = 0,
      boardPadding = 0, slotHeight = 0, animationFrame = None, isDestroyed = False,
      rafPending = False, runnerRunning = False, canvasInDom = False,
      timeouts = [], intervals = []\<rparr>"

definition PlinkoEngine_new ::
  "Vector \<Rightarrow> RowCount \<Rightarrow> int \<Rightarrow> (string \<Rightarrow> real \<times> real \<times> real) \<Rightarrow> PlinkoEngine" where
  "PlinkoEngine_new rect rws now rnd =
     (let s0 = initialFields rws;
          s1 = calculateDimensions rect s0;
          s2 = s1\<lparr>canvasInDom := True\<rparr>;
          s3 = buildWorld s2;
          s4 = s3\<lparr>runnerRunning := True\<rparr>
      in render now rnd s4)"

subsection \<open>Events and runs\<close>

text \<open>
  Everything that can happen to an engine: the calls of its public methods, and the
  callbacks the browser and the physics library make. \<open>PhysicsUpdate\<close> is one step of the
  runner: the library gives every body in the world a new position, velocity and spin and
  clears the accumulated force.
\<close>

datatype Event =
    DropChip string int "real option" SimulationMode "int option" DropRandom
  | CollisionStart "Pair list"
  | LandingTimeout nat
  | NudgeTick nat real
  | Frame int "string \<Rightarrow> real \<times> real \<times> real"
  | PhysicsUpdate "nat \<Rightarrow> Vector \<times> Vector \<times> real"
  | Resize Vector
  | SetRows RowCount Vector
  | Destroy

definition physicsUpdate :: "(nat \<Rightarrow> Vector \<times> Vector \<times> real) \<Rightarrow> PlinkoEngine \<Rightarrow> PlinkoEngine" where
  "physicsUpdate upd s =
     s\<lparr>bodies := fold (\<lambda>r bs. bs[r := (bs ! r)\<lparr>position := fst (upd r),
                                                velocity := fst (snd (upd r)),
                                                angularVelocity := snd (snd (upd r)),
                                                force := (0, 0)\<rparr>])
                     (filter (\<lambda>r. \<not> isStatic (bodies s ! r)) (world s)) (bodies s)\<rparr>"

fun exec :: "Event \<Rightarrow> PlinkoEngine \<Rightarrow> PlinkoEngine" where
  "exec (DropChip newId now xPosition simulationMode tSlot rnd) s =
     dropChip newId now xPosition simulationMode tSlot rnd s"
| "exec (CollisionStart ps) s = collisionStart ps s"
| "exec (LandingTimeout k) s = landingTimeout k s"
| "exec (NudgeTick h r) s = nudgeTick h r s"
| "exec (Frame now rnd) s = (if rafPending s then render now rnd (s\<lparr>rafPending := False\<rparr>) else s)"
| "exec (PhysicsUpdate upd) s = (if runnerRunning s then physicsUpdate upd s else s)"
| "exec (Resize rect) s = resize rect s"
| "exec (SetRows rws rect) s = setRows rws rect s"
| "exec Destroy s = destroy s"

definition run :: "Event list \<Rightarrow> PlinkoEngine \<Rightarrow> PlinkoEngine" where
  "run es s = fold exec es s"

text \<open>
  What the environment guarantees. The library reports a collision only between two
  bodies that are in the world; the id of a new chip (a time stamp and nine random
  characters) has not been used before.
\<close>

definition pairInWorld :: "PlinkoEngine \<Rightarrow> Pair \<Rightarrow> bool" where
  "pairInWorld s p = (bodyA p \<in> set (world s) \<and> bodyB p \<in> set (world s))"

fun dropIds :: "Event list \<Rightarrow> string list" where
  "dropIds [] = []"
| "dropIds (DropChip newId now xPosition simulationMode tSlot rnd # es) = newId # dropIds es"
| "dropIds (e # es) = dropIds es"

fun admissible :: "Event list \<Rightarrow> PlinkoEngine \<Rightarrow> bool" where
  "admissible [] s = True"
| "admissible (CollisionStart ps # es) s =
     (list_all (pairInWorld s) ps \<and> admissible es (exec (CollisionStart ps) s))"
| "admissible (e # es) s = admissible es (exec e s)"

section \<open>Observations used in the statements\<close>

text \<open>
  How often the landing callback was called for a chip id, how often the creation
  callback, how many landing timeouts are pending for it, and the labels of the bodies
  that are in the world.
\<close>

fun isLandingOf :: "string \<Rightarrow> Callback \<Rightarrow> bool" where
  "isLandingOf c (SlotLanded c' slot) = (c' = c)"
| "isLandingOf c (PegHit c') = False"
| "isLandingOf c (ChipCreated c') = False"

fun isCreationOf :: "string \<Rightarrow> Callback \<Rightarrow> bool" where
  "isCreationOf c (ChipCreated c') = (c' = c)"
| "isCreationOf c (PegHit c') = False"
| "isCreationOf c (SlotLanded c' slot) = False"

definition landings :: "string \<Rightarrow> PlinkoEngine \<Rightarrow> nat" where
  "landings c s = length (filter (isLandingOf c) (callbackLog s))"

definition creations :: "string \<Rightarrow> PlinkoEngine \<Rightarrow> nat" where
  "creations c s = length (filter (isCreationOf c) (callbackLog s))"

definition pendingFor :: "string \<Rightarrow> PlinkoEngine \<Rightarrow> nat" where
  "pendingFor c s = length (filter (\<lambda>t. fst t = c) (timeouts s))"

definition landedFlag :: "string \<Rightarrow> PlinkoEngine \<Rightarrow> bool option" where
  "landedFlag c s = map_option hasLanded (map_of (chips s) c)"

definition worldLabels :: "PlinkoEngine \<Rightarrow> string list" where
  "worldLabels s = map (\<lambda>r. label (bodies s ! r)) (world s)"

text \<open>Inputs of the examples: no randomness, and an engine on a 400 by 600 container.\<close>

definition noRandom :: "string \<Rightarrow> real \<times> real \<times> real" where
  "noRandom chipId = (0, 0, 0)"

definition dropRandom0 :: DropRandom where
  "dropRandom0 =
     \<lparr>rDropX = 0, rRestitution = 0, rFriction = 0, rTargetSlot = 0, rBias = 0,
      rDetRestitution = 0, rDetFriction = 0, rVelX = 0, rVelY = 0, rSpin = 0\<rparr>"

definition engine0 :: PlinkoEngine where
  "engine0 = PlinkoEngine_new (400, 600) R8 0 noRandom"

text \<open>
  A chip id is live when it is registered and has not landed. The quantity that the
  landing protocol keeps below the number of creations: landings made, landings
  scheduled, and the landing still possible.
\<close>

definition live :: "string \<Rightarrow> PlinkoEngine \<Rightarrow> nat" where
  "live c s = (if landedFlag c s = Some False then 1 else 0)"

definition landingBudget :: "string \<Rightarrow> PlinkoEngine \<Rightarrow> bool" where
  "landingBudget c s = (landings c s + pendingFor c s + live c s \<le> creations c s)"

text \<open>
  The labels of the bodies that \<open>buildWorld\<close> creates, in creation order: the pegs (row
  \<open>row\<close> has \<open>row + 3\<close>), the four walls, one sensor per slot, and the dividers.
\<close>

definition pegCount :: "RowCount \<Rightarrow> nat" where
  "pegCount r = sum_list (map (\<lambda>row. row + 3) [0..<rowNum r])"

definition staticLabels :: "RowCount \<Rightarrow> string list" where
  "staticLabels r =
     replicate (pegCount r) ''peg'' @ [''wall'', ''wall'', ''topWall'', ''bottom'']
     @ map (\<lambda>i. ''slot-'' @ showNat i) [0..<rowNum r + 1]
     @ replicate (rowNum r + 2) ''divider''"

text \<open>
  Every reference in the world points to a stored body; and the state in which a chip id
  is registered and not landed while no body of the world carries its label, no landing
  is scheduled for it and none was made.
\<close>

definition worldValid :: "PlinkoEngine \<Rightarrow> bool" where
  "worldValid s = list_all (\<lambda>r. r < length (bodies s)) (world s)"

definition stranded :: "string \<Rightarrow> PlinkoEngine \<Rightarrow> bool" where
  "stranded c s =
     (landedFlag c s = Some False \<and> pendingFor c s = 0 \<and> landings c s = 0
      \<and> ''chip-'' @ c \<notin> set (worldLabels s) \<and> worldValid s)"

text \<open>
  The events of the example runs: one chip \<^verbatim>\<open>c1\<close> dropped in physics mode on \<open>engine0\<close>, its
  body meeting the sensor of slot \<open>i\<close>, and its body meeting the first peg.
\<close>

definition drop1 :: Event where
  "drop1 = DropChip ''c1'' 0 None Physics None dropRandom0"

definition slotPair :: "nat \<Rightarrow> Pair" where
  "slotPair i = \<lparr>bodyA = slotSensors engine0 ! i, bodyB = length (bodies engine0),
                  pairRandom = (0, 0, 0)\<rparr>"

definition pegPair :: Pair where
  "pegPair = \<lparr>bodyA = pegs engine0 ! 0, bodyB = length (bodies engine0),
               pairRandom = (0, 0, 0)\<rparr>"

text \<open>
  The example of a rebuild: the engine with chip \<^verbatim>\<open>c1\<close> in flight is resized; then a second
  chip \<^verbatim>\<open>c2\<close> is dropped and meets the new sensor of slot 3.
\<close>

definition rebuilt :: PlinkoEngine where
  "rebuilt = resize (300, 500) (run [drop1] engine0)"

definition drop2 :: Event where
  "drop2 = DropChip ''c2'' 1 None Physics None dropRandom0"

definition slotPair2 :: Pair where
  "slotPair2 = \<lparr>bodyA = slotSensors rebuilt ! 3, bodyB = length (bodies rebuilt),
                 pairRandom = (0, 0, 0)\<rparr>"

text \<open>
  The examples of a chip held in place: the physics step puts every moving body at rest
  at (200, 300), in the steering band, or at (200, 100), above it. \<open>dropDet\<close> drops chip
  \<^verbatim>\<open>c1\<close> in deterministic mode with target slot 6.
\<close>

definition placeMid :: "nat \<Rightarrow> Vector \<times> Vector \<times> real" where
  "placeMid r = ((200, 300), (0, 0), 0)"

definition placeTop :: "nat \<Rightarrow> Vector \<times> Vector \<times> real" where
  "placeTop r = ((200, 100), (0, 0), 0)"

definition dropDet :: Event where
  "dropDet = DropChip ''c1'' 0 None Deterministic (Some 6) dropRandom0"

text \<open>
  The width of a slot and the x coordinate of the centre of slot \<open>k\<close>, as \<^verbatim>\<open>createSlots\<close>,
  \<^verbatim>\<open>dropChip\<close> and \<^verbatim>\<open>applyDeterministicNudges\<close> each compute them from the current
  dimensions: \<^verbatim>\<open>(this.width - this.boardPadding * 2) / slotCount\<close> and
  \<^verbatim>\<open>this.boardPadding + slotWidth / 2 + k * slotWidth\<close>.
\<close>

definition slotWidth :: "PlinkoEngine \<Rightarrow> real" where
  "slotWidth s = (width s - boardPadding s * 2) / real (rowNum (rows s) + 1)"

definition slotCenterX :: "PlinkoEngine \<Rightarrow> int \<Rightarrow> real" where
  "slotCenterX s k = boardPadding s + slotWidth s / 2 + real_of_int k * slotWidth s"

text \<open>
  The quantities a steering task computes in one tick, named as in the source: the id
  read off the label of the task's chip body, \<^verbatim>\<open>progress\<close>, \<^verbatim>\<open>diff\<close>, and the condition
  under which a force is applied. \<open>tasksBounded\<close> says that no task has counted more
  iterations than its bound, half of one of the row counts.
\<close>

definition taskChipId :: "PlinkoEngine \<Rightarrow> NudgeTask \<Rightarrow> string" where
  "taskChipId s t = removeFirst ''chip-'' (label (bodies s ! nudgeChip t))"

definition taskProgress :: "PlinkoEngine \<Rightarrow> NudgeTask \<Rightarrow> real" where
  "taskProgress s t = snd (position (bodies s ! nudgeChip t)) / (height s - slotHeight s)"

definition taskDiff :: "PlinkoEngine \<Rightarrow> NudgeTask \<Rightarrow> real" where
  "taskDiff s t = targetX t - fst (position (bodies s ! nudgeChip t))"

definition shouldNudge :: "PlinkoEngine \<Rightarrow> NudgeTask \<Rightarrow> bool" where
  "shouldNudge s t =
     (3 / 10 < taskProgress s t \<and> taskProgress s t < 85 / 100
      \<and> nudgeSlotWidth t * (3 / 10) < \<bar>taskDiff s t\<bar>)"

definition tasksBounded :: "PlinkoEngine \<Rightarrow> bool" where
  "tasksBounded s =
     list_all (\<lambda>t. nudgeCount t \<le> maxNudges t
                    \<and> list_ex (\<lambda>r. maxNudges t = rowNum r div 2) [R8, R10, R12, R14, R16])
              (intervals s)"

text \<open>
  \<open>taskKept t t'\<close> says that \<open>t'\<close> is a later state of the closure \<open>t\<close>: the chip body and the
  constants it captured are the same, its counter has not gone down, and a cleared
  interval is still cleared. \<open>sensorsPlaced\<close> says that the field \<^verbatim>\<open>slotSensors\<close> holds one
  body per slot, static, labelled with the index of the slot, and centred at the centre of
  the slot.
\<close>

definition taskKept :: "NudgeTask \<Rightarrow> NudgeTask \<Rightarrow> bool" where
  "taskKept t t' =
     (nudgeChip t' = nudgeChip t \<and> targetX t' = targetX t \<and> nudgeSlotWidth t' = nudgeSlotWidth t
      \<and> maxNudges t' = maxNudges t \<and> nudgeCount t \<le> nudgeCount t' \<and> (cleared t \<longrightarrow> cleared t'))"

definition sensorsPlaced :: "PlinkoEngine \<Rightarrow> bool" where
  "sensorsPlaced s =
     (length (slotSensors s) = rowNum (rows s) + 1 \<and>
      list_all (\<lambda>i. slotSensors s ! i < length (bodies s)
                     \<and> isStatic (bodies s ! (slotSensors s ! i))
                     \<and> label (bodies s ! (slotSensors s ! i)) = ''slot-'' @ showNat i
                     \<and> fst (position (bodies s ! (slotSensors s ! i))) = slotCenterX s (int i))
               [0..<rowNum (rows s) + 1])"

section \<open>Properties of the probability model\<close>

lemma binomial_step:
  "real (n choose Suc k) * real (Suc k) = real (n choose k) * real (n - k)"
proof -
  have "Suc k * (n choose Suc k) = (n - k) * (n choose k)"
    by (simp only: binomial_absorption binomial_absorb_comp)
  then have "real (Suc k) * real (n choose Suc k) = real (n - k) * real (n choose k)"
    by (metis of_nat_mult)
  then show ?thesis
    by (simp only: mult.commute)
qed

lemma binomialLoop_body:
  assumes in_n: "i \<le> n"
  shows "(real (n choose i) * real_of_int (int n - int i)) / real_of_int (int i + 1)
         = real (n choose Suc i)"
proof -
  have a: "real_of_int (int n - int i) = real (n - i)"
    using in_n by (simp add: of_nat_diff)
  have b: "real_of_int (int i + 1) = real (Suc i)"
    by simp
  have c: "real (Suc i) \<noteq> 0"
    by simp
  show ?thesis
    unfolding a b using binomial_step [of n i] c
    by (metis nonzero_mult_div_cancel_right)
qed

lemma binomialLoop_choose:
  "i \<le> k \<Longrightarrow> k \<le> n \<Longrightarrow>
   binomialLoop (int n) (int k) (int i) (real (n choose i)) = real (n choose k)"
proof (induction "k - i" arbitrary: i)
  case 0
  then have "i = k" by simp
  then show ?case by (subst binomialLoop.simps) simp
next
  case (Suc d)
  then have lt: "i < k" and le: "Suc i \<le> k" and d: "d = k - Suc i"
    by simp_all
  have in_n: "i \<le> n"
    using lt Suc.prems by simp
  have "binomialLoop (int n) (int k) (int i) (real (n choose i))
        = binomialLoop (int n) (int k) (int i + 1) (real (n choose Suc i))"
    using lt
    by (subst binomialLoop.simps) (simp only: binomialLoop_body [OF in_n] of_nat_less_iff if_True)
  also have "int i + 1 = int (Suc i)"
    by simp
  also have "binomialLoop (int n) (int k) (int (Suc i)) (real (n choose Suc i)) = real (n choose k)"
    using Suc.hyps(1) [OF d le Suc.prems(2)] .
  finally show ?case .
qed

lemma binomialCoefficient_choose:
  "binomialCoefficient (int n) (int k) = real (n choose k)"
proof (cases "k \<le> n")
  case False
  then show ?thesis
    by (simp add: binomialCoefficient_def binomial_eq_0)
next
  case True
  show ?thesis
  proof (cases "k = 0 \<or> k = n")
    case True
    then show ?thesis
      by (auto simp: binomialCoefficient_def)
  next
    case False
    have "binomialLoop (int n) (int k) (int 0) (real (n choose 0)) = real (n choose k)"
      using \<open>k \<le> n\<close> by (intro binomialLoop_choose) simp_all
    then show ?thesis
      using False \<open>k \<le> n\<close> by (simp add: binomialCoefficient_def)
  qed
qed

lemma getSlotProbabilities_eq:
  "getSlotProbabilities r =
     map (\<lambda>i. real (rowNum r choose i) / 2 ^ rowNum r) [0..<rowNum r + 1]"
  by (simp add: getSlotProbabilities_def getSlotCount_def binomialCoefficient_choose)

lemma foldl_add_sum_list: "foldl (+) (a::real) xs = a + sum_list xs"
  by (induction xs arbitrary: a) (simp_all add: add.assoc)

lemma sum_binomial_row: "sum_list (map (\<lambda>i. real (n choose i)) [0..<n + 1]) = 2 ^ n"
proof -
  have s: "set [0..<n + 1] = {..n}"
    by auto
  have "sum_list (map (\<lambda>i. real (n choose i)) [0..<n + 1]) = (\<Sum>i\<le>n. real (n choose i))"
    by (simp only: interv_sum_list_conv_sum_set_nat s)
  also have "\<dots> = real (\<Sum>i\<le>n. n choose i)"
    by simp
  also have "\<dots> = 2 ^ n"
    by (simp only: choose_row_sum) simp
  finally show ?thesis .
qed

lemma sum_list_affine:
  "sum_list (map (\<lambda>i. a * f i + (b::real)) xs) = a * sum_list (map f xs) + b * real (length xs)"
  by (induction xs) (simp_all add: algebra_simps)

lemma getSlotProbabilities_sum: "sum_list (getSlotProbabilities r) = 1"
proof -
  have "sum_list (getSlotProbabilities r)
        = sum_list (map (\<lambda>i. (1 / 2 ^ rowNum r) * real (rowNum r choose i)) [0..<rowNum r + 1])"
    by (simp add: getSlotProbabilities_eq del: upt_Suc)
  also have "\<dots> = (1 / 2 ^ rowNum r) * 2 ^ rowNum r"
    by (simp only: sum_list_const_mult sum_binomial_row)
  finally show ?thesis
    by simp
qed

lemma zip_map_upt: "zip (map f [0..<m]) [0..<m] = map (\<lambda>i. (f i, i)) [0..<m]"
  by (simp add: zip_map1 zip_same_conv_map del: upt_Suc)

lemma mixed_unnormalised_sum:
  "sum_list (map (mixedEntry n) [0..<n + 1]) = 1"
proof -
  have "map (mixedEntry n) [0..<n + 1]
        = map (\<lambda>i. (3 / 10 / 2 ^ n) * real (n choose i) + (1 / real (n + 1)) * (1 - 3 / 10)) [0..<n + 1]"
    by (simp add: mixedEntry_def del: upt_Suc)
  then have "sum_list (map (mixedEntry n) [0..<n + 1])
        = (3 / 10 / 2 ^ n) * 2 ^ n + (1 / real (n + 1)) * (1 - 3 / 10) * real (n + 1)"
    by (simp only: sum_list_affine sum_binomial_row length_upt) simp
  also have "\<dots> = 3 / 10 + 7 / 10"
    by (simp add: field_simps)
  finally show ?thesis
    by simp
qed

lemma getSlotProbabilities_mixed_eq:
  "getSlotProbabilities_mixed r = map (mixedEntry (rowNum r)) [0..<rowNum r + 1]"
proof -
  define n where "n = rowNum r"
  define binomialProbs where "binomialProbs = map (\<lambda>i. binomialCoefficient (int n) (int i)) [0..<n + 1]"
  define normalizedBinomial where "normalizedBinomial = map (\<lambda>p. p / foldl (+) 0 binomialProbs) binomialProbs"
  define probabilities where "probabilities =
    map (\<lambda>(binProb, i). binProb * (3 / 10) + (replicate (n + 1) (1 / real (n + 1)) ! i) * (1 - 3 / 10))
        (zip normalizedBinomial [0..<length normalizedBinomial])"
  have bp: "binomialProbs = map (\<lambda>i. real (n choose i)) [0..<n + 1]"
    by (simp add: binomialProbs_def binomialCoefficient_choose del: upt_Suc)
  have bt: "foldl (+) 0 binomialProbs = 2 ^ n"
    by (simp only: foldl_add_sum_list bp sum_binomial_row add_0_left)
  have nb: "normalizedBinomial = map (\<lambda>i. real (n choose i) / 2 ^ n) [0..<n + 1]"
    unfolding normalizedBinomial_def bt unfolding bp by (simp del: upt_Suc)
  have "probabilities = map (\<lambda>i. (real (n choose i) / 2 ^ n) * (3 / 10)
            + (replicate (n + 1) (1 / real (n + 1)) ! i) * (1 - 3 / 10)) [0..<n + 1]"
    unfolding probabilities_def nb
    by (simp add: zip_map_upt del: upt_Suc replicate_Suc)
  also have "\<dots> = map (mixedEntry n) [0..<n + 1]"
  proof (rule map_cong [OF refl])
    fix i
    assume "i \<in> set [0..<n + 1]"
    then have "i < n + 1"
      by auto
    then have "replicate (n + 1) (1 / real (n + 1)) ! i = 1 / real (n + 1)"
      by (rule nth_replicate)
    then show "(real (n choose i) / 2 ^ n) * (3 / 10)
            + (replicate (n + 1) (1 / real (n + 1)) ! i) * (1 - 3 / 10) = mixedEntry n i"
      by (simp only: mixedEntry_def)
  qed
  finally have pr: "probabilities = map (mixedEntry n) [0..<n + 1]" .
  have tot: "foldl (+) 0 probabilities = 1"
    by (simp only: foldl_add_sum_list pr mixed_unnormalised_sum add_0_left)
  have "getSlotProbabilities_mixed r = map (\<lambda>p. p / foldl (+) 0 probabilities) probabilities"
    by (simp add: getSlotProbabilities_mixed_def getSlotCount_def Let_def probabilities_def
        normalizedBinomial_def binomialProbs_def n_def del: upt_Suc replicate_Suc)
  also have "\<dots> = map (\<lambda>p. p / 1) probabilities"
    by (simp only: tot)
  also have "\<dots> = map (mixedEntry (rowNum r)) [0..<rowNum r + 1]"
    by (simp add: pr n_def del: upt_Suc)
  finally show ?thesis .
qed


lemma choose_center: "real (n choose i) \<le> real (n choose (n div 2))"
  by (simp add: binomial_maximum)

lemma mixedEntry_sym: "i \<le> n \<Longrightarrow> mixedEntry n (n - i) = mixedEntry n i"
  by (simp add: mixedEntry_def binomial_symmetric [symmetric])

lemma mixedEntry_center: "mixedEntry n i \<le> mixedEntry n (n div 2)"
  by (simp add: mixedEntry_def binomial_maximum divide_right_mono)

text \<open>
  Claim C6. For every row count the distribution has \<open>rowCount + 1\<close> entries, sums to 1,
  is symmetric (entry \<open>i\<close> equals entry \<open>slotCount - 1 - i\<close>), and no entry exceeds the one of
  the centre slot \<open>rowCount div 2\<close>. This holds for the root copy of \<^verbatim>\<open>getSlotProbabilities\<close>
  and for the copy in plinko/src/utils/payouts.ts alike.
\<close>

theorem getSlotProbabilities_distribution:
  "length (getSlotProbabilities r) = getSlotCount r \<and>
   sum_list (getSlotProbabilities r) = 1 \<and>
   (\<forall>i < getSlotCount r. getSlotProbabilities r ! i = getSlotProbabilities r ! (getSlotCount r - 1 - i)) \<and>
   (\<forall>i < getSlotCount r. getSlotProbabilities r ! i \<le> getSlotProbabilities r ! (rowNum r div 2))
   \<and> length (getSlotProbabilities_mixed r) = getSlotCount r \<and>
   sum_list (getSlotProbabilities_mixed r) = 1 \<and>
   (\<forall>i < getSlotCount r. getSlotProbabilities_mixed r ! i = getSlotProbabilities_mixed r ! (getSlotCount r - 1 - i)) \<and>
   (\<forall>i < getSlotCount r. getSlotProbabilities_mixed r ! i \<le> getSlotProbabilities_mixed r ! (rowNum r div 2))"
proof -
  define n where "n = rowNum r"
  have nth1: "getSlotProbabilities r ! i = real (n choose i) / 2 ^ n" if "i < n + 1" for i
    using that unfolding getSlotProbabilities_eq n_def [symmetric]
    by (simp only: nth_map_upt [of i "n + 1" 0] diff_zero add_0)
  have nth2: "getSlotProbabilities_mixed r ! i = mixedEntry n i" if "i < n + 1" for i
    using that unfolding getSlotProbabilities_mixed_eq n_def [symmetric]
    by (simp only: nth_map_upt [of i "n + 1" 0] diff_zero add_0)
  have c: "n div 2 < n + 1" by simp
  have l1: "length (getSlotProbabilities r) = getSlotCount r"
    by (simp add: getSlotProbabilities_eq getSlotCount_def)
  have l2: "length (getSlotProbabilities_mixed r) = getSlotCount r"
    by (simp add: getSlotProbabilities_mixed_eq getSlotCount_def)
  have s2: "sum_list (getSlotProbabilities_mixed r) = 1"
    by (simp only: getSlotProbabilities_mixed_eq mixed_unnormalised_sum)
  have sym1: "getSlotProbabilities r ! i = getSlotProbabilities r ! (getSlotCount r - 1 - i)"
    if "i < getSlotCount r" for i
  proof -
    have i: "i < n + 1" and j: "n - i < n + 1" and le: "i \<le> n"
      using that by (simp_all add: getSlotCount_def n_def)
    have "getSlotCount r - 1 - i = n - i"
      by (simp add: getSlotCount_def n_def)
    then show ?thesis
      using le by (simp only: nth1 [OF i] nth1 [OF j] binomial_symmetric [OF le, symmetric])
  qed
  have sym2: "getSlotProbabilities_mixed r ! i = getSlotProbabilities_mixed r ! (getSlotCount r - 1 - i)"
    if "i < getSlotCount r" for i
  proof -
    have i: "i < n + 1" and j: "n - i < n + 1" and le: "i \<le> n"
      using that by (simp_all add: getSlotCount_def n_def)
    have "getSlotCount r - 1 - i = n - i"
      by (simp add: getSlotCount_def n_def)
    then show ?thesis
      by (simp only: nth2 [OF i] nth2 [OF j] mixedEntry_sym [OF le])
  qed
  have max1: "getSlotProbabilities r ! i \<le> getSlotProbabilities r ! (rowNum r div 2)"
    if "i < getSlotCount r" for i
  proof -
    have i: "i < n + 1"
      using that by (simp add: getSlotCount_def n_def)
    show ?thesis
      unfolding n_def [symmetric] nth1 [OF i] nth1 [OF c]
      by (simp add: divide_right_mono binomial_maximum)
  qed
  have max2: "getSlotProbabilities_mixed r ! i \<le> getSlotProbabilities_mixed r ! (rowNum r div 2)"
    if "i < getSlotCount r" for i
  proof -
    have i: "i < n + 1"
      using that by (simp add: getSlotCount_def n_def)
    show ?thesis
      unfolding n_def [symmetric] nth2 [OF i] nth2 [OF c]
      by (rule mixedEntry_center)
  qed
  show ?thesis
    using l1 l2 s2 getSlotProbabilities_sum [of r] sym1 sym2 max1 max2 by blast
qed

theorem getSlotProbabilities_distribution_witness:
  "2 < getSlotCount R8 \<and>
   getSlotProbabilities R8 ! 2 = getSlotProbabilities R8 ! (getSlotCount R8 - 1 - 2) \<and>
   getSlotProbabilities R8 ! 2 \<le> getSlotProbabilities R8 ! (rowNum R8 div 2) \<and>
   getSlotProbabilities_mixed R8 ! 2 = getSlotProbabilities_mixed R8 ! (getSlotCount R8 - 1 - 2) \<and>
   getSlotProbabilities_mixed R8 ! 2 \<le> getSlotProbabilities_mixed R8 ! (rowNum R8 div 2)"
proof -
  have lt: "2 < getSlotCount R8"
    by (simp add: getSlotCount_def)
  show ?thesis
    using lt getSlotProbabilities_distribution [of R8] by blast
qed

text \<open>
  Claim C5, as amended. The root copy of \<^verbatim>\<open>getSlotProbabilities\<close> returns, for every row count
  \<open>n\<close> and every slot \<open>i = 0..n\<close>, the binomial coefficient \<open>C(n, i)\<close> divided by \<open>2^n\<close>. The copy
  in plinko/src/utils/payouts.ts returns the flattened distribution
  \<open>0.3 * C(n, i) / 2^n + 0.7 / (n + 1)\<close> instead.
\<close>

theorem getSlotProbabilities_binomial:
  "getSlotProbabilities r =
     map (\<lambda>i. real (rowNum r choose i) / 2 ^ rowNum r) [0..<getSlotCount r] \<and>
   getSlotProbabilities_mixed r =
     map (\<lambda>i. (real (rowNum r choose i) / 2 ^ rowNum r) * (3 / 10)
               + (1 / real (getSlotCount r)) * (1 - 3 / 10)) [0..<getSlotCount r]"
proof -
  have "map (mixedEntry (rowNum r)) [0..<rowNum r + 1]
        = map (\<lambda>i. (real (rowNum r choose i) / 2 ^ rowNum r) * (3 / 10)
               + (1 / real (rowNum r + 1)) * (1 - 3 / 10)) [0..<rowNum r + 1]"
    by (rule map_cong [OF refl]) (simp only: mixedEntry_def)
  then show ?thesis
    by (simp only: getSlotProbabilities_eq getSlotProbabilities_mixed_eq getSlotCount_def simp_thms)
qed

text \<open>
  The claim as stated fails on plinko/src/utils/payouts.ts: with 8 rows the first entry is
  1819/23040, not 1/256.
\<close>

theorem getSlotProbabilities_mixed_not_binomial:
  "getSlotProbabilities_mixed R8 ! 0 = 1819 / 23040 \<and>
   getSlotProbabilities_mixed R8 ! 0 \<noteq> real (rowNum R8 choose 0) / 2 ^ rowNum R8"
proof -
  have "getSlotProbabilities_mixed R8 ! 0 = mixedEntry 8 0"
    unfolding getSlotProbabilities_mixed_eq by (simp only: rowNum.simps) (simp del: upt_Suc)
  then show ?thesis
    by (simp add: mixedEntry_def)
qed

section \<open>Properties of the engine\<close>

subsection \<open>Dimensions\<close>

lemma calculateDimensions_radii:
  "pegRadius (calculateDimensions rect s) = max 3 (min (fst rect) (snd rect) / (real (rowNum (rows s)) * 4))"
  "chipRadius (calculateDimensions rect s) = pegRadius (calculateDimensions rect s) * (9 / 10)"
  "width (calculateDimensions rect s) = fst rect"
  "height (calculateDimensions rect s) = snd rect"
  "rows (calculateDimensions rect s) = rows s"
  by (simp_all add: calculateDimensions_def Let_def)

lemma createPegs_dims:
  "pegRadius (createPegs s) = pegRadius s" "chipRadius (createPegs s) = chipRadius s"
  "width (createPegs s) = width s" "height (createPegs s) = height s" "rows (createPegs s) = rows s"
  "boardPadding (createPegs s) = boardPadding s" "slotHeight (createPegs s) = slotHeight s"
  "pegSpacingX (createPegs s) = pegSpacingX s" "pegSpacingY (createPegs s) = pegSpacingY s"
  by (simp_all add: createPegs_def Let_def)

lemma createWalls_dims:
  "pegRadius (createWalls s) = pegRadius s" "chipRadius (createWalls s) = chipRadius s"
  "width (createWalls s) = width s" "height (createWalls s) = height s" "rows (createWalls s) = rows s"
  "boardPadding (createWalls s) = boardPadding s" "slotHeight (createWalls s) = slotHeight s"
  "pegSpacingX (createWalls s) = pegSpacingX s" "pegSpacingY (createWalls s) = pegSpacingY s"
  by (simp_all add: createWalls_def Let_def)

lemma createSlots_dims:
  "pegRadius (createSlots s) = pegRadius s" "chipRadius (createSlots s) = chipRadius s"
  "width (createSlots s) = width s" "height (createSlots s) = height s" "rows (createSlots s) = rows s"
  "boardPadding (createSlots s) = boardPadding s" "slotHeight (createSlots s) = slotHeight s"
  "pegSpacingX (createSlots s) = pegSpacingX s" "pegSpacingY (createSlots s) = pegSpacingY s"
  by (simp_all add: createSlots_def Let_def)

lemma buildWorld_dims:
  "pegRadius (buildWorld s) = pegRadius s" "chipRadius (buildWorld s) = chipRadius s"
  "width (buildWorld s) = width s" "height (buildWorld s) = height s" "rows (buildWorld s) = rows s"
  "boardPadding (buildWorld s) = boardPadding s" "slotHeight (buildWorld s) = slotHeight s"
  "pegSpacingX (buildWorld s) = pegSpacingX s" "pegSpacingY (buildWorld s) = pegSpacingY s"
  by (simp_all add: buildWorld_def Let_def createPegs_dims createWalls_dims createSlots_dims)


subsection \<open>Strings\<close>

lemma startsWith_append [simp]: "startsWith (p @ c) p"
  by (simp add: startsWith_def)

lemma removeFirst_append:
  assumes "p \<noteq> []"
  shows "removeFirst p (p @ c) = c"
proof -
  obtain x xs where e: "p @ c = x # xs"
    using assms by (cases p) auto
  have "removeFirst p (x # xs)
        = (if startsWith (x # xs) p then drop (length p) (x # xs) else x # removeFirst p xs)"
    by simp
  also have "\<dots> = c"
    unfolding e [symmetric] by (simp add: startsWith_def)
  finally show ?thesis
    using e by simp
qed

lemma startsWith_split: "startsWith l p \<Longrightarrow> l = p @ drop (length p) l"
  by (metis append_take_drop_id startsWith_def)

lemma removeFirst_startsWith:
  assumes "startsWith l p" and "p \<noteq> []"
  shows "l = p @ removeFirst p l"
proof -
  have l: "l = p @ drop (length p) l"
    using assms(1) by (rule startsWith_split)
  have "removeFirst p (p @ drop (length p) l) = drop (length p) l"
    using assms(2) by (rule removeFirst_append)
  then show ?thesis
    using l by simp
qed

lemma removeFirst_chip [simp]: "removeFirst ''chip-'' (''chip-'' @ c) = c"
  by (rule removeFirst_append) simp

subsection \<open>Labels survive every update of a body\<close>

lemma map_label_update:
  assumes "label b = label (bs ! i)"
  shows "map label (bs[i := b]) = map label bs"
proof (cases "i < length bs")
  case True
  then have "(map label bs)[i := label b] = map label bs"
    using assms by (simp add: list_update_same_conv)
  then show ?thesis
    by (simp add: map_update)
next
  case False
  then have "bs[i := b] = bs"
    by (simp add: list_update_beyond)
  then show ?thesis
    by simp
qed

lemma label_simps [simp]:
  "label (Body_applyForce b f) = label b"
  "label (Body_setVelocity b v) = label b"
  "label (Body_setAngularVelocity b w) = label b"
  by (simp_all add: Body_applyForce_def Body_setVelocity_def Body_setAngularVelocity_def)

subsection \<open>Collision handling, field by field\<close>

lemma applyCollisionRandomness_fields:
  "chips (applyCollisionRandomness chip rnd s) = chips s"
  "callbackLog (applyCollisionRandomness chip rnd s) = callbackLog s"
  "timeouts (applyCollisionRandomness chip rnd s) = timeouts s"
  "intervals (applyCollisionRandomness chip rnd s) = intervals s"
  "world (applyCollisionRandomness chip rnd s) = world s"
  "isDestroyed (applyCollisionRandomness chip rnd s) = isDestroyed s"
  "map label (bodies (applyCollisionRandomness chip rnd s)) = map label (bodies s)"
  by (simp_all add: applyCollisionRandomness_def Let_def map_label_update split: prod.splits)

lemma pegBranch_fields:
  "chips (pegBranch p s) = chips s"
  "timeouts (pegBranch p s) = timeouts s"
  "intervals (pegBranch p s) = intervals s"
  "world (pegBranch p s) = world s"
  "isDestroyed (pegBranch p s) = isDestroyed s"
  "map label (bodies (pegBranch p s)) = map label (bodies s)"
  by (simp_all add: pegBranch_def Let_def applyCollisionRandomness_fields split: option.splits)

lemma pegBranch_log:
  "callbackLog (pegBranch p s) = callbackLog s \<or>
   (\<exists>c. callbackLog (pegBranch p s) = callbackLog s @ [PegHit c])"
  by (simp add: pegBranch_def Let_def applyCollisionRandomness_fields split: option.splits)

lemma slotBranch_fields:
  "callbackLog (slotBranch p s) = callbackLog s"
  "intervals (slotBranch p s) = intervals s"
  "world (slotBranch p s) = world s"
  "bodies (slotBranch p s) = bodies s"
  "isDestroyed (slotBranch p s) = isDestroyed s"
  by (simp_all add: slotBranch_def Let_def split: option.splits prod.splits)


lemma slotBranch_cases:
  "slotBranch p s = s \<or>
   (\<exists>chipId d slot. map_of (chips s) chipId = Some d \<and> \<not> hasLanded d \<and>
      slotBranch p s = s\<lparr>chips := AList.update chipId (d\<lparr>hasLanded := True\<rparr>) (chips s),
                           timeouts := timeouts s @ [(chipId, slot)]\<rparr>)"
  by (auto simp: slotBranch_def Let_def split: option.splits prod.splits)

subsection \<open>The other operations, field by field\<close>

lemma removeChip_fields:
  "callbackLog (removeChip c s) = callbackLog s"
  "timeouts (removeChip c s) = timeouts s"
  "intervals (removeChip c s) = intervals s"
  "bodies (removeChip c s) = bodies s"
  "isDestroyed (removeChip c s) = isDestroyed s"
  "chips (removeChip c s) = AList.delete c (chips s)"
  by (simp_all add: removeChip_def Let_def split: option.splits)

lemma clearInterval_fields:
  "chips (clearInterval h s) = chips s"
  "callbackLog (clearInterval h s) = callbackLog s"
  "timeouts (clearInterval h s) = timeouts s"
  "world (clearInterval h s) = world s"
  "bodies (clearInterval h s) = bodies s"
  "isDestroyed (clearInterval h s) = isDestroyed s"
  by (simp_all add: clearInterval_def)

lemma nudgeTick_fields:
  "chips (nudgeTick h r s) = chips s"
  "callbackLog (nudgeTick h r s) = callbackLog s"
  "timeouts (nudgeTick h r s) = timeouts s"
  "world (nudgeTick h r s) = world s"
  "isDestroyed (nudgeTick h r s) = isDestroyed s"
  "map label (bodies (nudgeTick h r s)) = map label (bodies s)"
  by (simp_all add: nudgeTick_def Let_def clearInterval_fields map_label_update split: option.splits)

lemma unstickNudge_fields:
  "chips (unstickNudge chip rnd s) = chips s"
  "callbackLog (unstickNudge chip rnd s) = callbackLog s"
  "timeouts (unstickNudge chip rnd s) = timeouts s"
  "intervals (unstickNudge chip rnd s) = intervals s"
  "world (unstickNudge chip rnd s) = world s"
  "isDestroyed (unstickNudge chip rnd s) = isDestroyed s"
  "map label (bodies (unstickNudge chip rnd s)) = map label (bodies s)"
  by (simp_all add: unstickNudge_def Let_def map_label_update split: prod.splits)

lemma unstickChip_fields:
  "callbackLog (unstickChip now rnd c s) = callbackLog s"
  "timeouts (unstickChip now rnd c s) = timeouts s"
  "intervals (unstickChip now rnd c s) = intervals s"
  "world (unstickChip now rnd c s) = world s"
  "isDestroyed (unstickChip now rnd c s) = isDestroyed s"
  "map label (bodies (unstickChip now rnd c s)) = map label (bodies s)"
  by (simp_all add: unstickChip_def Let_def unstickNudge_fields split: option.splits)

lemma physicsUpdate_fields:
  "chips (physicsUpdate upd s) = chips s"
  "callbackLog (physicsUpdate upd s) = callbackLog s"
  "timeouts (physicsUpdate upd s) = timeouts s"
  "intervals (physicsUpdate upd s) = intervals s"
  "world (physicsUpdate upd s) = world s"
  "isDestroyed (physicsUpdate upd s) = isDestroyed s"
  by (simp_all add: physicsUpdate_def)

lemma calculateDimensions_fields:
  "chips (calculateDimensions rect s) = chips s"
  "callbackLog (calculateDimensions rect s) = callbackLog s"
  "timeouts (calculateDimensions rect s) = timeouts s"
  "intervals (calculateDimensions rect s) = intervals s"
  "world (calculateDimensions rect s) = world s"
  "bodies (calculateDimensions rect s) = bodies s"
  "isDestroyed (calculateDimensions rect s) = isDestroyed s"
  by (simp_all add: calculateDimensions_def Let_def)

lemma buildWorld_fields:
  "chips (buildWorld s) = chips s"
  "callbackLog (buildWorld s) = callbackLog s"
  "timeouts (buildWorld s) = timeouts s"
  "intervals (buildWorld s) = intervals s"
  "isDestroyed (buildWorld s) = isDestroyed s"
  by (simp_all add: buildWorld_def createPegs_def createWalls_def createSlots_def Let_def)

lemma resize_fields:
  "chips (resize rect s) = chips s"
  "callbackLog (resize rect s) = callbackLog s"
  "timeouts (resize rect s) = timeouts s"
  "intervals (resize rect s) = intervals s"
  "isDestroyed (resize rect s) = isDestroyed s"
  by (simp_all add: resize_def buildWorld_fields calculateDimensions_fields)

lemma setRows_fields:
  "chips (setRows rws rect s) = chips s"
  "callbackLog (setRows rws rect s) = callbackLog s"
  "timeouts (setRows rws rect s) = timeouts s"
  "intervals (setRows rws rect s) = intervals s"
  "isDestroyed (setRows rws rect s) = isDestroyed s"
  by (simp_all add: setRows_def buildWorld_fields calculateDimensions_fields)

lemma destroy_fields:
  "chips (destroy s) = []"
  "callbackLog (destroy s) = callbackLog s"
  "timeouts (destroy s) = timeouts s"
  "intervals (destroy s) = intervals s"
  "world (destroy s) = []"
  "bodies (destroy s) = bodies s"
  "isDestroyed (destroy s)"
  by (simp_all add: destroy_def Let_def)

lemma applyDeterministicNudges_fields:
  "chips (applyDeterministicNudges chip t s) = chips s"
  "callbackLog (applyDeterministicNudges chip t s) = callbackLog s"
  "timeouts (applyDeterministicNudges chip t s) = timeouts s"
  "world (applyDeterministicNudges chip t s) = world s"
  "bodies (applyDeterministicNudges chip t s) = bodies s"
  "isDestroyed (applyDeterministicNudges chip t s) = isDestroyed s"
  by (simp_all add: applyDeterministicNudges_def Let_def)

lemma dropChip_fields:
  "callbackLog (dropChip c now xp m t rnd s) = callbackLog s @ [ChipCreated c]"
  "timeouts (dropChip c now xp m t rnd s) = timeouts s"
  "world (dropChip c now xp m t rnd s) = world s @ [length (bodies s)]"
  "isDestroyed (dropChip c now xp m t rnd s) = isDestroyed s"
  "length (bodies (dropChip c now xp m t rnd s)) = Suc (length (bodies s))"
  by (simp_all add: dropChip_def Let_def applyDeterministicNudges_fields split: prod.splits)

lemma dropChip_chips_eq:
  "chips (dropChip c now xp m t rnd s) =
     AList.update c
       \<lparr>id_chip = c,
        targetSlot = (if m = Deterministic \<and> t = None
                      then Some (selectTargetSlot (rows s) (rTargetSlot rnd)) else t),
        hasLanded = False, createdAt = now, lastPosition = None, stuckCheckTime = None\<rparr>
       (chips s)"
  by (simp add: dropChip_def Let_def applyDeterministicNudges_fields split: prod.splits)

lemma dropChip_chips:
  "\<exists>d. \<not> hasLanded d \<and> chips (dropChip c now xp m t rnd s) = AList.update c d (chips s)"
  unfolding dropChip_chips_eq
  by (rule exI [of _ "\<lparr>id_chip = c,
        targetSlot = (if m = Deterministic \<and> t = None
                      then Some (selectTargetSlot (rows s) (rTargetSlot rnd)) else t),
        hasLanded = False, createdAt = now, lastPosition = None, stuckCheckTime = None\<rparr>"]) simp

lemma dropChip_labels:
  "map label (bodies (dropChip c now xp m t rnd s)) = map label (bodies s) @ [''chip-'' @ c]"
  by (simp add: dropChip_def Let_def applyDeterministicNudges_fields Bodies_circle_def split: prod.splits)

lemma landingBudget_same:
  assumes "callbackLog s' = callbackLog s" "timeouts s' = timeouts s"
    "landedFlag c s' = landedFlag c s"
  shows "landingBudget c s' = landingBudget c s"
  using assms by (simp add: landingBudget_def landings_def pendingFor_def live_def creations_def)

lemma landedFlag_chips: "chips s' = chips s \<Longrightarrow> landedFlag c s' = landedFlag c s"
  by (simp add: landedFlag_def)

lemma map_of_update: "map_of (AList.update k v al) c = (if c = k then Some v else map_of al c)"
  by (simp add: update_conv')

lemma map_of_delete: "map_of (AList.delete k al) c = (if c = k then None else map_of al c)"
  by (simp add: delete_conv')

lemma landingBudget_pegBranch: "landingBudget c (pegBranch p s) = landingBudget c s"
proof -
  have "landings c (pegBranch p s) = landings c s" "creations c (pegBranch p s) = creations c s"
    using pegBranch_log [of p s] by (auto simp: landings_def creations_def)
  then show ?thesis
    by (simp add: landingBudget_def pendingFor_def live_def landedFlag_def pegBranch_fields)
qed

lemma landingBudget_slotBranch:
  assumes "landingBudget c s"
  shows "landingBudget c (slotBranch p s)"
proof -
  consider "slotBranch p s = s"
    | chipId d slot where "map_of (chips s) chipId = Some d" "\<not> hasLanded d"
        "slotBranch p s = s\<lparr>chips := AList.update chipId (d\<lparr>hasLanded := True\<rparr>) (chips s),
                             timeouts := timeouts s @ [(chipId, slot)]\<rparr>"
    using slotBranch_cases [of p s] by blast
  then show ?thesis
  proof cases
    case 1
    then show ?thesis using assms by simp
  next
    case 2
    show ?thesis
    proof (cases "c = chipId")
      case True
      then have "live c s = 1"
        using 2 by (simp add: live_def landedFlag_def)
      moreover have "live c (slotBranch p s) = 0"
        using True 2 by (simp add: live_def landedFlag_def map_of_update)
      moreover have "pendingFor c (slotBranch p s) = pendingFor c s + 1"
        using True 2 by (simp add: pendingFor_def)
      moreover have "landings c (slotBranch p s) = landings c s"
        "creations c (slotBranch p s) = creations c s"
        by (simp_all add: landings_def creations_def slotBranch_fields)
      ultimately show ?thesis
        using assms by (simp add: landingBudget_def)
    next
      case False
      then have "live c (slotBranch p s) = live c s"
        using 2 by (simp add: live_def landedFlag_def map_of_update)
      moreover have "pendingFor c (slotBranch p s) = pendingFor c s"
        using False 2 by (simp add: pendingFor_def)
      moreover have "landings c (slotBranch p s) = landings c s"
        "creations c (slotBranch p s) = creations c s"
        by (simp_all add: landings_def creations_def slotBranch_fields)
      ultimately show ?thesis
        using assms by (simp add: landingBudget_def)
    qed
  qed
qed

lemma landingBudget_collisionStart:
  "landingBudget c s \<Longrightarrow> landingBudget c (collisionStart ps s)"
  unfolding collisionStart_def
  by (induction ps arbitrary: s) (simp_all add: handlePair_def landingBudget_slotBranch landingBudget_pegBranch)

lemma filter_take_drop:
  assumes "k < length xs"
  shows "length (filter P (take k xs @ drop (Suc k) xs)) + (if P (xs ! k) then 1 else 0)
         = length (filter P xs)"
proof -
  have "xs = take k xs @ xs ! k # drop (Suc k) xs"
    using assms by (simp add: id_take_nth_drop)
  then have "filter P xs = filter P (take k xs @ xs ! k # drop (Suc k) xs)"
    by simp
  then show ?thesis
    by simp
qed

lemma landingBudget_landingTimeout:
  assumes "landingBudget c s"
  shows "landingBudget c (landingTimeout k s)"
proof (cases "k < length (timeouts s)")
  case False
  then show ?thesis using assms by (simp add: landingTimeout_def)
next
  case True
  obtain chipId slot where t: "timeouts s ! k = (chipId, slot)"
    by (cases "timeouts s ! k")
  define s' where "s' = landingTimeout k s"
  have log: "callbackLog s' = callbackLog s @ [SlotLanded chipId slot]"
    and tm: "timeouts s' = take k (timeouts s) @ drop (Suc k) (timeouts s)"
    and ch: "chips s' = AList.delete chipId (chips s)"
    using True t by (simp_all add: s'_def landingTimeout_def removeChip_fields)
  have pend: "pendingFor c s' + (if chipId = c then 1 else 0) = pendingFor c s"
    using filter_take_drop [OF True, of "\<lambda>t. fst t = c"] t
    by (simp add: pendingFor_def tm)
  have land: "landings c s' = landings c s + (if chipId = c then 1 else 0)"
    by (simp add: landings_def log)
  have cre: "creations c s' = creations c s"
    by (simp add: creations_def log)
  have lv: "live c s' \<le> live c s"
    by (simp add: live_def landedFlag_def ch map_of_delete)
  show ?thesis
    using assms pend land cre lv unfolding s'_def [symmetric] landingBudget_def by (simp split: if_splits)
qed


lemma unstickChip_landedFlag: "landedFlag c (unstickChip now rnd k s) = landedFlag c s"
  by (auto simp: unstickChip_def Let_def landedFlag_def unstickNudge_fields map_of_update
      split: option.splits)

lemma checkAndUnstickBalls_keeps:
  "callbackLog (fold (\<lambda>k. unstickChip now (rnd k) k) ks s) = callbackLog s \<and>
   timeouts (fold (\<lambda>k. unstickChip now (rnd k) k) ks s) = timeouts s \<and>
   landedFlag c (fold (\<lambda>k. unstickChip now (rnd k) k) ks s) = landedFlag c s"
  by (induction ks arbitrary: s) (simp_all add: unstickChip_fields unstickChip_landedFlag)

lemma render_keeps:
  "callbackLog (render now rnd s) = callbackLog s"
  "timeouts (render now rnd s) = timeouts s"
  "landedFlag c (render now rnd s) = landedFlag c s"
  using checkAndUnstickBalls_keeps [of now rnd "map fst (chips s)" s c]
  by (simp_all add: render_def checkAndUnstickBalls_def Let_def landedFlag_def)

lemma landingBudget_dropChip:
  assumes "landingBudget c s"
  shows "landingBudget c (dropChip k now xp m t rnd s)"
proof -
  define s' where "s' = dropChip k now xp m t rnd s"
  obtain d where d: "\<not> hasLanded d" "chips s' = AList.update k d (chips s)"
    using dropChip_chips [of k now xp m t rnd s] unfolding s'_def by blast
  have land: "landings c s' = landings c s"
    and cre: "creations c s' = creations c s + (if k = c then 1 else 0)"
    and pend: "pendingFor c s' = pendingFor c s"
    by (simp_all add: s'_def landings_def creations_def pendingFor_def dropChip_fields)
  have lv: "live c s' \<le> live c s + (if k = c then 1 else 0)"
    by (simp add: live_def landedFlag_def d map_of_update)
  show ?thesis
    using assms land cre pend lv unfolding s'_def [symmetric] landingBudget_def
    by (simp split: if_splits)
qed

lemma landingBudget_destroy:
  assumes "landingBudget c s"
  shows "landingBudget c (destroy s)"
proof -
  have "live c (destroy s) = 0"
    by (simp add: live_def landedFlag_def destroy_fields)
  then show ?thesis
    using assms
    by (simp add: landingBudget_def landings_def creations_def pendingFor_def destroy_fields)
qed

lemma landingBudget_exec:
  assumes "landingBudget c s"
  shows "landingBudget c (exec e s)"
proof (cases e)
  case (DropChip k now xp m t rnd)
  then show ?thesis using assms by (simp add: landingBudget_dropChip)
next
  case (CollisionStart ps)
  then show ?thesis using assms by (simp add: landingBudget_collisionStart)
next
  case (LandingTimeout k)
  then show ?thesis using assms by (simp add: landingBudget_landingTimeout)
next
  case (NudgeTick h r)
  then show ?thesis
    using assms landingBudget_same [of "nudgeTick h r s" s c]
    by (simp add: nudgeTick_fields landedFlag_def)
next
  case (Frame now rnd)
  have "landingBudget c (render now rnd (s\<lparr>rafPending := False\<rparr>))
        = landingBudget c (s\<lparr>rafPending := False\<rparr>)"
    by (rule landingBudget_same) (rule render_keeps)+
  also have "\<dots> = landingBudget c s"
    by (rule landingBudget_same) (simp_all add: landedFlag_def)
  finally show ?thesis using assms Frame by simp
next
  case (PhysicsUpdate upd)
  then show ?thesis
    using assms landingBudget_same [of "physicsUpdate upd s" s c]
    by (simp add: physicsUpdate_fields landedFlag_def)
next
  case (Resize rect)
  then show ?thesis
    using assms landingBudget_same [of "resize rect s" s c]
    by (simp add: resize_fields landedFlag_def)
next
  case (SetRows rws rect)
  then show ?thesis
    using assms landingBudget_same [of "setRows rws rect s" s c]
    by (simp add: setRows_fields landedFlag_def)
next
  case Destroy
  then show ?thesis using assms by (simp add: landingBudget_destroy)
qed

lemma landingBudget_run: "landingBudget c s \<Longrightarrow> landingBudget c (run es s)"
  unfolding run_def by (induction es arbitrary: s) (simp_all add: landingBudget_exec)

lemma new_fields:
  "chips (PlinkoEngine_new rect rws now rnd) = []"
  "callbackLog (PlinkoEngine_new rect rws now rnd) = []"
  "timeouts (PlinkoEngine_new rect rws now rnd) = []"
  "intervals (PlinkoEngine_new rect rws now rnd) = []"
  "\<not> isDestroyed (PlinkoEngine_new rect rws now rnd)"
  by (simp_all add: PlinkoEngine_new_def Let_def render_def checkAndUnstickBalls_def
      buildWorld_fields calculateDimensions_fields initialFields_def)

lemma landingBudget_new: "landingBudget c (PlinkoEngine_new rect rws now rnd)"
  by (simp add: landingBudget_def landings_def creations_def pendingFor_def live_def
      landedFlag_def new_fields)

lemma creations_exec:
  "creations c (exec e s) = creations c s + count_list (dropIds [e]) c"
proof (cases e)
  case (CollisionStart ps)
  have "creations c (fold handlePair qs s) = creations c s" for qs
  proof (induction qs arbitrary: s)
    case Nil
    then show ?case by simp
  next
    case (Cons q qs)
    have "creations c (handlePair q s) = creations c s"
      using pegBranch_log [of q s]
      by (auto simp: creations_def handlePair_def slotBranch_fields)
    then show ?case using Cons by simp
  qed
  then show ?thesis using CollisionStart by (simp add: collisionStart_def)
next
  case (LandingTimeout k)
  then show ?thesis
    by (cases "timeouts s ! k") (simp add: creations_def landingTimeout_def removeChip_fields)
qed (simp_all add: creations_def dropChip_fields nudgeTick_fields render_keeps
    physicsUpdate_fields resize_fields setRows_fields destroy_fields)

lemma dropIds_Cons: "dropIds (e # es) = dropIds [e] @ dropIds es"
  by (cases e) simp_all

lemma creations_run:
  "creations c (run es s) = creations c s + count_list (dropIds es) c"
proof (induction es arbitrary: s)
  case Nil
  then show ?case by (simp add: run_def)
next
  case (Cons e es)
  have "run (e # es) s = run es (exec e s)"
    by (simp add: run_def)
  then show ?case
    using Cons [of "exec e s"] creations_exec [of c e s] dropIds_Cons [of e es]
    by (simp add: count_list_append del: dropIds.simps)
qed

lemma count_list_distinct: "distinct xs \<Longrightarrow> count_list xs c \<le> 1"
  by (induction xs) (auto simp: count_list_0_iff)

lemma length_concat_rows:
  "length (concat (map (\<lambda>row. map (f row) [0..<row + 3]) [0..<n]))
   = sum_list (map (\<lambda>row. row + 3) [0..<n])"
  by (induction n) simp_all

lemma label_pegAt [simp]: "label (pegAt s row col) = ''peg''"
  by (simp add: pegAt_def Let_def Bodies_circle_def)

lemma labels_pegRow: "map label (map (pegAt s row) [0..<k]) = replicate k ''peg''"
proof -
  have "map label (map (pegAt s row) [0..<k]) = map (\<lambda>col. ''peg'') [0..<k]"
    by (simp add: comp_def del: upt_Suc)
  also have "\<dots> = replicate k ''peg''"
    by (simp add: map_replicate_const)
  finally show ?thesis .
qed

lemma labels_concat_rows:
  "map label (concat (map (\<lambda>row. map (pegAt s row) [0..<row + 3]) [0..<n]))
   = replicate (sum_list (map (\<lambda>row. row + 3) [0..<n])) ''peg''"
proof (induction n)
  case 0
  then show ?case by simp
next
  case (Suc n)
  have split: "[0..<Suc n] = [0..<n] @ [n]"
    by simp
  have "map label (concat (map (\<lambda>row. map (pegAt s row) [0..<row + 3]) [0..<Suc n]))
        = map label (concat (map (\<lambda>row. map (pegAt s row) [0..<row + 3]) [0..<n]))
          @ map label (map (pegAt s n) [0..<n + 3])"
    unfolding split by simp
  also have "\<dots> = replicate (sum_list (map (\<lambda>row. row + 3) [0..<n])) ''peg''
                    @ replicate (n + 3) ''peg''"
    by (simp only: Suc labels_pegRow)
  also have "\<dots> = replicate (sum_list (map (\<lambda>row. row + 3) [0..<Suc n])) ''peg''"
    unfolding split by (simp add: replicate_add)
  finally show ?case .
qed

lemma upt_four: "[b..<b + 4] = [b, Suc b, Suc (Suc b), Suc (Suc (Suc b))]"
  by (simp add: numeral_eq_Suc upt_conv_Cons)

lemma createPegs_result:
  "map label (bodies (createPegs s)) = map label (bodies s) @ replicate (pegCount (rows s)) ''peg''"
  "pegs (createPegs s) = pegs s @ [length (bodies s)..<length (bodies s) + pegCount (rows s)]"
  "length (bodies (createPegs s)) = length (bodies s) + pegCount (rows s)"
  "world (createPegs s) = world s" "walls (createPegs s) = walls s"
  "slotSensors (createPegs s) = slotSensors s" "slotDividers (createPegs s) = slotDividers s"
  by (simp_all add: createPegs_def Let_def labels_concat_rows length_concat_rows pegCount_def)

lemma createWalls_result:
  "map label (bodies (createWalls s))
   = map label (bodies s) @ [''wall'', ''wall'', ''topWall'', ''bottom'']"
  "walls (createWalls s) = walls s @ [length (bodies s)..<length (bodies s) + 4]"
  "length (bodies (createWalls s)) = length (bodies s) + 4"
  "world (createWalls s) = world s" "pegs (createWalls s) = pegs s"
  "slotSensors (createWalls s) = slotSensors s" "slotDividers (createWalls s) = slotDividers s"
  by (simp_all add: createWalls_def Let_def Bodies_rectangle_def upt_four)

lemma createSlots_result:
  "map label (bodies (createSlots s))
   = map label (bodies s) @ map (\<lambda>i. ''slot-'' @ showNat i) [0..<rowNum (rows s) + 1]
     @ replicate (rowNum (rows s) + 2) ''divider''"
  "slotSensors (createSlots s)
   = slotSensors s @ [length (bodies s)..<length (bodies s) + (rowNum (rows s) + 1)]"
  "length (bodies (createSlots s)) = length (bodies s) + (rowNum (rows s) + 1) + (rowNum (rows s) + 2)"
  "world (createSlots s) = world s" "pegs (createSlots s) = pegs s"
  "walls (createSlots s) = walls s"
  "slotDividers (createSlots s)
   = slotDividers s @ [length (bodies s) + (rowNum (rows s) + 1)..<
                        length (bodies s) + (rowNum (rows s) + 1) + (rowNum (rows s) + 2)]"
  by (simp_all add: createSlots_def Let_def Bodies_rectangle_def comp_def map_replicate_const
      del: upt_Suc replicate_Suc)


lemma length_staticLabels:
  "length (staticLabels r) = pegCount r + 4 + (rowNum r + 1) + (rowNum r + 2)"
  by (simp add: staticLabels_def)

lemma nth_upt_append: "map ((!) (xs @ ys)) [length xs..<length xs + length ys] = ys"
proof -
  have "[length xs..<length xs + length ys] = map (\<lambda>i. i + length xs) [0..<length ys]"
    by (simp add: map_add_upt add.commute)
  then have "map ((!) (xs @ ys)) [length xs..<length xs + length ys]
             = map (\<lambda>i. (xs @ ys) ! (i + length xs)) [0..<length ys]"
    by (simp add: comp_def)
  also have "\<dots> = map (\<lambda>i. ys ! i) [0..<length ys]"
    by (simp add: nth_append)
  also have "\<dots> = ys"
    by (rule map_nth)
  finally show ?thesis .
qed

lemma upt_join:
  assumes "lo \<le> mid" and "mid \<le> hi"
  shows "[lo..<mid] @ [mid..<hi] = [lo..<hi]"
proof -
  have "hi = mid + (hi - mid)"
    using assms(2) by simp
  then have "[lo..<hi] = [lo..<mid + (hi - mid)]"
    by simp
  also have "\<dots> = [lo..<mid] @ [mid..<mid + (hi - mid)]"
    using assms(1) by (rule upt_add_eq_append)
  finally show ?thesis
    using assms(2) by simp
qed

lemma buildWorld_labels:
  "map label (bodies (buildWorld s)) = map label (bodies s) @ staticLabels (rows s)"
  by (simp add: buildWorld_def Let_def createPegs_result createWalls_result createSlots_result
      createPegs_dims createWalls_dims staticLabels_def del: upt_Suc replicate_Suc)

lemma buildWorld_length:
  "length (bodies (buildWorld s)) = length (bodies s) + length (staticLabels (rows s))"
  using arg_cong [OF buildWorld_labels [of s], of length] by simp

lemma buildWorld_refs:
  "pegs (buildWorld s) = [length (bodies s)..<length (bodies s) + pegCount (rows s)]"
  "slotSensors (buildWorld s)
   = [length (bodies s) + pegCount (rows s) + 4..<
      length (bodies s) + pegCount (rows s) + 4 + (rowNum (rows s) + 1)]"
  by (simp_all add: buildWorld_def Let_def createPegs_result createWalls_result createSlots_result
      createPegs_dims createWalls_dims del: upt_Suc)

lemma buildWorld_world:
  "world (buildWorld s) = [length (bodies s)..<length (bodies s) + length (staticLabels (rows s))]"
proof -
  define b where "b = length (bodies s)"
  define P where "P = pegCount (rows s)"
  define n where "n = rowNum (rows s)"
  have "world (buildWorld s)
        = [b..<b + P] @ [b + P..<b + P + 4] @ [b + P + 4..<b + P + 4 + (n + 1)]
          @ [b + P + 4 + (n + 1)..<b + P + 4 + (n + 1) + (n + 2)]"
  proof -
    define s0 where "s0 = s\<lparr>world := [], pegs := [], walls := [], slotSensors := [], slotDividers := []\<rparr>"
    define s1 where "s1 = createPegs s0"
    define s2 where "s2 = createWalls s1"
    define s3 where "s3 = createSlots s2"
    have r: "rows s1 = rows s" "rows s2 = rows s"
      by (simp_all add: s2_def s1_def s0_def createPegs_dims createWalls_dims)
    have l1: "length (bodies s1) = b + P"
      by (simp add: s1_def createPegs_result s0_def b_def P_def)
    have l2: "length (bodies s2) = b + P + 4"
      by (simp add: s2_def createWalls_result l1)
    have "pegs s3 = [b..<b + P]"
      by (simp add: s3_def s2_def s1_def createSlots_result createWalls_result createPegs_result)
         (simp add: s0_def b_def P_def)
    moreover have "walls s3 = [b + P..<b + P + 4]"
      by (simp add: s3_def s2_def createSlots_result createWalls_result l1)
         (simp add: s1_def s0_def createPegs_result)
    moreover have "slotSensors s3 = [b + P + 4..<b + P + 4 + (n + 1)]"
      by (simp only: s3_def createSlots_result l2 r n_def)
         (simp add: s2_def s1_def s0_def createWalls_result createPegs_result)
    moreover have "slotDividers s3 = [b + P + 4 + (n + 1)..<b + P + 4 + (n + 1) + (n + 2)]"
      by (simp only: s3_def createSlots_result l2 r n_def)
         (simp add: s2_def s1_def s0_def createWalls_result createPegs_result)
    moreover have "world s3 = []"
      by (simp add: s3_def s2_def s1_def s0_def createSlots_result createWalls_result
          createPegs_result)
    moreover have "world (buildWorld s)
                   = world s3 @ (pegs s3 @ walls s3 @ slotSensors s3 @ slotDividers s3)"
      by (simp add: buildWorld_def Let_def s3_def s2_def s1_def s0_def)
    ultimately show ?thesis
      by (simp only: append_Nil)
  qed
  also have "\<dots> = [b..<b + P + 4 + (n + 1) + (n + 2)]"
  proof -
    have j1: "[b + P + 4..<b + P + 4 + (n + 1)] @ [b + P + 4 + (n + 1)..<b + P + 4 + (n + 1) + (n + 2)]
              = [b + P + 4..<b + P + 4 + (n + 1) + (n + 2)]"
      by (rule upt_join) simp_all
    have j2: "[b + P..<b + P + 4] @ [b + P + 4..<b + P + 4 + (n + 1) + (n + 2)]
              = [b + P..<b + P + 4 + (n + 1) + (n + 2)]"
      by (rule upt_join) simp_all
    have j3: "[b..<b + P] @ [b + P..<b + P + 4 + (n + 1) + (n + 2)]
              = [b..<b + P + 4 + (n + 1) + (n + 2)]"
      by (rule upt_join) simp_all
    show ?thesis
      by (simp only: j1 j2 j3)
  qed
  also have "b + P + 4 + (n + 1) + (n + 2) = b + length (staticLabels (rows s))"
    by (simp add: length_staticLabels P_def n_def)
  finally show ?thesis
    by (simp only: b_def)
qed

lemma buildWorld_worldLabels: "worldLabels (buildWorld s) = staticLabels (rows s)"
proof -
  have "worldLabels (buildWorld s)
        = map ((!) (map label (bodies (buildWorld s))))
              [length (bodies s)..<length (bodies s) + length (staticLabels (rows s))]"
    unfolding worldLabels_def buildWorld_world
    by (rule map_cong [OF refl]) (simp add: buildWorld_length)
  also have "\<dots> = staticLabels (rows s)"
    unfolding buildWorld_labels
    using nth_upt_append [of "map label (bodies s)" "staticLabels (rows s)"] by simp
  finally show ?thesis .
qed

lemma staticLabels_no_chip: "l \<in> set (staticLabels r) \<Longrightarrow> \<not> startsWith l ''chip-''"
  by (auto simp: staticLabels_def startsWith_def)

lemma worldLabels_nth:
  "worldValid s \<Longrightarrow> worldLabels s = map ((!) (map label (bodies s))) (world s)"
  unfolding worldLabels_def worldValid_def
  by (rule map_cong [OF refl]) (simp add: list_all_iff)

lemma worldLabels_same:
  assumes "worldValid s" "world s' = world s" "map label (bodies s') = map label (bodies s)"
  shows "worldLabels s' = worldLabels s" "worldValid s'"
proof -
  have len: "length (bodies s') = length (bodies s)"
    using arg_cong [OF assms(3), of length] by simp
  show v: "worldValid s'"
    using assms(1,2) len by (simp add: worldValid_def)
  show "worldLabels s' = worldLabels s"
    by (simp only: worldLabels_nth [OF v] worldLabels_nth [OF assms(1)] assms(2,3))
qed

lemma physics_fold_labels:
  "map label (fold (\<lambda>r bs. bs[r := (bs ! r)\<lparr>position := p r, velocity := v r,
                                             angularVelocity := w r, force := (0, 0)\<rparr>]) rs bs)
   = map label bs"
  by (induction rs arbitrary: bs) (simp_all add: map_label_update)

lemma physicsUpdate_labels: "map label (bodies (physicsUpdate upd s)) = map label (bodies s)"
  by (simp add: physicsUpdate_def physics_fold_labels)

lemma handlePair_fields:
  "world (handlePair p s) = world s"
  "map label (bodies (handlePair p s)) = map label (bodies s)"
  by (simp_all add: handlePair_def slotBranch_fields pegBranch_fields)

lemma collisionStart_fields:
  "world (collisionStart ps s) = world s"
  "map label (bodies (collisionStart ps s)) = map label (bodies s)"
  unfolding collisionStart_def
  by (induction ps arbitrary: s) (simp_all add: handlePair_fields)

lemma checkAndUnstickBalls_fold_fields:
  "world (fold (\<lambda>k. unstickChip now (rnd k) k) ks s) = world s \<and>
   map label (bodies (fold (\<lambda>k. unstickChip now (rnd k) k) ks s)) = map label (bodies s)"
  by (induction ks arbitrary: s) (simp_all add: unstickChip_fields)

lemma render_fields:
  "world (render now rnd s) = world s"
  "map label (bodies (render now rnd s)) = map label (bodies s)"
  using checkAndUnstickBalls_fold_fields [of now rnd "map fst (chips s)" s]
  by (simp_all add: render_def checkAndUnstickBalls_def Let_def)

lemma removeChip_world: "set (world (removeChip c s)) \<subseteq> set (world s)"
proof (cases "findChip s c")
  case None
  then show ?thesis by (simp add: removeChip_def)
next
  case (Some chip)
  then show ?thesis
    using set_remove1_subset [of chip "world s"] by (simp add: removeChip_def)
qed

lemma landingTimeout_world:
  "bodies (landingTimeout k s) = bodies s"
  "set (world (landingTimeout k s)) \<subseteq> set (world s)"
proof -
  show "bodies (landingTimeout k s) = bodies s"
    by (simp add: landingTimeout_def removeChip_fields split: prod.splits)
  show "set (world (landingTimeout k s)) \<subseteq> set (world s)"
  proof (cases "k < length (timeouts s)")
    case True
    obtain c slot where t: "timeouts s ! k = (c, slot)"
      by (cases "timeouts s ! k")
    show ?thesis
      using True t
        removeChip_world [of c "s\<lparr>timeouts := take k (timeouts s) @ drop (Suc k) (timeouts s),
                                    callbackLog := callbackLog s @ [SlotLanded c slot]\<rparr>"]
      by (simp add: landingTimeout_def)
  next
    case False
    then show ?thesis by (simp add: landingTimeout_def)
  qed
qed

lemma slotBranch_cases_body:
  "slotBranch p s = s \<or>
   (\<exists>chipId d slot r. (r = bodyA p \<or> r = bodyB p) \<and> label (bodies s ! r) = ''chip-'' @ chipId \<and>
      map_of (chips s) chipId = Some d \<and> \<not> hasLanded d \<and>
      slotBranch p s = s\<lparr>chips := AList.update chipId (d\<lparr>hasLanded := True\<rparr>) (chips s),
                           timeouts := timeouts s @ [(chipId, slot)]\<rparr>)"
proof (cases "slotBranch p s = s")
  case True
  then show ?thesis by simp
next
  case False
  then obtain sb cb where so: "slotOf s p = Some sb" and co: "chipOf s p = Some cb"
    by (auto simp: slotBranch_def split: option.splits prod.splits)
  have cb: "cb = bodyA p \<or> cb = bodyB p" and sw: "startsWith (label (bodies s ! cb)) ''chip-''"
    using co by (auto simp: chipOf_def split: if_splits)
  define chipId where "chipId = removeFirst ''chip-'' (label (bodies s ! cb))"
  have lab: "label (bodies s ! cb) = ''chip-'' @ chipId"
    unfolding chipId_def using sw by (intro removeFirst_startsWith) simp_all
  from False so co obtain d where d: "map_of (chips s) chipId = Some d" "\<not> hasLanded d"
    by (auto simp: slotBranch_def Let_def chipId_def split: option.splits if_splits)
  have "slotBranch p s = s\<lparr>chips := AList.update chipId (d\<lparr>hasLanded := True\<rparr>) (chips s),
      timeouts := timeouts s @ [(chipId, parseInt (removeFirst ''slot-'' (label (bodies s ! sb))))]\<rparr>"
    using so co d by (simp add: slotBranch_def Let_def chipId_def)
  then show ?thesis
    using cb lab d by blast
qed


subsection \<open>A stranded chip stays stranded\<close>

lemma stranded_same:
  assumes "stranded c s" "landings c s' = landings c s" "timeouts s' = timeouts s"
    "landedFlag c s' = landedFlag c s" "world s' = world s"
    "map label (bodies s') = map label (bodies s)"
  shows "stranded c s'"
proof -
  have v: "worldValid s"
    using assms(1) by (simp add: stranded_def)
  show ?thesis
    using assms(1-4) worldLabels_same [OF v assms(5,6)]
    by (simp add: stranded_def pendingFor_def)
qed

lemma landings_pegBranch: "landings c (pegBranch p s) = landings c s"
  using pegBranch_log [of p s] by (auto simp: landings_def)

lemma stranded_pegBranch: "stranded c s \<Longrightarrow> stranded c (pegBranch p s)"
  by (erule stranded_same) (simp_all add: landings_pegBranch pegBranch_fields landedFlag_def)

lemma stranded_slotBranch:
  assumes "stranded c s" "pairInWorld s p"
  shows "stranded c (slotBranch p s)"
proof -
  consider "slotBranch p s = s"
    | chipId d slot r where "r = bodyA p \<or> r = bodyB p" "label (bodies s ! r) = ''chip-'' @ chipId"
        "map_of (chips s) chipId = Some d"
        "slotBranch p s = s\<lparr>chips := AList.update chipId (d\<lparr>hasLanded := True\<rparr>) (chips s),
                             timeouts := timeouts s @ [(chipId, slot)]\<rparr>"
    using slotBranch_cases_body [of p s] by blast
  then show ?thesis
  proof cases
    case 1
    then show ?thesis using assms(1) by simp
  next
    case 2
    have "r \<in> set (world s)"
      using 2(1) assms(2) by (auto simp: pairInWorld_def)
    then have "''chip-'' @ chipId \<in> set (worldLabels s)"
      using 2(2) by (force simp: worldLabels_def)
    then have ne: "chipId \<noteq> c"
      using assms(1) by (auto simp: stranded_def)
    define s' where "s' = slotBranch p s"
    have f: "landedFlag c s' = landedFlag c s" "pendingFor c s' = pendingFor c s"
      "landings c s' = landings c s" "worldLabels s' = worldLabels s" "worldValid s' = worldValid s"
      using ne unfolding s'_def 2(4)
      by (simp_all add: landedFlag_def map_of_update pendingFor_def landings_def worldLabels_def
          worldValid_def)
    show ?thesis
      using assms(1) f unfolding s'_def [symmetric] by (simp add: stranded_def)
  qed
qed

lemma pairInWorld_world: "world s' = world s \<Longrightarrow> pairInWorld s' p = pairInWorld s p"
  by (simp add: pairInWorld_def)

lemma stranded_handlePair:
  assumes "stranded c s" "pairInWorld s p"
  shows "stranded c (handlePair p s)"
  unfolding handlePair_def
  using assms
  by (intro stranded_slotBranch stranded_pegBranch) (simp_all add: pairInWorld_def pegBranch_fields)

lemma stranded_collisionStart:
  "stranded c s \<Longrightarrow> list_all (pairInWorld s) ps \<Longrightarrow> stranded c (collisionStart ps s)"
proof (induction ps arbitrary: s)
  case Nil
  then show ?case by (simp add: collisionStart_def)
next
  case (Cons p ps)
  have st: "stranded c (handlePair p s)"
    using Cons.prems by (intro stranded_handlePair) simp_all
  have "list_all (pairInWorld (handlePair p s)) ps"
    using Cons.prems(2) by (simp add: list_all_iff pairInWorld_def handlePair_fields)
  then have "stranded c (collisionStart ps (handlePair p s))"
    using st by (rule Cons.IH [rotated])
  then show ?case
    by (simp add: collisionStart_def)
qed

lemma stranded_landingTimeout:
  assumes "stranded c s"
  shows "stranded c (landingTimeout k s)"
proof (cases "k < length (timeouts s)")
  case False
  then show ?thesis using assms by (simp add: landingTimeout_def)
next
  case True
  obtain chipId slot where t: "timeouts s ! k = (chipId, slot)"
    by (cases "timeouts s ! k")
  have "(chipId, slot) \<in> set (timeouts s)"
    using True t by (metis nth_mem)
  moreover have "filter (\<lambda>t. fst t = c) (timeouts s) = []"
    using assms by (simp add: stranded_def pendingFor_def)
  ultimately have ne: "chipId \<noteq> c"
    by (auto simp: filter_empty_conv)
  define s' where "s' = landingTimeout k s"
  have log: "callbackLog s' = callbackLog s @ [SlotLanded chipId slot]"
    and tm: "timeouts s' = take k (timeouts s) @ drop (Suc k) (timeouts s)"
    and ch: "chips s' = AList.delete chipId (chips s)"
    using True t by (simp_all add: s'_def landingTimeout_def removeChip_fields)
  have p0: "pendingFor c s' = 0"
    using filter_take_drop [OF True, of "\<lambda>t. fst t = c"] assms
    by (simp add: pendingFor_def tm stranded_def)
  have l0: "landings c s' = landings c s"
    using ne by (simp add: landings_def log)
  have lf: "landedFlag c s' = landedFlag c s"
    using ne by (simp add: landedFlag_def ch map_of_delete)
  have b: "bodies s' = bodies s" and w: "set (world s') \<subseteq> set (world s)"
    unfolding s'_def by (rule landingTimeout_world)+
  have wl: "set (worldLabels s') \<subseteq> set (worldLabels s)"
    using w by (auto simp: worldLabels_def b)
  have wv: "worldValid s'"
    using assms w by (auto simp: stranded_def worldValid_def list_all_iff b)
  show ?thesis
    using assms p0 l0 lf wl wv unfolding s'_def [symmetric] by (auto simp: stranded_def)
qed

lemma stranded_dropChip:
  assumes "stranded c s" "k \<noteq> c"
  shows "stranded c (dropChip k now xp m t rnd s)"
proof -
  define s' where "s' = dropChip k now xp m t rnd s"
  obtain d where d: "chips s' = AList.update k d (chips s)"
    using dropChip_chips [of k now xp m t rnd s] unfolding s'_def by blast
  have lf: "landedFlag c s' = landedFlag c s"
    using assms(2) by (simp add: landedFlag_def d map_of_update)
  have l0: "landings c s' = landings c s" and p0: "pendingFor c s' = pendingFor c s"
    by (simp_all add: s'_def landings_def pendingFor_def dropChip_fields)
  have w: "world s' = world s @ [length (bodies s)]"
    and lab: "map label (bodies s') = map label (bodies s) @ [''chip-'' @ k]"
    unfolding s'_def by (simp_all add: dropChip_fields dropChip_labels)
  have len: "length (bodies s') = Suc (length (bodies s))"
    unfolding s'_def by (simp add: dropChip_fields)
  have v: "worldValid s"
    using assms(1) by (simp add: stranded_def)
  have v': "worldValid s'"
    using v by (auto simp: worldValid_def w len list_all_iff)
  have old: "r \<in> set (world s) \<Longrightarrow> label (bodies s' ! r) = label (bodies s ! r)" for r
  proof -
    assume "r \<in> set (world s)"
    then have r: "r < length (bodies s)"
      using v by (simp add: worldValid_def list_all_iff)
    have "map label (bodies s') ! r = (map label (bodies s) @ [''chip-'' @ k]) ! r"
      by (simp only: lab)
    then show ?thesis
      using r len by (simp add: nth_append)
  qed
  have new: "label (bodies s' ! length (bodies s)) = ''chip-'' @ k"
  proof -
    have "map label (bodies s') ! length (bodies s)
          = (map label (bodies s) @ [''chip-'' @ k]) ! length (bodies s)"
      by (simp only: lab)
    then show ?thesis
      using len by (simp add: nth_append)
  qed
  have "worldLabels s' = worldLabels s @ [''chip-'' @ k]"
    using old new by (simp add: worldLabels_def w)
  then have "''chip-'' @ c \<notin> set (worldLabels s')"
    using assms by (simp add: stranded_def)
  then show ?thesis
    using assms(1) lf l0 p0 v' unfolding s'_def [symmetric] by (simp add: stranded_def)
qed


lemma stranded_render: "stranded c s \<Longrightarrow> stranded c (render now rnd s)"
  by (erule stranded_same) (simp_all add: render_keeps render_fields landings_def)

lemma stranded_rebuild:
  assumes "landedFlag c s = Some False" "pendingFor c s = 0" "landings c s = 0"
  shows "stranded c (buildWorld (calculateDimensions rect s))"
proof -
  define s1 where "s1 = calculateDimensions rect s"
  define s' where "s' = buildWorld s1"
  have f: "landedFlag c s' = landedFlag c s" "pendingFor c s' = pendingFor c s"
    "landings c s' = landings c s"
    by (simp_all add: s'_def s1_def landedFlag_def pendingFor_def landings_def buildWorld_fields
        calculateDimensions_fields)
  have wl: "worldLabels s' = staticLabels (rows s1)"
    unfolding s'_def by (rule buildWorld_worldLabels)
  have no: "''chip-'' @ c \<notin> set (worldLabels s')"
  proof
    assume "''chip-'' @ c \<in> set (worldLabels s')"
    then have "\<not> startsWith (''chip-'' @ c) ''chip-''"
      unfolding wl by (rule staticLabels_no_chip)
    then show False
      by (simp only: startsWith_append simp_thms)
  qed
  have v: "worldValid s'"
    by (simp add: worldValid_def s'_def buildWorld_world buildWorld_length list_all_iff)
  show ?thesis
    using assms f no v unfolding s'_def [symmetric] s1_def [symmetric] by (simp add: stranded_def)
qed

lemma stranded_exec:
  assumes "stranded c s" "e \<noteq> Destroy" "c \<notin> set (dropIds [e])"
    "\<And>ps. e = CollisionStart ps \<Longrightarrow> list_all (pairInWorld s) ps"
  shows "stranded c (exec e s)"
proof (cases e)
  case (DropChip k now xp m t rnd)
  then show ?thesis using assms by (simp add: stranded_dropChip)
next
  case (CollisionStart ps)
  then show ?thesis using assms by (simp add: stranded_collisionStart)
next
  case (LandingTimeout k)
  then show ?thesis using assms by (simp add: stranded_landingTimeout)
next
  case (NudgeTick h r)
  have "stranded c (nudgeTick h r s)"
    using assms(1) by (rule stranded_same) (simp_all add: nudgeTick_fields landings_def landedFlag_def)
  then show ?thesis using NudgeTick by simp
next
  case (Frame now rnd)
  have "stranded c (s\<lparr>rafPending := False\<rparr>)"
    using assms(1) by (rule stranded_same) (simp_all add: landings_def landedFlag_def)
  then have "stranded c (render now rnd (s\<lparr>rafPending := False\<rparr>))"
    by (rule stranded_render)
  then show ?thesis using Frame assms(1) by simp
next
  case (PhysicsUpdate upd)
  have "stranded c (physicsUpdate upd s)"
    using assms(1)
    by (rule stranded_same)
       (simp_all add: physicsUpdate_fields physicsUpdate_labels landings_def landedFlag_def)
  then show ?thesis using PhysicsUpdate assms(1) by simp
next
  case (Resize rect)
  then show ?thesis
    using assms(1) stranded_rebuild [of c s rect] by (simp add: resize_def stranded_def)
next
  case (SetRows rws rect)
  have "stranded c (s\<lparr>rows := rws\<rparr>)"
    using assms(1) by (rule stranded_same) (simp_all add: landings_def landedFlag_def)
  then show ?thesis
    using SetRows stranded_rebuild [of c "s\<lparr>rows := rws\<rparr>" rect]
    by (simp add: setRows_def stranded_def)
next
  case Destroy
  then show ?thesis using assms(2) by simp
qed

lemma admissible_Cons:
  "admissible (e # es) s \<Longrightarrow>
   admissible es (exec e s) \<and> (\<forall>ps. e = CollisionStart ps \<longrightarrow> list_all (pairInWorld s) ps)"
  by (cases e) simp_all

lemma stranded_run:
  "stranded c s \<Longrightarrow> admissible es s \<Longrightarrow> Destroy \<notin> set es \<Longrightarrow> c \<notin> set (dropIds es)
   \<Longrightarrow> stranded c (run es s)"
proof (induction es arbitrary: s)
  case Nil
  then show ?case by (simp add: run_def)
next
  case (Cons e es)
  have adm: "admissible es (exec e s)"
    and pw: "\<And>ps. e = CollisionStart ps \<Longrightarrow> list_all (pairInWorld s) ps"
    using admissible_Cons [OF Cons.prems(2)] by simp_all
  have ids: "c \<notin> set (dropIds [e])" "c \<notin> set (dropIds es)"
    using Cons.prems(4) dropIds_Cons [of e es] by simp_all
  have "stranded c (exec e s)"
    using Cons.prems(1,3) ids(1) pw by (intro stranded_exec) auto
  then have "stranded c (run es (exec e s))"
    using adm Cons.prems(3) ids(2) by (intro Cons.IH) simp_all
  then show ?case
    by (simp add: run_def)
qed

subsection \<open>The engine after construction\<close>

lemma render_no_chips:
  "chips s = [] \<Longrightarrow> \<not> isDestroyed s \<Longrightarrow>
   render now rnd s = s\<lparr>animationFrame := Some (case animationFrame s of None \<Rightarrow> 1 | Some h \<Rightarrow> h + 1),
                         rafPending := True\<rparr>"
  by (simp add: render_def checkAndUnstickBalls_def)

lemma new_eq:
  "PlinkoEngine_new rect rws now rnd =
     (buildWorld ((calculateDimensions rect (initialFields rws))\<lparr>canvasInDom := True\<rparr>))
       \<lparr>runnerRunning := True, animationFrame := Some 1, rafPending := True\<rparr>"
proof -
  define s3 where "s3 = buildWorld ((calculateDimensions rect (initialFields rws))\<lparr>canvasInDom := True\<rparr>)"
  have c: "chips (s3\<lparr>runnerRunning := True\<rparr>) = []" "\<not> isDestroyed (s3\<lparr>runnerRunning := True\<rparr>)"
    by (simp_all add: s3_def buildWorld_fields calculateDimensions_fields initialFields_def)
  have a: "animationFrame s3 = None"
    by (simp add: s3_def buildWorld_def createPegs_def createWalls_def createSlots_def Let_def
        calculateDimensions_def initialFields_def)
  have "PlinkoEngine_new rect rws now rnd = render now rnd (s3\<lparr>runnerRunning := True\<rparr>)"
    by (simp add: PlinkoEngine_new_def Let_def s3_def)
  also have "\<dots> = s3\<lparr>runnerRunning := True, animationFrame := Some 1, rafPending := True\<rparr>"
    by (simp add: render_no_chips [OF c] a)
  finally show ?thesis
    by (simp add: s3_def)
qed

lemma new_world:
  "map label (bodies (PlinkoEngine_new rect rws now rnd)) = staticLabels rws"
  "world (PlinkoEngine_new rect rws now rnd) = [0..<length (staticLabels rws)]"
  "pegs (PlinkoEngine_new rect rws now rnd) = [0..<pegCount rws]"
  "slotSensors (PlinkoEngine_new rect rws now rnd)
   = [pegCount rws + 4..<pegCount rws + 4 + (rowNum rws + 1)]"
  "rows (PlinkoEngine_new rect rws now rnd) = rws"
  by (simp_all add: new_eq buildWorld_labels buildWorld_world buildWorld_refs buildWorld_dims
      calculateDimensions_fields calculateDimensions_radii initialFields_def del: upt_Suc)

lemma new_length: "length (bodies (PlinkoEngine_new rect rws now rnd)) = length (staticLabels rws)"
  using arg_cong [OF new_world(1) [of rect rws now rnd], of length] by simp

lemma new_worldValid: "worldValid (PlinkoEngine_new rect rws now rnd)"
  by (simp add: worldValid_def new_world new_length list_all_iff)

lemma label_nth: "r < length (bodies s) \<Longrightarrow> label (bodies s ! r) = map label (bodies s) ! r"
  by simp

lemma new_sensor:
  assumes "i < rowNum rws + 1"
  shows "label (bodies (PlinkoEngine_new rect rws now rnd)
                 ! (slotSensors (PlinkoEngine_new rect rws now rnd) ! i)) = ''slot-'' @ showNat i"
    and "slotSensors (PlinkoEngine_new rect rws now rnd) ! i
         \<in> set (world (PlinkoEngine_new rect rws now rnd))"
    and "slotSensors (PlinkoEngine_new rect rws now rnd) ! i
         < length (bodies (PlinkoEngine_new rect rws now rnd))"
proof -
  define s where "s = PlinkoEngine_new rect rws now rnd"
  have ref: "slotSensors s ! i = pegCount rws + 4 + i"
    using assms by (simp add: s_def new_world del: upt_Suc)
  have lt: "pegCount rws + 4 + i < length (bodies s)"
    using assms by (simp add: s_def new_length length_staticLabels)
  have "map label (bodies s) ! (pegCount rws + 4 + i) = ''slot-'' @ showNat i"
    using assms
    by (simp add: s_def new_world staticLabels_def nth_append del: upt_Suc replicate_Suc)
  then show "label (bodies s ! (slotSensors s ! i)) = ''slot-'' @ showNat i"
    using lt by (simp add: ref)
  show "slotSensors s ! i \<in> set (world s)"
    using lt by (simp add: ref) (simp add: s_def new_world new_length)
  show "slotSensors s ! i < length (bodies s)"
    using lt by (simp add: ref)
qed

lemma new_peg:
  assumes "i < pegCount rws"
  shows "label (bodies (PlinkoEngine_new rect rws now rnd)
                 ! (pegs (PlinkoEngine_new rect rws now rnd) ! i)) = ''peg''"
    and "pegs (PlinkoEngine_new rect rws now rnd) ! i
         \<in> set (world (PlinkoEngine_new rect rws now rnd))"
    and "pegs (PlinkoEngine_new rect rws now rnd) ! i
         < length (bodies (PlinkoEngine_new rect rws now rnd))"
proof -
  define s where "s = PlinkoEngine_new rect rws now rnd"
  have ref: "pegs s ! i = i"
    using assms by (simp add: s_def new_world del: upt_Suc)
  have lt: "i < length (bodies s)"
    using assms by (simp add: s_def new_length length_staticLabels)
  have "map label (bodies s) ! i = ''peg''"
    using assms
    by (simp add: s_def new_world staticLabels_def nth_append del: upt_Suc replicate_Suc)
  then show "label (bodies s ! (pegs s ! i)) = ''peg''"
    using lt by (simp add: ref)
  show "pegs s ! i \<in> set (world s)"
    using lt by (simp add: ref) (simp add: s_def new_world new_length)
  show "pegs s ! i < length (bodies s)"
    using lt by (simp add: ref)
qed

lemma pegCount_pos: "0 < pegCount rws"
  by (cases rws) (simp_all add: pegCount_def upt_conv_Cons)


subsection \<open>Single steps on known labels\<close>

lemma dropChip_label_old:
  assumes "r < length (bodies s)"
  shows "label (bodies (dropChip c now xp m t rnd s) ! r) = label (bodies s ! r)"
proof -
  have "map label (bodies (dropChip c now xp m t rnd s)) ! r
        = (map label (bodies s) @ [''chip-'' @ c]) ! r"
    by (simp only: dropChip_labels)
  then show ?thesis
    using assms by (simp add: nth_append dropChip_fields)
qed

lemma dropChip_label_new:
  "label (bodies (dropChip c now xp m t rnd s) ! length (bodies s)) = ''chip-'' @ c"
proof -
  have "map label (bodies (dropChip c now xp m t rnd s)) ! length (bodies s)
        = (map label (bodies s) @ [''chip-'' @ c]) ! length (bodies s)"
    by (simp only: dropChip_labels)
  then show ?thesis
    by (simp add: nth_append dropChip_fields)
qed

lemma startsWith_slot_chip [simp]:
  "\<not> startsWith (''slot-'' @ k) ''chip-''" "\<not> startsWith (''chip-'' @ c) ''slot-''"
  "\<not> startsWith ''peg'' ''chip-''" "\<not> startsWith ''peg'' ''slot-''"
  "''slot-'' @ k \<noteq> ''peg''" "''chip-'' @ c \<noteq> ''peg''"
  by (simp_all add: startsWith_def)

lemma removeFirst_slot [simp]: "removeFirst ''slot-'' (''slot-'' @ k) = k"
  by (rule removeFirst_append) simp

lemma handlePair_lands:
  assumes "label (bodies s ! bodyA p) = ''slot-'' @ k" "label (bodies s ! bodyB p) = ''chip-'' @ c"
    "map_of (chips s) c = Some d" "\<not> hasLanded d"
  shows "handlePair p s = s\<lparr>chips := AList.update c (d\<lparr>hasLanded := True\<rparr>) (chips s),
                             timeouts := timeouts s @ [(c, parseInt k)]\<rparr>"
proof -
  have pb: "pegBranch p s = s"
    using assms(1,2) by (simp add: pegBranch_def del: append.simps)
  have so: "slotOf s p = Some (bodyA p)" and co: "chipOf s p = Some (bodyB p)"
    using assms(1,2) by (simp_all add: slotOf_def chipOf_def del: append.simps)
  show ?thesis
    unfolding handlePair_def pb
    using assms by (simp add: slotBranch_def so co Let_def del: append.simps)
qed

lemma handlePair_ignored:
  assumes "label (bodies s ! bodyA p) = ''slot-'' @ k" "label (bodies s ! bodyB p) = ''chip-'' @ c"
    "map_of (chips s) c = Some d" "hasLanded d"
  shows "handlePair p s = s"
proof -
  have pb: "pegBranch p s = s"
    using assms(1,2) by (simp add: pegBranch_def del: append.simps)
  have so: "slotOf s p = Some (bodyA p)" and co: "chipOf s p = Some (bodyB p)"
    using assms(1,2) by (simp_all add: slotOf_def chipOf_def del: append.simps)
  show ?thesis
    unfolding handlePair_def pb
    using assms by (simp add: slotBranch_def so co Let_def del: append.simps)
qed

lemma handlePair_peg_hit:
  assumes "label (bodies s ! bodyA p) = ''peg''" "label (bodies s ! bodyB p) = ''chip-'' @ c"
  shows "callbackLog (handlePair p s) = callbackLog s @ [PegHit c]"
proof -
  have co: "chipOf s p = Some (bodyB p)"
    using assms by (simp add: chipOf_def del: append.simps)
  show ?thesis
    using assms
    by (simp add: handlePair_def slotBranch_fields pegBranch_def co Let_def
        applyCollisionRandomness_fields del: append.simps)
qed

lemma showNat_digit: "n < 10 \<Longrightarrow> showNat n = [digitChar n]"
  by (simp add: showNat.simps)

lemma parseInt_3: "parseInt (showNat 3) = Some 3"
  by (simp add: showNat_digit digitChar_def parseInt_def digitVal_def)


subsection \<open>The example run\<close>

lemma after_drop1:
  "chips (exec drop1 engine0)
   = [(''c1'', \<lparr>id_chip = ''c1'', targetSlot = None, hasLanded = False, createdAt = 0,
               lastPosition = None, stuckCheckTime = None\<rparr>)]"
  "callbackLog (exec drop1 engine0) = [ChipCreated ''c1'']"
  "timeouts (exec drop1 engine0) = []"
  "label (bodies (exec drop1 engine0) ! bodyA (slotPair 3)) = ''slot-'' @ showNat 3"
  "label (bodies (exec drop1 engine0) ! bodyB (slotPair 3)) = ''chip-'' @ ''c1''"
  "label (bodies (exec drop1 engine0) ! bodyA pegPair) = ''peg''"
  "label (bodies (exec drop1 engine0) ! bodyB pegPair) = ''chip-'' @ ''c1''"
  "\<not> isDestroyed (exec drop1 engine0)"
proof -
  show "chips (exec drop1 engine0)
   = [(''c1'', \<lparr>id_chip = ''c1'', targetSlot = None, hasLanded = False, createdAt = 0,
               lastPosition = None, stuckCheckTime = None\<rparr>)]"
    by (simp add: drop1_def dropChip_chips_eq engine0_def new_fields)
  show "callbackLog (exec drop1 engine0) = [ChipCreated ''c1'']"
    "timeouts (exec drop1 engine0) = []" "\<not> isDestroyed (exec drop1 engine0)"
    by (simp_all add: drop1_def dropChip_fields engine0_def new_fields)
  have "(3::nat) < rowNum R8 + 1"
    by simp
  from new_sensor [where i = 3 and rws = R8 and rect = "(400, 600)" and now = 0 and rnd = noRandom,
      OF this]
  show "label (bodies (exec drop1 engine0) ! bodyA (slotPair 3)) = ''slot-'' @ showNat 3"
    by (simp add: drop1_def slotPair_def dropChip_label_old engine0_def del: append.simps)
  show "label (bodies (exec drop1 engine0) ! bodyB (slotPair 3)) = ''chip-'' @ ''c1''"
    "label (bodies (exec drop1 engine0) ! bodyB pegPair) = ''chip-'' @ ''c1''"
    by (simp_all add: drop1_def slotPair_def pegPair_def dropChip_label_new del: append.simps)
  from new_peg [where i = 0 and rws = R8 and rect = "(400, 600)" and now = 0 and rnd = noRandom,
      OF pegCount_pos]
  show "label (bodies (exec drop1 engine0) ! bodyA pegPair) = ''peg''"
    by (simp add: drop1_def pegPair_def dropChip_label_old engine0_def del: append.simps)
qed

lemma after_contact:
  "exec (CollisionStart [slotPair 3]) (exec drop1 engine0)
   = (exec drop1 engine0)
       \<lparr>chips := [(''c1'', \<lparr>id_chip = ''c1'', targetSlot = None, hasLanded = True, createdAt = 0,
                             lastPosition = None, stuckCheckTime = None\<rparr>)],
        timeouts := [(''c1'', Some 3)]\<rparr>"
proof -
  have "handlePair (slotPair 3) (exec drop1 engine0)
        = (exec drop1 engine0)
            \<lparr>chips := AList.update ''c1''
               (\<lparr>id_chip = ''c1'', targetSlot = None, hasLanded = False, createdAt = 0,
                 lastPosition = None, stuckCheckTime = None\<rparr>\<lparr>hasLanded := True\<rparr>)
               (chips (exec drop1 engine0)),
             timeouts := timeouts (exec drop1 engine0) @ [(''c1'', parseInt (showNat 3))]\<rparr>"
    by (rule handlePair_lands) (simp_all add: after_drop1 del: append.simps)
  then show ?thesis
    by (simp add: collisionStart_def after_drop1 parseInt_3)
qed

lemma run_Cons: "run (e # es) s = run es (exec e s)"
  by (simp add: run_def)

lemma run_Nil: "run [] s = s"
  by (simp add: run_def)

subsection \<open>Which bodies are static\<close>

lemma static_pegRow: "map isStatic (map (pegAt s row) [0..<k]) = replicate k True"
proof -
  have "map isStatic (map (pegAt s row) [0..<k]) = map (\<lambda>col. True) [0..<k]"
    by (simp add: comp_def pegAt_def Let_def Bodies_circle_def del: upt_Suc)
  also have "\<dots> = replicate k True"
    by (simp add: map_replicate_const)
  finally show ?thesis .
qed

lemma static_concat_rows:
  "map isStatic (concat (map (\<lambda>row. map (pegAt s row) [0..<row + 3]) [0..<n]))
   = replicate (sum_list (map (\<lambda>row. row + 3) [0..<n])) True"
proof (induction n)
  case 0
  then show ?case by simp
next
  case (Suc n)
  have split: "[0..<Suc n] = [0..<n] @ [n]"
    by simp
  have "map isStatic (concat (map (\<lambda>row. map (pegAt s row) [0..<row + 3]) [0..<Suc n]))
        = map isStatic (concat (map (\<lambda>row. map (pegAt s row) [0..<row + 3]) [0..<n]))
          @ map isStatic (map (pegAt s n) [0..<n + 3])"
    unfolding split by simp
  also have "\<dots> = replicate (sum_list (map (\<lambda>row. row + 3) [0..<n])) True
                    @ replicate (n + 3) True"
    by (simp only: Suc static_pegRow)
  also have "\<dots> = replicate (sum_list (map (\<lambda>row. row + 3) [0..<Suc n])) True"
    unfolding split by (simp add: replicate_add)
  finally show ?case .
qed

lemma buildWorld_static:
  "map isStatic (bodies (buildWorld s))
   = map isStatic (bodies s) @ replicate (length (staticLabels (rows s))) True"
proof -
  have p: "map isStatic (bodies (createPegs t)) = map isStatic (bodies t) @ replicate (pegCount (rows t)) True" for t
    by (simp add: createPegs_def Let_def static_concat_rows pegCount_def)
  have w: "map isStatic (bodies (createWalls t)) = map isStatic (bodies t) @ replicate 4 True" for t
    by (simp add: createWalls_def Let_def Bodies_rectangle_def numeral_eq_Suc)
  have sl: "map isStatic (bodies (createSlots t))
        = map isStatic (bodies t) @ replicate (rowNum (rows t) + 1) True
          @ replicate (rowNum (rows t) + 2) True" for t
    by (simp add: createSlots_def Let_def Bodies_rectangle_def comp_def map_replicate_const
        del: upt_Suc replicate_Suc)
  have "map isStatic (bodies (buildWorld s))
        = map isStatic (bodies s) @ replicate (pegCount (rows s)) True @ replicate 4 True
          @ replicate (rowNum (rows s) + 1) True @ replicate (rowNum (rows s) + 2) True"
    by (simp add: buildWorld_def Let_def p w sl createPegs_dims createWalls_dims
        del: replicate_Suc replicate.simps)
  also have "\<dots> = map isStatic (bodies s)
                    @ replicate (pegCount (rows s) + 4 + (rowNum (rows s) + 1) + (rowNum (rows s) + 2)) True"
    by (simp only: replicate_add append_assoc)
  finally show ?thesis
    by (simp only: length_staticLabels)
qed

lemma new_static:
  assumes "r < length (bodies (PlinkoEngine_new rect rws now rnd))"
  shows "isStatic (bodies (PlinkoEngine_new rect rws now rnd) ! r)"
proof -
  have "map isStatic (bodies (PlinkoEngine_new rect rws now rnd))
        = replicate (length (staticLabels rws)) True"
    by (simp add: new_eq buildWorld_static calculateDimensions_fields calculateDimensions_radii
        initialFields_def)
  then have "map isStatic (bodies (PlinkoEngine_new rect rws now rnd)) ! r = True"
    using assms by (simp add: new_length)
  then show ?thesis
    using assms by simp
qed


subsection \<open>One chip in flight, held in place\<close>

lemma dropChip_bodies:
  "\<exists>b. bodies (dropChip c now xp m t rnd s) = bodies s @ [b] \<and> label b = ''chip-'' @ c \<and>
       \<not> isStatic b"
  by (simp add: dropChip_def Let_def applyDeterministicNudges_def Bodies_circle_def
      Body_create_def Body_setVelocity_def Body_setAngularVelocity_def split: prod.splits)

lemma dropChip_keeps:
  "runnerRunning (dropChip c now xp m t rnd s) = runnerRunning s"
  "rafPending (dropChip c now xp m t rnd s) = rafPending s"
  "height (dropChip c now xp m t rnd s) = height s"
  "slotHeight (dropChip c now xp m t rnd s) = slotHeight s"
  by (simp_all add: dropChip_def Let_def applyDeterministicNudges_def split: prod.splits)

lemma physicsUpdate_keeps:
  "runnerRunning (physicsUpdate upd s) = runnerRunning s"
  "rafPending (physicsUpdate upd s) = rafPending s"
  "height (physicsUpdate upd s) = height s"
  "slotHeight (physicsUpdate upd s) = slotHeight s"
  by (simp_all add: physicsUpdate_def)

lemma physicsUpdate_single:
  assumes "filter (\<lambda>r. \<not> isStatic (bodies s ! r)) (world s) = [ref]"
  shows "bodies (physicsUpdate upd s)
         = (bodies s)[ref := (bodies s ! ref)\<lparr>position := fst (upd ref),
                                               velocity := fst (snd (upd ref)),
                                               angularVelocity := snd (snd (upd ref)),
                                               force := (0, 0)\<rparr>]"
  by (simp add: physicsUpdate_def assms)

lemma filter_last_only:
  assumes "\<forall>r < length bs. P (bs ! r)" "\<not> P b"
  shows "filter (\<lambda>r. \<not> P ((bs @ [b]) ! r)) ([0..<length bs] @ [length bs]) = [length bs]"
proof -
  have "filter (\<lambda>r. \<not> P ((bs @ [b]) ! r)) [0..<length bs] = []"
    using assms(1) by (simp add: filter_empty_conv nth_append)
  then show ?thesis
    using assms(2) by simp
qed

lemma find_append_None: "find P xs = None \<Longrightarrow> find P (xs @ ys) = find P ys"
  by (induction xs) (simp_all split: if_splits)

lemma find_last_only:
  assumes "\<forall>r < length bs. \<not> P (bs ! r)" "P b"
  shows "find (\<lambda>r. P ((bs @ [b]) ! r)) ([0..<length bs] @ [length bs]) = Some (length bs)"
proof -
  have "find (\<lambda>r. P ((bs @ [b]) ! r)) [0..<length bs] = None"
    using assms(1) by (simp add: find_None_iff nth_append)
  then show ?thesis
    using assms(2) by (simp add: find_append_None)
qed

lemma engine0_labels_not_chip:
  assumes "r < length (bodies engine0)"
  shows "label (bodies engine0 ! r) \<noteq> ''chip-'' @ c"
proof -
  have "map label (bodies engine0) ! r \<in> set (staticLabels R8)"
    using assms unfolding engine0_def by (simp add: new_world new_length)
  then have "\<not> startsWith (label (bodies engine0 ! r)) ''chip-''"
    using assms by (intro staticLabels_no_chip) simp
  then show ?thesis
    using startsWith_append [of "''chip-''" c] by auto
qed

lemma engine0_fields:
  "world engine0 = [0..<length (bodies engine0)]"
  "runnerRunning engine0" "rafPending engine0" "\<not> isDestroyed engine0"
  "height engine0 = 600" "slotHeight engine0 = 72" "width engine0 = 400"
  "boardPadding engine0 = 32" "rows engine0 = R8" "chips engine0 = []" "intervals engine0 = []"
  "callbackLog engine0 = []" "timeouts engine0 = []"
  unfolding engine0_def
  by (simp_all add: new_world new_length new_fields)
     (simp_all add: new_eq buildWorld_dims calculateDimensions_def Let_def initialFields_def)


lemma held_state:
  fixes c now xp m t rnd upd
  defines "s1 \<equiv> dropChip c now xp m t rnd engine0"
    and "L \<equiv> length (bodies engine0)"
  defines "s2 \<equiv> exec (PhysicsUpdate upd) s1"
  shows "label (bodies s2 ! L) = ''chip-'' @ c"
    and "position (bodies s2 ! L) = fst (upd L)"
    and "velocity (bodies s2 ! L) = fst (snd (upd L))"
    and "force (bodies s2 ! L) = (0, 0)"
    and "length (bodies s2) = Suc L"
    and "world s2 = [0..<L] @ [L]"
    and "findChip s2 c = Some L"
    and "chips s2 = chips s1" and "intervals s2 = intervals s1"
    and "callbackLog s2 = callbackLog s1" and "timeouts s2 = timeouts s1"
    and "\<not> isDestroyed s2" and "rafPending s2"
    and "height s2 = 600" and "slotHeight s2 = 72"
proof -
  obtain b where b: "bodies s1 = bodies engine0 @ [b]" "label b = ''chip-'' @ c" "\<not> isStatic b"
    using dropChip_bodies [of c now xp m t rnd engine0] unfolding s1_def by blast
  have w1: "world s1 = [0..<L] @ [L]"
    by (simp add: s1_def dropChip_fields engine0_fields L_def)
  have st: "\<forall>r < length (bodies engine0). isStatic (bodies engine0 ! r)"
    unfolding engine0_def by (simp add: new_static)
  have f: "filter (\<lambda>r. \<not> isStatic (bodies s1 ! r)) (world s1) = [L]"
    unfolding b(1) w1 L_def using st b(3) by (rule filter_last_only)
  have run1: "runnerRunning s1"
    by (simp add: s1_def dropChip_keeps engine0_fields)
  define b' where "b' = b\<lparr>position := fst (upd L), velocity := fst (snd (upd L)),
                          angularVelocity := snd (snd (upd L)), force := (0, 0)\<rparr>"
  have s2: "s2 = physicsUpdate upd s1"
    by (simp add: s2_def run1)
  have b2: "bodies s2 = bodies engine0 @ [b']"
    unfolding s2 physicsUpdate_single [OF f] b(1) b'_def by (simp add: L_def)
  show "label (bodies s2 ! L) = ''chip-'' @ c" "position (bodies s2 ! L) = fst (upd L)"
    "velocity (bodies s2 ! L) = fst (snd (upd L))" "force (bodies s2 ! L) = (0, 0)"
    "length (bodies s2) = Suc L"
    by (simp_all add: b2 L_def b'_def b(2))
  show w2: "world s2 = [0..<L] @ [L]"
    by (simp add: s2 physicsUpdate_fields w1)
  have n: "\<forall>r < length (bodies engine0). \<not> label (bodies engine0 ! r) = ''chip-'' @ c"
    using engine0_labels_not_chip by blast
  have l': "label b' = ''chip-'' @ c"
    by (simp add: b'_def b(2))
  have "find (\<lambda>r. label ((bodies engine0 @ [b']) ! r) = ''chip-'' @ c)
             ([0..<length (bodies engine0)] @ [length (bodies engine0)])
        = Some (length (bodies engine0))"
    by (rule find_last_only [where P = "\<lambda>x. label x = ''chip-'' @ c", OF n l'])
  then show "findChip s2 c = Some L"
    by (simp add: findChip_def w2 b2 L_def)
  show "chips s2 = chips s1" "intervals s2 = intervals s1" "callbackLog s2 = callbackLog s1"
    "timeouts s2 = timeouts s1"
    by (simp_all add: s2 physicsUpdate_fields)
  show "\<not> isDestroyed s2" "rafPending s2" "height s2 = 600" "slotHeight s2 = 72"
    by (simp_all add: s2 physicsUpdate_fields physicsUpdate_keeps s1_def dropChip_fields
        dropChip_keeps engine0_fields)
qed


lemma frame_first_check:
  assumes "chips s = [(c, d)]" "\<not> hasLanded d" "lastPosition d = None"
    "findChip s c = Some chip" "rafPending s" "\<not> isDestroyed s"
  shows "chips (exec (Frame now rnd) s)
         = [(c, d\<lparr>lastPosition := Some (position (bodies s ! chip)), stuckCheckTime := Some now\<rparr>)]"
    and "bodies (exec (Frame now rnd) s) = bodies s"
    and "world (exec (Frame now rnd) s) = world s"
proof -
  define s' where "s' = s\<lparr>rafPending := False\<rparr>"
  have fc: "findChip s' c = Some chip"
    using assms(4) by (simp add: findChip_def s'_def)
  have u: "unstickChip now (rnd c) c s'
           = s'\<lparr>chips := [(c, d\<lparr>lastPosition := Some (position (bodies s ! chip)),
                                  stuckCheckTime := Some now\<rparr>)]\<rparr>"
    using assms(1-3) fc by (simp add: unstickChip_def Let_def) (simp add: s'_def)
  have "checkAndUnstickBalls now rnd s' = unstickChip now (rnd c) c s'"
    using assms(1) by (simp add: checkAndUnstickBalls_def s'_def)
  then have r: "render now rnd s'
        = (s'\<lparr>chips := [(c, d\<lparr>lastPosition := Some (position (bodies s ! chip)),
                                  stuckCheckTime := Some now\<rparr>)]\<rparr>)
            \<lparr>animationFrame := Some (case animationFrame s' of None \<Rightarrow> 1 | Some h \<Rightarrow> h + 1),
             rafPending := True\<rparr>"
    using assms(6) by (simp add: render_def u Let_def) (simp add: s'_def)
  have e: "exec (Frame now rnd) s = render now rnd s'"
    using assms(5) by (simp add: s'_def)
  show "chips (exec (Frame now rnd) s)
         = [(c, d\<lparr>lastPosition := Some (position (bodies s ! chip)), stuckCheckTime := Some now\<rparr>)]"
    "bodies (exec (Frame now rnd) s) = bodies s" "world (exec (Frame now rnd) s) = world s"
    unfolding e r by (simp_all add: s'_def)
qed

lemma slotBranch_first_contact:
  assumes "landedFlag c s = Some False" "slotOf s p \<noteq> None" "chipOf s p = Some chip"
    "label (bodies s ! chip) = ''chip-'' @ c"
  shows "landedFlag c (slotBranch p s) = Some True \<and>
         pendingFor c (slotBranch p s) = pendingFor c s + 1"
proof -
  obtain d where d: "map_of (chips s) c = Some d" "\<not> hasLanded d"
    using assms(1) by (auto simp: landedFlag_def)
  obtain sb where sb: "slotOf s p = Some sb"
    using assms(2) by auto
  have "slotBranch p s
        = s\<lparr>chips := AList.update c (d\<lparr>hasLanded := True\<rparr>) (chips s),
             timeouts := timeouts s @ [(c, parseInt (removeFirst ''slot-'' (label (bodies s ! sb))))]\<rparr>"
    using d sb assms(3,4) by (simp add: slotBranch_def Let_def del: append.simps)
  then show ?thesis
    by (simp add: landedFlag_def pendingFor_def map_of_update)
qed

lemma slotBranch_later_contact:
  assumes "landedFlag c s = Some True" "chipOf s p = Some chip"
    "label (bodies s ! chip) = ''chip-'' @ c"
  shows "slotBranch p s = s"
proof -
  obtain d where d: "map_of (chips s) c = Some d" "hasLanded d"
    using assms(1) by (auto simp: landedFlag_def)
  show ?thesis
    using d assms(2,3)
    by (cases "slotOf s p") (simp_all add: slotBranch_def Let_def del: append.simps)
qed

text \<open>
  Claim C1. In every run of an engine, whatever the events and however often a chip's
  body meets a slot sensor, the landing callback is called for a chip id at most as
  often as a chip was dropped with that id; chip ids being distinct, at most once. The
  mechanism: the sensor contact of a registered chip that has not landed sets
  \<^verbatim>\<open>hasLanded\<close> and schedules one landing; a sensor contact of a chip that has landed
  changes nothing.
\<close>

theorem landing_at_most_once:
  "landings c (run es (PlinkoEngine_new rect rws now rnd)) \<le> count_list (dropIds es) c \<and>
   (distinct (dropIds es) \<longrightarrow> landings c (run es (PlinkoEngine_new rect rws now rnd)) \<le> 1) \<and>
   (landedFlag c s = Some False \<and> slotOf s p \<noteq> None \<and> chipOf s p = Some chip \<and>
    label (bodies s ! chip) = ''chip-'' @ c \<longrightarrow>
      landedFlag c (slotBranch p s) = Some True \<and>
      pendingFor c (slotBranch p s) = pendingFor c s + 1) \<and>
   (landedFlag c s = Some True \<and> chipOf s p = Some chip \<and>
    label (bodies s ! chip) = ''chip-'' @ c \<longrightarrow> slotBranch p s = s)"
proof -
  define s0 where "s0 = PlinkoEngine_new rect rws now rnd"
  have "landingBudget c (run es s0)"
    unfolding s0_def by (intro landingBudget_run landingBudget_new)
  then have "landings c (run es s0) \<le> creations c (run es s0)"
    by (simp add: landingBudget_def)
  also have "\<dots> = count_list (dropIds es) c"
    by (simp add: creations_run) (simp add: creations_def s0_def new_fields)
  finally have a: "landings c (run es s0) \<le> count_list (dropIds es) c" .
  have b: "landings c (run es s0) \<le> 1" if "distinct (dropIds es)"
    using a count_list_distinct [OF that, of c] by simp
  show ?thesis
    using a b slotBranch_first_contact [of c s p chip] slotBranch_later_contact [of c s p chip]
    unfolding s0_def by blast
qed

theorem landing_at_most_once_witness:
  "distinct (dropIds [drop1, CollisionStart [slotPair 3], CollisionStart [slotPair 3],
                      LandingTimeout 0]) \<and>
   landings ''c1'' (run [drop1, CollisionStart [slotPair 3], CollisionStart [slotPair 3],
                        LandingTimeout 0] (PlinkoEngine_new (400, 600) R8 0 noRandom)) \<le> 1 \<and>
   landedFlag ''c1'' (exec drop1 engine0) = Some False \<and>
   landedFlag ''c1'' (slotBranch (slotPair 3) (exec drop1 engine0)) = Some True \<and>
   landedFlag ''c1'' (exec (CollisionStart [slotPair 3]) (exec drop1 engine0)) = Some True \<and>
   slotBranch (slotPair 3) (exec (CollisionStart [slotPair 3]) (exec drop1 engine0))
     = exec (CollisionStart [slotPair 3]) (exec drop1 engine0) \<and>
   callbackLog (run [drop1, CollisionStart [slotPair 3], CollisionStart [slotPair 3],
                     LandingTimeout 0] engine0)
     = [ChipCreated ''c1'', SlotLanded ''c1'' (Some 3)]"
proof -
  define s1 where "s1 = exec drop1 engine0"
  define s2 where "s2 = exec (CollisionStart [slotPair 3]) s1"
  have d: "distinct (dropIds [drop1, CollisionStart [slotPair 3], CollisionStart [slotPair 3],
                      LandingTimeout 0])"
    by (simp add: drop1_def)
  have f1: "landedFlag ''c1'' s1 = Some False"
    by (simp add: s1_def landedFlag_def after_drop1)
  have so1: "slotOf s1 (slotPair 3) \<noteq> None" and co1: "chipOf s1 (slotPair 3) = Some (bodyB (slotPair 3))"
    and lab1: "label (bodies s1 ! bodyB (slotPair 3)) = ''chip-'' @ ''c1''"
    by (simp_all add: s1_def slotOf_def chipOf_def after_drop1 del: append.simps)
  have s2eq: "s2 = s1\<lparr>chips := [(''c1'', \<lparr>id_chip = ''c1'', targetSlot = None, hasLanded = True,
                             createdAt = 0, lastPosition = None, stuckCheckTime = None\<rparr>)],
                      timeouts := [(''c1'', Some 3)]\<rparr>"
    unfolding s2_def s1_def by (rule after_contact)
  have f2: "landedFlag ''c1'' s2 = Some True"
    by (simp add: s2eq landedFlag_def)
  have b2: "bodies s2 = bodies s1"
    by (simp add: s2eq)
  have co2: "chipOf s2 (slotPair 3) = Some (bodyB (slotPair 3))"
    using co1 by (simp only: chipOf_def b2)
  have lab2: "label (bodies s2 ! bodyB (slotPair 3)) = ''chip-'' @ ''c1''"
    using lab1 by (simp only: b2)
  have "handlePair (slotPair 3) s2 = s2"
  proof (rule handlePair_ignored)
    show "label (bodies s2 ! bodyA (slotPair 3)) = ''slot-'' @ showNat 3"
      unfolding b2 s1_def by (rule after_drop1)
    show "label (bodies s2 ! bodyB (slotPair 3)) = ''chip-'' @ ''c1''"
      by (rule lab2)
    show "map_of (chips s2) ''c1'' = Some \<lparr>id_chip = ''c1'', targetSlot = None, hasLanded = True,
                             createdAt = 0, lastPosition = None, stuckCheckTime = None\<rparr>"
      by (simp add: s2eq)
    show "hasLanded \<lparr>id_chip = ''c1'', targetSlot = None, hasLanded = True,
                             createdAt = 0, lastPosition = None, stuckCheckTime = None\<rparr>"
      by simp
  qed
  then have s3: "exec (CollisionStart [slotPair 3]) s2 = s2"
    by (simp add: collisionStart_def)
  have "callbackLog (landingTimeout 0 s2) = [ChipCreated ''c1'', SlotLanded ''c1'' (Some 3)]"
    by (simp add: landingTimeout_def s2eq removeChip_fields) (simp add: s1_def after_drop1)
  then have lg: "callbackLog (run [drop1, CollisionStart [slotPair 3], CollisionStart [slotPair 3],
                     LandingTimeout 0] engine0)
                 = [ChipCreated ''c1'', SlotLanded ''c1'' (Some 3)]"
    unfolding run_Cons run_Nil s1_def [symmetric] s2_def [symmetric] s3 by simp
  show ?thesis
    using d f1 so1 co1 lab1 f2 co2 lab2 lg
      landing_at_most_once [of "''c1''" "[drop1, CollisionStart [slotPair 3],
          CollisionStart [slotPair 3], LandingTimeout 0]" "(400, 600)" R8 0 noRandom s1
          "slotPair 3" "bodyB (slotPair 3)"]
      landing_at_most_once [of "''c1''" "[]" "(400, 600)" R8 0 noRandom s2
          "slotPair 3" "bodyB (slotPair 3)"]
    unfolding s1_def [symmetric] s2_def [symmetric] by blast
qed

text \<open>
  Claim C2 fails on the code. The peg branch of the collision handler never looks at the
  registry: chip \<^verbatim>\<open>c1\<close> has landed (its flag is set by the sensor contact and the landing
  is pending), its body then meets a peg, and \<^verbatim>\<open>onPegHit\<close> is called with its id.
\<close>

theorem peg_hit_after_landing:
  "landedFlag ''c1'' (run [drop1, CollisionStart [slotPair 3]] engine0) = Some True \<and>
   callbackLog (run [drop1, CollisionStart [slotPair 3]] engine0) = [ChipCreated ''c1''] \<and>
   callbackLog (run [drop1, CollisionStart [slotPair 3], CollisionStart [pegPair]] engine0)
     = [ChipCreated ''c1'', PegHit ''c1'']"
proof -
  define s1 where "s1 = exec drop1 engine0"
  define s2 where "s2 = exec (CollisionStart [slotPair 3]) s1"
  have s2eq: "s2 = s1\<lparr>chips := [(''c1'', \<lparr>id_chip = ''c1'', targetSlot = None, hasLanded = True,
                             createdAt = 0, lastPosition = None, stuckCheckTime = None\<rparr>)],
                      timeouts := [(''c1'', Some 3)]\<rparr>"
    unfolding s2_def s1_def by (rule after_contact)
  have f2: "landedFlag ''c1'' s2 = Some True" and l2: "callbackLog s2 = [ChipCreated ''c1'']"
    by (simp_all add: s2eq landedFlag_def) (simp add: s1_def after_drop1)
  have b2: "bodies s2 = bodies s1"
    by (simp add: s2eq)
  have "callbackLog (handlePair pegPair s2) = callbackLog s2 @ [PegHit ''c1'']"
    by (rule handlePair_peg_hit) (simp_all only: b2 s1_def after_drop1)
  then have l3: "callbackLog (exec (CollisionStart [pegPair]) s2) = [ChipCreated ''c1'', PegHit ''c1'']"
    by (simp add: collisionStart_def l2)
  show ?thesis
    using f2 l2 l3 by (simp only: run_Cons run_Nil s1_def s2_def simp_thms)
qed

text \<open>
  Claim C3 fails on the code. Chip \<^verbatim>\<open>c1\<close> meets a slot sensor, the engine is destroyed
  before the landing timeout fires, and the timeout then calls \<^verbatim>\<open>onSlotLanded\<close>: the
  timeout callback does not look at \<^verbatim>\<open>isDestroyed\<close>, and \<^verbatim>\<open>destroy\<close> leaves the timeouts
  pending.
\<close>

theorem landing_after_destroy:
  "isDestroyed (run [drop1, CollisionStart [slotPair 3], Destroy] engine0) \<and>
   callbackLog (run [drop1, CollisionStart [slotPair 3], Destroy] engine0) = [ChipCreated ''c1''] \<and>
   callbackLog (run [drop1, CollisionStart [slotPair 3], Destroy, LandingTimeout 0] engine0)
     = [ChipCreated ''c1'', SlotLanded ''c1'' (Some 3)]"
proof -
  define s1 where "s1 = exec drop1 engine0"
  define s2 where "s2 = exec (CollisionStart [slotPair 3]) s1"
  define s3 where "s3 = exec Destroy s2"
  have s2eq: "s2 = s1\<lparr>chips := [(''c1'', \<lparr>id_chip = ''c1'', targetSlot = None, hasLanded = True,
                             createdAt = 0, lastPosition = None, stuckCheckTime = None\<rparr>)],
                      timeouts := [(''c1'', Some 3)]\<rparr>"
    unfolding s2_def s1_def by (rule after_contact)
  have l2: "callbackLog s2 = [ChipCreated ''c1'']" and t2: "timeouts s2 = [(''c1'', Some 3)]"
    by (simp_all add: s2eq) (simp add: s1_def after_drop1)
  have d3: "isDestroyed s3" and l3: "callbackLog s3 = [ChipCreated ''c1'']"
    and t3: "timeouts s3 = [(''c1'', Some 3)]"
    by (simp_all add: s3_def destroy_fields l2 t2)
  have l4: "callbackLog (exec (LandingTimeout 0) s3) = [ChipCreated ''c1'', SlotLanded ''c1'' (Some 3)]"
    by (simp add: landingTimeout_def t3 l3 removeChip_fields)
  show ?thesis
    using d3 l3 l4 by (simp only: run_Cons run_Nil s1_def s2_def s3_def simp_thms)
qed


lemma buildWorld_sensor_in_world:
  assumes "i < rowNum (rows s) + 1"
  shows "slotSensors (buildWorld s) ! i \<in> set (world (buildWorld s))"
proof -
  have "slotSensors (buildWorld s) ! i = length (bodies s) + pegCount (rows s) + 4 + i"
    using assms by (simp add: buildWorld_refs del: upt_Suc)
  then show ?thesis
    using assms by (simp add: buildWorld_world length_staticLabels)
qed

lemma rebuild_no_chip_labels:
  "list_all (\<lambda>l. \<not> startsWith l ''chip-'') (worldLabels (buildWorld s))"
  by (simp add: list_all_iff buildWorld_worldLabels staticLabels_no_chip)

lemma reachable_not_landed:
  assumes "distinct (dropIds es0)"
    "landedFlag c (run es0 (PlinkoEngine_new rect0 rws0 now rnd)) = Some False"
  shows "pendingFor c (run es0 (PlinkoEngine_new rect0 rws0 now rnd)) = 0"
    and "landings c (run es0 (PlinkoEngine_new rect0 rws0 now rnd)) = 0"
proof -
  define s where "s = run es0 (PlinkoEngine_new rect0 rws0 now rnd)"
  have "landingBudget c s"
    unfolding s_def by (intro landingBudget_run landingBudget_new)
  moreover have "creations c s = count_list (dropIds es0) c"
    unfolding s_def by (simp add: creations_run) (simp add: creations_def new_fields)
  moreover have "count_list (dropIds es0) c \<le> 1"
    using assms(1) by (rule count_list_distinct)
  moreover have "live c s = 1"
    using assms(2) by (simp add: live_def s_def)
  ultimately have "landings c s + pendingFor c s = 0"
    by (simp add: landingBudget_def)
  then show "pendingFor c (run es0 (PlinkoEngine_new rect0 rws0 now rnd)) = 0"
    and "landings c (run es0 (PlinkoEngine_new rect0 rws0 now rnd)) = 0"
    by (simp_all add: s_def)
qed

text \<open>
  Claim C10, as amended. \<^verbatim>\<open>resize\<close> and \<^verbatim>\<open>setRows\<close> leave the chip registry as it is, so
  \<^verbatim>\<open>getActiveChipCount\<close> returns the same count, and the rebuilt world holds no chip body.
  A chip that was registered and had not landed when the world was rebuilt (in an engine
  reached from its construction with distinct chip ids) keeps its registry entry and
  never gets a landing callback, in every later run in which the library reports
  collisions only between bodies of the world, the chip's id is not used again, and the
  engine is not destroyed.
\<close>

theorem rebuild_strands_chips:
  "chips (resize rect s) = chips s \<and> chips (setRows rws rect s) = chips s \<and>
   getActiveChipCount (resize rect s) = getActiveChipCount s \<and>
   getActiveChipCount (setRows rws rect s) = getActiveChipCount s \<and>
   list_all (\<lambda>l. \<not> startsWith l ''chip-'') (worldLabels (resize rect s)) \<and>
   list_all (\<lambda>l. \<not> startsWith l ''chip-'') (worldLabels (setRows rws rect s)) \<and>
   (s = run es0 (PlinkoEngine_new rect0 rws0 now rnd) \<and> distinct (dropIds es0) \<and>
    landedFlag c s = Some False \<and> (s1 = resize rect s \<or> s1 = setRows rws rect s) \<and>
    admissible es s1 \<and> Destroy \<notin> set es \<and> c \<notin> set (dropIds es) \<longrightarrow>
      landedFlag c (run es s1) = Some False \<and> landings c (run es s1) = 0)"
proof -
  have a: "chips (resize rect s) = chips s" "chips (setRows rws rect s) = chips s"
    "getActiveChipCount (resize rect s) = getActiveChipCount s"
    "getActiveChipCount (setRows rws rect s) = getActiveChipCount s"
    by (simp_all add: getActiveChipCount_def resize_fields setRows_fields)
  have b: "list_all (\<lambda>l. \<not> startsWith l ''chip-'') (worldLabels (resize rect s))"
    "list_all (\<lambda>l. \<not> startsWith l ''chip-'') (worldLabels (setRows rws rect s))"
    unfolding resize_def setRows_def by (rule rebuild_no_chip_labels)+
  have c: "landedFlag c (run es s1) = Some False \<and> landings c (run es s1) = 0"
    if reach: "s = run es0 (PlinkoEngine_new rect0 rws0 now rnd)" and ids: "distinct (dropIds es0)"
      and flag: "landedFlag c s = Some False"
      and s1: "s1 = resize rect s \<or> s1 = setRows rws rect s"
      and adm: "admissible es s1" and nd: "Destroy \<notin> set es" and fresh: "c \<notin> set (dropIds es)"
  proof -
    have p0: "pendingFor c s = 0" and l0: "landings c s = 0"
      using reachable_not_landed [OF ids, of c rect0 rws0 now rnd] flag
      unfolding reach by simp_all
    have "stranded c s1"
    proof -
      have r: "stranded c (resize rect s)"
        unfolding resize_def using flag p0 l0 by (rule stranded_rebuild)
      have "landedFlag c (s\<lparr>rows := rws\<rparr>) = Some False" "pendingFor c (s\<lparr>rows := rws\<rparr>) = 0"
        "landings c (s\<lparr>rows := rws\<rparr>) = 0"
        using flag p0 l0 by (simp_all add: landedFlag_def pendingFor_def landings_def)
      then have "stranded c (setRows rws rect s)"
        unfolding setRows_def by (rule stranded_rebuild)
      then show ?thesis
        using r s1 by blast
    qed
    then have "stranded c (run es s1)"
      using adm nd fresh by (rule stranded_run)
    then show ?thesis
      by (simp add: stranded_def)
  qed
  show ?thesis
    using a b c by blast
qed

theorem rebuild_strands_chips_witness:
  "run [drop1] engine0 = run [drop1] (PlinkoEngine_new (400, 600) R8 0 noRandom) \<and>
   distinct (dropIds [drop1]) \<and> landedFlag ''c1'' (run [drop1] engine0) = Some False \<and>
   rebuilt = resize (300, 500) (run [drop1] engine0) \<and>
   admissible [drop2, CollisionStart [slotPair2]] rebuilt \<and>
   Destroy \<notin> set [drop2, CollisionStart [slotPair2]] \<and>
   ''c1'' \<notin> set (dropIds [drop2, CollisionStart [slotPair2]]) \<and>
   landedFlag ''c1'' (run [drop2, CollisionStart [slotPair2]] rebuilt) = Some False \<and>
   landings ''c1'' (run [drop2, CollisionStart [slotPair2]] rebuilt) = 0 \<and>
   list_all (\<lambda>l. \<not> startsWith l ''chip-'') (worldLabels rebuilt)"
proof -
  have h1: "run [drop1] engine0 = run [drop1] (PlinkoEngine_new (400, 600) R8 0 noRandom)"
    by (simp add: engine0_def)
  have h2: "distinct (dropIds [drop1])"
    by (simp add: drop1_def)
  have h3: "landedFlag ''c1'' (run [drop1] engine0) = Some False"
    by (simp add: run_Cons run_Nil landedFlag_def after_drop1)
  have h4: "rebuilt = resize (300, 500) (run [drop1] engine0)"
    by (simp add: rebuilt_def)
  have rw: "rows (calculateDimensions (300, 500) (run [drop1] engine0)) = R8"
    by (simp add: calculateDimensions_radii run_Cons run_Nil drop1_def dropChip_def Let_def
        applyDeterministicNudges_def engine0_def new_world split: prod.splits)
  have "(3::nat) < rowNum (rows (calculateDimensions (300, 500) (run [drop1] engine0))) + 1"
    by (simp add: rw)
  then have "slotSensors rebuilt ! 3 \<in> set (world rebuilt)"
    unfolding rebuilt_def resize_def by (rule buildWorld_sensor_in_world)
  then have h5: "admissible [drop2, CollisionStart [slotPair2]] rebuilt"
    by (simp add: drop2_def pairInWorld_def slotPair2_def dropChip_fields)
  have h6: "Destroy \<notin> set [drop2, CollisionStart [slotPair2]]"
    by (simp add: drop2_def)
  have h7: "''c1'' \<notin> set (dropIds [drop2, CollisionStart [slotPair2]])"
    by (simp add: drop2_def)
  show ?thesis
    using h1 h2 h3 h4 h5 h6 h7
      rebuild_strands_chips [of "(300, 500)" "run [drop1] engine0" R8 "[drop1]" "(400, 600)" R8 0
        noRandom "''c1''" rebuilt "[drop2, CollisionStart [slotPair2]]"]
    by (simp add: rebuilt_def)
qed

text \<open>
  The claim as stated fails in two ways: \<^verbatim>\<open>destroy\<close> deletes the entries of the discarded
  chips with the whole registry; and a chip that had met a sensor before the rebuild has
  its landing pending, which fires after the rebuild, calls the landing callback and
  deletes the entry.
\<close>

theorem discarded_entries_deleted:
  "landedFlag ''c1'' (run [drop1, Resize (400, 600)] engine0) = Some False \<and>
   getActiveChipCount (run [drop1, Resize (400, 600)] engine0) = 1 \<and>
   landedFlag ''c1'' (run [drop1, Resize (400, 600), Destroy] engine0) = None \<and>
   getActiveChipCount (run [drop1, Resize (400, 600), Destroy] engine0) = 0 \<and>
   callbackLog (run [drop1, CollisionStart [slotPair 3], Resize (400, 600), LandingTimeout 0] engine0)
     = [ChipCreated ''c1'', SlotLanded ''c1'' (Some 3)] \<and>
   landedFlag ''c1'' (run [drop1, CollisionStart [slotPair 3], Resize (400, 600), LandingTimeout 0]
                        engine0) = None"
proof -
  define s2 where "s2 = exec (CollisionStart [slotPair 3]) (exec drop1 engine0)"
  define s3 where "s3 = resize (400, 600) s2"
  have s2eq: "s2 = (exec drop1 engine0)
       \<lparr>chips := [(''c1'', \<lparr>id_chip = ''c1'', targetSlot = None, hasLanded = True, createdAt = 0,
                             lastPosition = None, stuckCheckTime = None\<rparr>)],
        timeouts := [(''c1'', Some 3)]\<rparr>"
    unfolding s2_def by (rule after_contact)
  have t3: "timeouts s3 = [(''c1'', Some 3)]" and l3: "callbackLog s3 = [ChipCreated ''c1'']"
    by (simp_all add: s3_def resize_fields s2eq after_drop1)
  have a: "callbackLog (landingTimeout 0 s3) = [ChipCreated ''c1'', SlotLanded ''c1'' (Some 3)]"
    "landedFlag ''c1'' (landingTimeout 0 s3) = None"
    by (simp_all add: landingTimeout_def t3 l3 removeChip_fields landedFlag_def map_of_delete)
  have b: "landedFlag ''c1'' (run [drop1, Resize (400, 600)] engine0) = Some False"
    "getActiveChipCount (run [drop1, Resize (400, 600)] engine0) = 1"
    "landedFlag ''c1'' (run [drop1, Resize (400, 600), Destroy] engine0) = None"
    "getActiveChipCount (run [drop1, Resize (400, 600), Destroy] engine0) = 0"
    by (simp_all add: run_Cons run_Nil landedFlag_def getActiveChipCount_def resize_fields
        destroy_fields after_drop1)
  show ?thesis
    using a b by (simp add: run_Cons run_Nil s3_def s2_def)
qed

lemma pegRadius_pos: "0 < pegRadius (calculateDimensions rect s)"
  by (simp add: calculateDimensions_radii)

text \<open>
  Claim C9, as amended. In the root copy of the engine the chip radius is nine tenths of
  the peg radius, which is at least 3, so it is strictly smaller for every row count and
  every container rectangle; the relation holds after construction, \<^verbatim>\<open>resize\<close> and
  \<^verbatim>\<open>setRows\<close>. In plinko/src/lib/plinkoEngine.ts the chip radius is one and a half times
  the peg radius, strictly larger.
\<close>

theorem chip_smaller_than_peg:
  "chipRadius (calculateDimensions rect s) = pegRadius (calculateDimensions rect s) * (9 / 10) \<and>
   chipRadius (calculateDimensions rect s) < pegRadius (calculateDimensions rect s) \<and>
   chipRadius (PlinkoEngine_new rect rws now rnd) < pegRadius (PlinkoEngine_new rect rws now rnd) \<and>
   chipRadius (resize rect s) < pegRadius (resize rect s) \<and>
   chipRadius (setRows rws rect s) < pegRadius (setRows rws rect s) \<and>
   chipRadius (calculateDimensions_plinko rect s)
     = pegRadius (calculateDimensions_plinko rect s) * (15 / 10) \<and>
   pegRadius (calculateDimensions_plinko rect s) < chipRadius (calculateDimensions_plinko rect s)"
proof -
  have lt: "chipRadius (calculateDimensions r t) < pegRadius (calculateDimensions r t)" for r t
    using pegRadius_pos [of r t] by (simp add: calculateDimensions_radii)
  have n: "chipRadius (PlinkoEngine_new rect rws now rnd) < pegRadius (PlinkoEngine_new rect rws now rnd)"
    using lt [of rect "initialFields rws"]
    by (simp add: new_eq buildWorld_dims calculateDimensions_def Let_def)
  have r: "chipRadius (resize rect s) < pegRadius (resize rect s)"
    using lt [of rect s] by (simp add: resize_def buildWorld_dims)
  have sr: "chipRadius (setRows rws rect s) < pegRadius (setRows rws rect s)"
    using lt [of rect "s\<lparr>rows := rws\<rparr>"] by (simp add: setRows_def buildWorld_dims)
  have p: "chipRadius (calculateDimensions_plinko rect s)
           = pegRadius (calculateDimensions_plinko rect s) * (15 / 10)"
    "0 < pegRadius (calculateDimensions_plinko rect s)"
    by (simp_all add: calculateDimensions_plinko_def Let_def)
  then have p2: "pegRadius (calculateDimensions_plinko rect s)
                 < chipRadius (calculateDimensions_plinko rect s)"
    by simp
  show ?thesis
    using lt [of rect s] n r sr p(1) p2 by (simp add: calculateDimensions_radii)
qed

text \<open>
  The claim as stated fails on plinko/src/lib/plinkoEngine.ts: on a 400 by 600 container
  with 8 rows the peg radius is 12.5 and the chip radius 18.75.
\<close>

theorem chip_larger_than_peg_plinko:
  "pegRadius (calculateDimensions_plinko (400, 600) (initialFields R8)) = 25 / 2 \<and>
   chipRadius (calculateDimensions_plinko (400, 600) (initialFields R8)) = 75 / 4 \<and>
   \<not> chipRadius (calculateDimensions_plinko (400, 600) (initialFields R8))
       < pegRadius (calculateDimensions_plinko (400, 600) (initialFields R8))"
  by (simp add: calculateDimensions_plinko_def Let_def initialFields_def)

lemma new_dims:
  "rows (PlinkoEngine_new rect rws now rnd) = rws"
  "width (PlinkoEngine_new rect rws now rnd) = fst rect"
  "height (PlinkoEngine_new rect rws now rnd) = snd rect"
  "pegRadius (PlinkoEngine_new rect rws now rnd)
   = max 3 (min (fst rect) (snd rect) / (real (rowNum rws) * 4))"
  "pegSpacingX (PlinkoEngine_new rect rws now rnd)
   = (fst rect - fst rect * (8 / 100) * 2) / (real (rowNum rws) + 1)"
  "pegSpacingY (PlinkoEngine_new rect rws now rnd)
   = (snd rect * (75 / 100)) / (real (rowNum rws) + 1)"
  "runnerRunning (PlinkoEngine_new rect rws now rnd)"
  by (simp_all add: new_eq buildWorld_dims)
     (simp_all add: calculateDimensions_def Let_def initialFields_def)

text \<open>
  Claim C4, as amended. The constructor and \<^verbatim>\<open>setRows\<close> contain no check and no
  \<^verbatim>\<open>throw\<close>: for every container rectangle, also one of width or height zero or negative,
  they return a running engine with these dimensions and a fully built world. An invalid
  row count is excluded by the type \<^verbatim>\<open>RowCount\<close> alone.
\<close>

theorem construction_never_rejects:
  "rows (PlinkoEngine_new rect rws now rnd) = rws \<and>
   width (PlinkoEngine_new rect rws now rnd) = fst rect \<and>
   height (PlinkoEngine_new rect rws now rnd) = snd rect \<and>
   pegRadius (PlinkoEngine_new rect rws now rnd)
     = max 3 (min (fst rect) (snd rect) / (real (rowNum rws) * 4)) \<and>
   runnerRunning (PlinkoEngine_new rect rws now rnd) \<and>
   \<not> isDestroyed (PlinkoEngine_new rect rws now rnd) \<and>
   worldLabels (PlinkoEngine_new rect rws now rnd) = staticLabels rws \<and>
   rows (setRows rws rect s) = rws \<and>
   width (setRows rws rect s) = fst rect \<and>
   height (setRows rws rect s) = snd rect \<and>
   pegRadius (setRows rws rect s) = max 3 (min (fst rect) (snd rect) / (real (rowNum rws) * 4)) \<and>
   isDestroyed (setRows rws rect s) = isDestroyed s \<and>
   worldLabels (setRows rws rect s) = staticLabels rws"
proof -
  have wl: "worldLabels (PlinkoEngine_new rect rws now rnd) = staticLabels rws"
    using worldLabels_nth [OF new_worldValid, of rect rws now rnd]
      map_nth [of "staticLabels rws"]
    by (simp add: new_world)
  have sr: "rows (setRows rws rect s) = rws" "width (setRows rws rect s) = fst rect"
    "height (setRows rws rect s) = snd rect"
    "pegRadius (setRows rws rect s) = max 3 (min (fst rect) (snd rect) / (real (rowNum rws) * 4))"
    "worldLabels (setRows rws rect s) = staticLabels rws"
    by (simp_all add: setRows_def buildWorld_dims buildWorld_worldLabels calculateDimensions_radii)
  show ?thesis
    using wl sr by (simp add: new_dims new_fields setRows_fields)
qed

text \<open>
  The claim as stated fails: a container of width and height 0 yields a running engine
  whose pegs all lie at spacing 0, and \<^verbatim>\<open>setRows\<close> with a container of height -5 yields a
  board of negative height.
\<close>

theorem degenerate_board_accepted:
  "width (PlinkoEngine_new (0, 0) R8 0 noRandom) = 0 \<and>
   height (PlinkoEngine_new (0, 0) R8 0 noRandom) = 0 \<and>
   pegRadius (PlinkoEngine_new (0, 0) R8 0 noRandom) = 3 \<and>
   pegSpacingX (PlinkoEngine_new (0, 0) R8 0 noRandom) = 0 \<and>
   pegSpacingY (PlinkoEngine_new (0, 0) R8 0 noRandom) = 0 \<and>
   runnerRunning (PlinkoEngine_new (0, 0) R8 0 noRandom) \<and>
   worldLabels (PlinkoEngine_new (0, 0) R8 0 noRandom) = staticLabels R8 \<and>
   height (setRows R16 (300, - 5) engine0) = - 5 \<and>
   pegSpacingY (setRows R16 (300, - 5) engine0) = - 15 / 68 \<and>
   worldLabels (setRows R16 (300, - 5) engine0) = staticLabels R16"
proof -
  have wl: "worldLabels (PlinkoEngine_new (0, 0) R8 0 noRandom) = staticLabels R8"
    using worldLabels_nth [OF new_worldValid, of "(0, 0)" R8 0 noRandom]
      map_nth [of "staticLabels R8"]
    by (simp add: new_world)
  have sr: "height (setRows R16 (300, - 5) engine0) = - 5"
    "pegSpacingY (setRows R16 (300, - 5) engine0) = - 15 / 68"
    "worldLabels (setRows R16 (300, - 5) engine0) = staticLabels R16"
    by (simp_all add: setRows_def buildWorld_dims buildWorld_worldLabels calculateDimensions_radii)
       (simp add: calculateDimensions_def Let_def)
  show ?thesis
    using wl sr by (simp add: new_dims)
qed

lemma abs_le_speed: "\<bar>snd v\<bar> \<le> speedOf v"
proof -
  have "sqrt (snd v * snd v) \<le> sqrt (fst v * fst v + snd v * snd v)"
    by (rule real_sqrt_le_mono) simp
  then show ?thesis
    by (simp add: speedOf_def)
qed

lemma unstickNudge_velocity:
  assumes "chip < length (bodies s)"
  shows "velocity (bodies (unstickNudge chip (rAngle, rBoostX, rBoostY) s) ! chip)
         = (fst (velocity (bodies s ! chip)) + (rBoostX - 1 / 2) * (3 / 10),
            snd (velocity (bodies s ! chip)) + 1 / 2 + rBoostY * (1 / 2))"
  using assms
  by (simp add: unstickNudge_def Let_def Body_setVelocity_def Body_applyForce_def)

lemma unstickChip_intervenes:
  assumes "map_of (chips s) c = Some d" "\<not> hasLanded d" "findChip s c = Some chip"
    "lastPosition d = Some lastPos" "distance2 (position (bodies s ! chip)) lastPos < 15 / 10"
    "stuckCheckTime d = Some t" "t \<noteq> 0" "now - t > 500"
    "speedOf (velocity (bodies s ! chip)) < 2 / 10"
  shows "bodies (unstickChip now rnd c s) = bodies (unstickNudge chip rnd s)"
  using assms by (simp add: unstickChip_def Let_def)

text \<open>
  Claim C8. When the recovery pass finds a registered chip that has not landed, whose body
  is in the world, which moved less than 1.5 pixels since the last check, whose stuck
  timer was set more than 500 ms ago, and whose speed is below 0.2, then the velocity it
  sets has the old vertical component plus a boost between 0.5 and 1 (\<^verbatim>\<open>Math.random()\<close>
  lies in [0, 1)), and the new vertical component is strictly positive, that is, downward.
\<close>

theorem unstick_pushes_down:
  assumes "map_of (chips s) c = Some d" and "\<not> hasLanded d"
    and "findChip s c = Some chip" and "chip < length (bodies s)"
    and "lastPosition d = Some lastPos"
    and "distance2 (position (bodies s ! chip)) lastPos < 15 / 10"
    and "stuckCheckTime d = Some t" and "t \<noteq> 0" and "now - t > 500"
    and "speedOf (velocity (bodies s ! chip)) < 2 / 10"
    and "0 \<le> rBoostY" and "rBoostY < 1"
  shows "snd (velocity (bodies (unstickChip now (rAngle, rBoostX, rBoostY) c s) ! chip))
           = snd (velocity (bodies s ! chip)) + (1 / 2 + rBoostY * (1 / 2)) \<and>
         1 / 2 \<le> 1 / 2 + rBoostY * (1 / 2) \<and> 1 / 2 + rBoostY * (1 / 2) \<le> 1 \<and>
         0 < snd (velocity (bodies (unstickChip now (rAngle, rBoostX, rBoostY) c s) ! chip))"
proof -
  have b: "bodies (unstickChip now (rAngle, rBoostX, rBoostY) c s)
           = bodies (unstickNudge chip (rAngle, rBoostX, rBoostY) s)"
    using assms(1-3,5-10) by (rule unstickChip_intervenes)
  have v: "snd (velocity (bodies (unstickChip now (rAngle, rBoostX, rBoostY) c s) ! chip))
           = snd (velocity (bodies s ! chip)) + (1 / 2 + rBoostY * (1 / 2))"
    unfolding b unstickNudge_velocity [OF assms(4)] by simp
  have "\<bar>snd (velocity (bodies s ! chip))\<bar> < 2 / 10"
    using abs_le_speed [of "velocity (bodies s ! chip)"] assms(10) by linarith
  then have "0 < snd (velocity (bodies s ! chip)) + (1 / 2 + rBoostY * (1 / 2))"
    using assms(11) by (simp add: abs_less_iff)
  then show ?thesis
    using v assms(11,12) by simp
qed

text \<open>
  The conditions are met in a run: chip \<^verbatim>\<open>c1\<close> is dropped, held at rest at (200, 300), and
  seen there by the recovery pass at time 1000; the pass at time 2000 then sets the
  vertical velocity 0.75.
\<close>

theorem unstick_pushes_down_witness:
  "landedFlag ''c1'' (run [drop1, PhysicsUpdate placeMid, Frame 1000 noRandom] engine0) = Some False \<and>
   findChip (run [drop1, PhysicsUpdate placeMid, Frame 1000 noRandom] engine0) ''c1''
     = Some (length (bodies engine0)) \<and>
   velocity (bodies (run [drop1, PhysicsUpdate placeMid, Frame 1000 noRandom] engine0)
             ! length (bodies engine0)) = (0, 0) \<and>
   snd (velocity (bodies (unstickChip 2000 (0, 1 / 2, 1 / 2) ''c1''
                            (run [drop1, PhysicsUpdate placeMid, Frame 1000 noRandom] engine0))
                  ! length (bodies engine0))) = 3 / 4 \<and>
   0 < snd (velocity (bodies (unstickChip 2000 (0, 1 / 2, 1 / 2) ''c1''
                            (run [drop1, PhysicsUpdate placeMid, Frame 1000 noRandom] engine0))
                  ! length (bodies engine0)))"
proof -
  define L where "L = length (bodies engine0)"
  define s1 where "s1 = dropChip ''c1'' 0 None Physics None dropRandom0 engine0"
  define s2 where "s2 = exec (PhysicsUpdate placeMid) s1"
  define s3 where "s3 = exec (Frame 1000 noRandom) s2"
  define d0 where "d0 = \<lparr>id_chip = ''c1'', targetSlot = None, hasLanded = False, createdAt = 0,
                         lastPosition = None, stuckCheckTime = None :: int option\<rparr>"
  define d where "d = d0\<lparr>lastPosition := Some (200, 300), stuckCheckTime := Some 1000\<rparr>"
  note hs = held_state [where c = "''c1''" and now = 0 and xp = None and m = Physics and t = None
      and rnd = dropRandom0 and upd = placeMid, folded s1_def L_def, folded s2_def]
  have s1e: "s1 = exec drop1 engine0"
    by (simp add: s1_def drop1_def)
  have c2: "chips s2 = [(''c1'', d0)]"
    unfolding hs(8) s1e d0_def by (rule after_drop1)
  have pos: "position (bodies s2 ! L) = (200, 300)" and vel: "velocity (bodies s2 ! L) = (0, 0)"
    by (simp_all add: hs placeMid_def)
  have c3: "chips s3 = [(''c1'', d)]" and b3: "bodies s3 = bodies s2" and w3: "world s3 = world s2"
    using frame_first_check [of s2 "''c1''" d0 L 1000 noRandom] c2 hs(7,12,13) pos
    unfolding s3_def d_def by (simp_all add: d0_def)
  have run3: "run [drop1, PhysicsUpdate placeMid, Frame 1000 noRandom] engine0 = s3"
    by (simp add: run_Cons run_Nil s3_def s2_def s1e)
  have h1: "map_of (chips s3) ''c1'' = Some d" and h2: "\<not> hasLanded d"
    by (simp_all add: c3 d_def d0_def)
  have h3: "findChip s3 ''c1'' = Some L"
    using hs(7) by (simp add: findChip_def b3 w3)
  have h4: "L < length (bodies s3)"
    by (simp add: b3 hs)
  have h5: "lastPosition d = Some (200, 300)" and h7: "stuckCheckTime d = Some 1000"
    by (simp_all add: d_def)
  have h6: "distance2 (position (bodies s3 ! L)) (200, 300) < 15 / 10"
    by (simp add: b3 pos distance2_def)
  have h10: "speedOf (velocity (bodies s3 ! L)) < 2 / 10"
    by (simp add: b3 vel speedOf_def)
  have "snd (velocity (bodies (unstickChip 2000 (0, 1 / 2, 1 / 2) ''c1'' s3) ! L))
          = snd (velocity (bodies s3 ! L)) + (1 / 2 + (1 / 2) * (1 / 2)) \<and>
        1 / 2 \<le> 1 / 2 + (1 / 2) * (1 / 2 :: real) \<and> 1 / 2 + (1 / 2) * (1 / 2 :: real) \<le> 1 \<and>
        0 < snd (velocity (bodies (unstickChip 2000 (0, 1 / 2, 1 / 2) ''c1'' s3) ! L))"
    by (rule unstick_pushes_down [OF h1 h2 h3 h4 h5 h6 h7 _ _ h10]) simp_all
  then show ?thesis
    using h1 h2 h3 vel unfolding run3 L_def [symmetric] by (simp add: b3 landedFlag_def)
qed

subsection \<open>The steering task of a chip\<close>

lemma nudgeTick_stops:
  assumes "h < length (intervals s)" "\<not> cleared (intervals s ! h)"
    "isDestroyed s \<or> maxNudges (intervals s ! h) \<le> nudgeCount (intervals s ! h)
     \<or> landedFlag (taskChipId s (intervals s ! h)) s \<noteq> Some False"
  shows "nudgeTick h r s = clearInterval h s"
  using assms
  by (auto simp: nudgeTick_def Let_def landedFlag_def taskChipId_def split: option.splits)

lemma nudgeTick_iterates:
  assumes "h < length (intervals s)" "\<not> cleared (intervals s ! h)"
    "\<not> isDestroyed s" "nudgeCount (intervals s ! h) < maxNudges (intervals s ! h)"
    "landedFlag (taskChipId s (intervals s ! h)) s = Some False"
  shows "intervals (nudgeTick h r s)
         = (intervals s)[h := (intervals s ! h)\<lparr>nudgeCount := nudgeCount (intervals s ! h) + 1\<rparr>]"
    and "shouldNudge s (intervals s ! h) \<Longrightarrow>
         bodies (nudgeTick h r s)
         = (bodies s)[nudgeChip (intervals s ! h) :=
              Body_applyForce (bodies s ! nudgeChip (intervals s ! h))
                (taskDiff s (intervals s ! h) * (2 / 100000) * (r + 1 / 2), 0)]"
    and "\<not> shouldNudge s (intervals s ! h) \<Longrightarrow> bodies (nudgeTick h r s) = bodies s"
proof -
  obtain d where d: "map_of (chips s) (removeFirst ''chip-'' (label (bodies s ! nudgeChip (intervals s ! h)))) = Some d"
    "\<not> hasLanded d"
    using assms(5) by (auto simp: landedFlag_def taskChipId_def)
  show "intervals (nudgeTick h r s)
         = (intervals s)[h := (intervals s ! h)\<lparr>nudgeCount := nudgeCount (intervals s ! h) + 1\<rparr>]"
    using assms(1-4) d by (simp add: nudgeTick_def Let_def)
  show "bodies (nudgeTick h r s)
         = (bodies s)[nudgeChip (intervals s ! h) :=
              Body_applyForce (bodies s ! nudgeChip (intervals s ! h))
                (taskDiff s (intervals s ! h) * (2 / 100000) * (r + 1 / 2), 0)]"
    if "shouldNudge s (intervals s ! h)"
    using assms(1-4) d that
    by (simp add: nudgeTick_def Let_def shouldNudge_def taskProgress_def taskDiff_def)
  show "bodies (nudgeTick h r s) = bodies s" if "\<not> shouldNudge s (intervals s ! h)"
    using assms(1-4) d that
    by (auto simp: nudgeTick_def Let_def shouldNudge_def taskProgress_def taskDiff_def)
qed

lemma nudgeTick_cleared:
  "h < length (intervals s) \<Longrightarrow> cleared (intervals s ! h) \<Longrightarrow> nudgeTick h r s = s"
  by (simp add: nudgeTick_def)


lemma list_all_update: "list_all P xs \<Longrightarrow> P x \<Longrightarrow> list_all P (xs[h := x])"
  using set_update_subset_insert [of xs h x] by (auto simp: list_all_iff)

lemma collisionStart_intervals: "intervals (collisionStart ps s) = intervals s"
  unfolding collisionStart_def
  by (induction ps arbitrary: s) (simp_all add: handlePair_def slotBranch_fields pegBranch_fields)

lemma landingTimeout_intervals: "intervals (landingTimeout k s) = intervals s"
  by (simp add: landingTimeout_def removeChip_fields split: prod.splits)

lemma render_intervals: "intervals (render now rnd s) = intervals s"
proof -
  have "intervals (fold (\<lambda>k. unstickChip now (rnd k) k) ks t) = intervals t" for ks t
    by (induction ks arbitrary: t) (simp_all add: unstickChip_fields)
  then show ?thesis
    by (simp add: render_def checkAndUnstickBalls_def Let_def)
qed

lemma dropChip_intervals:
  "intervals (dropChip c now xp m t rnd s) = intervals s \<or>
   (\<exists>tX w. intervals (dropChip c now xp m t rnd s)
      = intervals s @ [\<lparr>nudgeChip = length (bodies s), targetX = tX, nudgeSlotWidth = w,
                        maxNudges = rowNum (rows s) div 2, nudgeCount = 0, cleared = False\<rparr>])"
  by (simp add: dropChip_def Let_def applyDeterministicNudges_def split: prod.splits)

lemma rowNum_listed: "list_ex (\<lambda>r. rowNum q div 2 = rowNum r div 2) [R8, R10, R12, R14, R16]"
  by (cases q) simp_all

lemma tasksBounded_same: "intervals s' = intervals s \<Longrightarrow> tasksBounded s' = tasksBounded s"
  by (simp add: tasksBounded_def)

lemma tasksBounded_nudgeTick:
  assumes "tasksBounded s"
  shows "tasksBounded (nudgeTick h r s)"
proof (cases "h < length (intervals s) \<and> \<not> cleared (intervals s ! h)")
  case False
  have "nudgeTick h r s = s"
    by (simp only: nudgeTick_def if_not_P [OF False])
  then show ?thesis using assms by simp
next
  case True
  define t where "t = intervals s ! h"
  have tb: "nudgeCount t \<le> maxNudges t"
    "list_ex (\<lambda>r. maxNudges t = rowNum r div 2) [R8, R10, R12, R14, R16]"
    using assms True unfolding tasksBounded_def t_def list_all_length by blast+
  show ?thesis
  proof (cases "isDestroyed s \<or> maxNudges t \<le> nudgeCount t
                \<or> landedFlag (taskChipId s t) s \<noteq> Some False")
    case stop: True
    have "nudgeTick h r s = clearInterval h s"
      using True stop unfolding t_def by (intro nudgeTick_stops) simp_all
    then show ?thesis
      using assms tb unfolding tasksBounded_def clearInterval_def t_def
      by (simp add: list_all_update)
  next
    case go: False
    have "intervals (nudgeTick h r s) = (intervals s)[h := t\<lparr>nudgeCount := nudgeCount t + 1\<rparr>]"
      using True go unfolding t_def by (intro nudgeTick_iterates) simp_all
    moreover have "nudgeCount t + 1 \<le> maxNudges t"
      using go by simp
    ultimately show ?thesis
      using assms tb unfolding tasksBounded_def by (simp add: list_all_update)
  qed
qed

lemma tasksBounded_dropChip:
  assumes "tasksBounded s"
  shows "tasksBounded (dropChip c now xp m t rnd s)"
  using assms dropChip_intervals [of c now xp m t rnd s] rowNum_listed [of "rows s"]
  unfolding tasksBounded_def by auto

lemma tasksBounded_frame: "tasksBounded (s\<lparr>rafPending := False\<rparr>) = tasksBounded s"
  by (simp add: tasksBounded_def)

lemma tasksBounded_exec: "tasksBounded s \<Longrightarrow> tasksBounded (exec e s)"
  by (cases e)
     (simp_all add: tasksBounded_dropChip tasksBounded_nudgeTick tasksBounded_frame
        tasksBounded_same [OF collisionStart_intervals]
        tasksBounded_same [OF landingTimeout_intervals]
        tasksBounded_same [OF render_intervals]
        tasksBounded_same [OF physicsUpdate_fields(4)]
        tasksBounded_same [OF resize_fields(4)]
        tasksBounded_same [OF setRows_fields(4)]
        tasksBounded_same [OF destroy_fields(4)])

lemma tasksBounded_run: "tasksBounded s \<Longrightarrow> tasksBounded (run es s)"
  unfolding run_def by (induction es arbitrary: s) (simp_all add: tasksBounded_exec)

lemma tasksBounded_new: "tasksBounded (PlinkoEngine_new rect rws now rnd)"
  by (simp add: tasksBounded_def new_fields)


subsection \<open>A task keeps its constants\<close>

lemma taskKept_refl: "taskKept t t"
  by (simp add: taskKept_def)

lemma taskKept_trans: "taskKept t t' \<Longrightarrow> taskKept t' t'' \<Longrightarrow> taskKept t t''"
  by (auto simp: taskKept_def)

lemma nudgeTick_taskKept:
  assumes "j < length (intervals s)"
  shows "j < length (intervals (nudgeTick h r s))"
    and "taskKept (intervals s ! j) (intervals (nudgeTick h r s) ! j)"
  using assms
  by (auto simp: nudgeTick_def Let_def clearInterval_def taskKept_def nth_list_update
      split: option.splits)

lemma dropChip_intervals_cases:
  "intervals (dropChip c now xp m t rnd s)
   = (if m = Deterministic
      then intervals s @
           [\<lparr>nudgeChip = length (bodies s),
             targetX = slotCenterX s (case t of Some k \<Rightarrow> k
                                      | None \<Rightarrow> selectTargetSlot (rows s) (rTargetSlot rnd)),
             nudgeSlotWidth = slotWidth s,
             maxNudges = rowNum (rows s) div 2, nudgeCount = 0, cleared = False\<rparr>]
      else intervals s)"
  by (simp add: dropChip_def Let_def applyDeterministicNudges_def slotCenterX_def slotWidth_def
      split: prod.splits option.splits)

lemma same_taskKept:
  assumes "intervals s' = intervals s" "j < length (intervals s)"
  shows "j < length (intervals s') \<and> taskKept (intervals s ! j) (intervals s' ! j)"
  using assms by (simp add: taskKept_refl)

lemma exec_taskKept:
  assumes "j < length (intervals s)"
  shows "j < length (intervals (exec e s)) \<and> taskKept (intervals s ! j) (intervals (exec e s) ! j)"
proof (cases e)
  case (DropChip c now xp m t rnd)
  then show ?thesis
    using assms by (simp add: dropChip_intervals_cases nth_append taskKept_refl)
next
  case (CollisionStart ps)
  then show ?thesis
    using same_taskKept [OF collisionStart_intervals assms] by simp
next
  case (LandingTimeout k)
  then show ?thesis
    using same_taskKept [OF landingTimeout_intervals assms] by simp
next
  case (NudgeTick h r)
  then show ?thesis
    using nudgeTick_taskKept [OF assms] by simp
next
  case (Frame now rnd)
  then show ?thesis
    using assms by (simp add: render_intervals taskKept_refl)
next
  case (PhysicsUpdate upd)
  then show ?thesis
    using assms by (simp add: physicsUpdate_fields taskKept_refl)
next
  case (Resize rect)
  then show ?thesis
    using assms by (simp add: resize_fields taskKept_refl)
next
  case (SetRows rws rect)
  then show ?thesis
    using assms by (simp add: setRows_fields taskKept_refl)
next
  case Destroy
  then show ?thesis
    using assms by (simp add: destroy_fields taskKept_refl)
qed

lemma run_taskKept:
  assumes "j < length (intervals s)"
  shows "j < length (intervals (run es s)) \<and> taskKept (intervals s ! j) (intervals (run es s) ! j)"
  using assms
proof (induction es arbitrary: s)
  case Nil
  then show ?case by (simp add: run_Nil taskKept_refl)
next
  case (Cons e es)
  have 1: "j < length (intervals (exec e s))" "taskKept (intervals s ! j) (intervals (exec e s) ! j)"
    using exec_taskKept [OF Cons.prems] by simp_all
  have 2: "j < length (intervals (run es (exec e s)))"
    "taskKept (intervals (exec e s) ! j) (intervals (run es (exec e s)) ! j)"
    using Cons.IH [OF 1(1)] by simp_all
  show ?case
    unfolding run_Cons using 2(1) taskKept_trans [OF 1(2) 2(2)] by simp
qed


subsection \<open>The sensors stay at the slot centres\<close>

lemma sensorsPlaced_iff:
  "sensorsPlaced s \<longleftrightarrow>
     length (slotSensors s) = rowNum (rows s) + 1 \<and>
     (\<forall>i < rowNum (rows s) + 1.
        slotSensors s ! i < length (bodies s)
        \<and> isStatic (bodies s ! (slotSensors s ! i))
        \<and> label (bodies s ! (slotSensors s ! i)) = ''slot-'' @ showNat i
        \<and> fst (position (bodies s ! (slotSensors s ! i))) = slotCenterX s (int i))"
  unfolding sensorsPlaced_def list_all_iff set_upt Ball_def atLeastLessThan_iff by simp

lemma sensorsPlaced_cong:
  assumes "sensorsPlaced s"
    and "slotSensors s' = slotSensors s" "rows s' = rows s" "width s' = width s"
    and "boardPadding s' = boardPadding s" "length (bodies s) \<le> length (bodies s')"
    and "\<And>r. r < length (bodies s) \<Longrightarrow> isStatic (bodies s ! r) \<Longrightarrow>
           isStatic (bodies s' ! r) \<and> label (bodies s' ! r) = label (bodies s ! r)
           \<and> position (bodies s' ! r) = position (bodies s ! r)"
  shows "sensorsPlaced s'"
proof -
  have c: "slotCenterX s' k = slotCenterX s k" for k
    by (simp add: slotCenterX_def slotWidth_def assms(3-5))
  show ?thesis
    unfolding sensorsPlaced_iff assms(2,3) c
  proof (intro conjI allI impI)
    show "length (slotSensors s) = rowNum (rows s) + 1"
      using assms(1) by (simp add: sensorsPlaced_iff)
  next
    fix i assume i: "i < rowNum (rows s) + 1"
    have old: "slotSensors s ! i < length (bodies s)"
      "isStatic (bodies s ! (slotSensors s ! i))"
      "label (bodies s ! (slotSensors s ! i)) = ''slot-'' @ showNat i"
      "fst (position (bodies s ! (slotSensors s ! i))) = slotCenterX s (int i)"
      using assms(1) i unfolding sensorsPlaced_iff by blast+
    note new = assms(7) [OF old(1,2)]
    show "slotSensors s ! i < length (bodies s')"
      using old(1) assms(6) by simp
    show "isStatic (bodies s' ! (slotSensors s ! i))"
      using new by simp
    show "label (bodies s' ! (slotSensors s ! i)) = ''slot-'' @ showNat i"
      using new old(3) by simp
    show "fst (position (bodies s' ! (slotSensors s ! i))) = slotCenterX s (int i)"
      using new old(4) by simp
  qed
qed

lemma nth_update_if: "j < length xs \<Longrightarrow> xs[i := x] ! j = (if i = j then x else xs ! j)"
  by (cases "i = j") simp_all

lemma sensorsPlaced_update:
  assumes "sensorsPlaced s"
    and "isStatic b = isStatic (bodies s ! chip)" "label b = label (bodies s ! chip)"
    and "position b = position (bodies s ! chip)"
  shows "sensorsPlaced (s\<lparr>bodies := (bodies s)[chip := b]\<rparr>)"
  using assms(1)
  by (rule sensorsPlaced_cong) (auto simp: nth_update_if assms(2-4))

lemma sensorsPlaced_applyCollisionRandomness:
  assumes "sensorsPlaced s"
  shows "sensorsPlaced (applyCollisionRandomness chip rnd s)"
proof -
  obtain b where "applyCollisionRandomness chip rnd s = s\<lparr>bodies := (bodies s)[chip := b]\<rparr>"
    "isStatic b = isStatic (bodies s ! chip)" "label b = label (bodies s ! chip)"
    "position b = position (bodies s ! chip)"
    by (cases rnd)
       (simp add: applyCollisionRandomness_def Let_def Body_applyForce_def
          Body_setAngularVelocity_def)
  then show ?thesis
    using sensorsPlaced_update [OF assms] by simp
qed

lemma sensorsPlaced_log:
  "sensorsPlaced (s\<lparr>callbackLog := l\<rparr>) = sensorsPlaced s"
  by (simp add: sensorsPlaced_def slotCenterX_def slotWidth_def)

lemma sensorsPlaced_pegBranch: "sensorsPlaced s \<Longrightarrow> sensorsPlaced (pegBranch p s)"
  by (simp add: pegBranch_def Let_def sensorsPlaced_applyCollisionRandomness sensorsPlaced_log
      split: option.splits)

lemma sensorsPlaced_slotBranch:
  assumes "sensorsPlaced s"
  shows "sensorsPlaced (slotBranch p s)"
  using assms
  by (rule sensorsPlaced_cong)
     (simp_all add: slotBranch_def Let_def split: option.splits prod.splits)

lemma sensorsPlaced_collisionStart: "sensorsPlaced s \<Longrightarrow> sensorsPlaced (collisionStart ps s)"
  unfolding collisionStart_def
  by (induction ps arbitrary: s)
     (simp_all add: handlePair_def sensorsPlaced_pegBranch sensorsPlaced_slotBranch)

lemma sensorsPlaced_landingTimeout:
  assumes "sensorsPlaced s"
  shows "sensorsPlaced (landingTimeout k s)"
  using assms
  by (rule sensorsPlaced_cong)
     (simp_all add: landingTimeout_def removeChip_def Let_def split: option.splits prod.splits)

lemma sensorsPlaced_nudgeTick:
  assumes "sensorsPlaced s"
  shows "sensorsPlaced (nudgeTick h r s)"
  using assms
  by (rule sensorsPlaced_cong)
     (auto simp: nudgeTick_def clearInterval_def Let_def nth_update_if Body_applyForce_def
        split: option.splits)

lemma sensorsPlaced_unstickChip:
  assumes "sensorsPlaced s"
  shows "sensorsPlaced (unstickChip now rnd c s)"
  using assms
  by (rule sensorsPlaced_cong)
     (auto simp: unstickChip_def unstickNudge_def Let_def nth_update_if Body_applyForce_def
        Body_setVelocity_def split: option.splits prod.splits)

lemma sensorsPlaced_render:
  assumes "sensorsPlaced s"
  shows "sensorsPlaced (render now rnd s)"
proof -
  have f: "sensorsPlaced u \<Longrightarrow> sensorsPlaced (fold (\<lambda>k. unstickChip now (rnd k) k) ks u)" for ks u
    by (induction ks arbitrary: u) (simp_all add: sensorsPlaced_unstickChip)
  have "sensorsPlaced (checkAndUnstickBalls now rnd s)"
    unfolding checkAndUnstickBalls_def using assms by (rule f)
  then have "sensorsPlaced ((checkAndUnstickBalls now rnd s)\<lparr>animationFrame := a, rafPending := b\<rparr>)"
    for a b
    by (rule sensorsPlaced_cong) simp_all
  then show ?thesis
    using assms by (simp add: render_def Let_def)
qed

lemma physics_fold_other:
  "r0 \<notin> set rs \<Longrightarrow> fold (\<lambda>r bs. bs[r := g r (bs ! r)]) rs bs ! r0 = bs ! r0"
  by (induction rs arbitrary: bs) simp_all

lemma physics_fold_length:
  "length (fold (\<lambda>r bs. bs[r := g r (bs ! r)]) rs bs) = length bs"
  by (induction rs arbitrary: bs) simp_all

lemma sensorsPlaced_physicsUpdate:
  assumes "sensorsPlaced s"
  shows "sensorsPlaced (physicsUpdate upd s)"
proof -
  define g where "g = (\<lambda>r (b::Body). b\<lparr>position := fst (upd r), velocity := fst (snd (upd r)),
                                    angularVelocity := snd (snd (upd r)), force := (0, 0)\<rparr>)"
  define rs where "rs = filter (\<lambda>r. \<not> isStatic (bodies s ! r)) (world s)"
  have b: "bodies (physicsUpdate upd s) = fold (\<lambda>r bs. bs[r := g r (bs ! r)]) rs (bodies s)"
    by (simp add: physicsUpdate_def g_def rs_def)
  show ?thesis
    using assms
  proof (rule sensorsPlaced_cong)
    fix r assume "r < length (bodies s)" and st: "isStatic (bodies s ! r)"
    then have "r \<notin> set rs"
      by (simp add: rs_def)
    then have "bodies (physicsUpdate upd s) ! r = bodies s ! r"
      unfolding b by (rule physics_fold_other)
    then show "isStatic (bodies (physicsUpdate upd s) ! r)
        \<and> label (bodies (physicsUpdate upd s) ! r) = label (bodies s ! r)
        \<and> position (bodies (physicsUpdate upd s) ! r) = position (bodies s ! r)"
      using st by simp
  next
    show "length (bodies s) \<le> length (bodies (physicsUpdate upd s))"
      unfolding b by (simp add: physics_fold_length)
  qed (simp_all add: physicsUpdate_def)
qed

lemma sensorsPlaced_dropChip:
  assumes "sensorsPlaced s"
  shows "sensorsPlaced (dropChip c now xp m t rnd s)"
  using assms
  by (rule sensorsPlaced_cong)
     (simp_all add: dropChip_def applyDeterministicNudges_def Let_def nth_append
        split: prod.splits)

lemma sensorsPlaced_destroy:
  assumes "sensorsPlaced s"
  shows "sensorsPlaced (destroy s)"
  using assms
  by (rule sensorsPlaced_cong) (simp_all add: destroy_def Let_def)


lemma createSlots_sensor:
  assumes "i < rowNum (rows s) + 1"
  shows "isStatic (bodies (createSlots s) ! (length (bodies s) + i))"
    and "label (bodies (createSlots s) ! (length (bodies s) + i)) = ''slot-'' @ showNat i"
    and "fst (position (bodies (createSlots s) ! (length (bodies s) + i))) = slotCenterX s (int i)"
  using assms
  by (simp_all add: createSlots_def Let_def nth_append Bodies_rectangle_def slotCenterX_def
      slotWidth_def del: upt_Suc)

lemma sensorsPlaced_buildWorld: "sensorsPlaced (buildWorld s)"
proof -
  define s2 where "s2 = createWalls (createPegs
      (s\<lparr>world := [], pegs := [], walls := [], slotSensors := [], slotDividers := []\<rparr>))"
  define base where "base = length (bodies s) + pegCount (rows s) + 4"
  have len2: "length (bodies s2) = base"
    by (simp add: s2_def base_def createWalls_result createPegs_result createPegs_dims)
  have dims2: "rows s2 = rows s" "width s2 = width s" "boardPadding s2 = boardPadding s"
    by (simp_all add: s2_def createWalls_dims createPegs_dims)
  have c2: "slotCenterX s2 k = slotCenterX s k" for k
    by (simp add: slotCenterX_def slotWidth_def dims2)
  have cb: "slotCenterX (buildWorld s) k = slotCenterX s k" for k
    by (simp add: slotCenterX_def slotWidth_def buildWorld_dims)
  have bodies: "bodies (buildWorld s) = bodies (createSlots s2)"
    by (simp add: buildWorld_def Let_def s2_def)
  have refs: "slotSensors (buildWorld s) = [base..<base + (rowNum (rows s) + 1)]"
    by (simp only: buildWorld_refs base_def)
  have total: "length (bodies (buildWorld s)) = base + (rowNum (rows s) + 1) + (rowNum (rows s) + 2)"
    by (simp add: buildWorld_length length_staticLabels base_def)
  show ?thesis
    unfolding sensorsPlaced_iff buildWorld_dims cb
  proof (intro conjI allI impI)
    show "length (slotSensors (buildWorld s)) = rowNum (rows s) + 1"
      by (simp add: refs)
  next
    fix i assume i: "i < rowNum (rows s) + 1"
    then have i2: "i < rowNum (rows s2) + 1"
      by (simp add: dims2)
    have ref: "slotSensors (buildWorld s) ! i = length (bodies s2) + i"
      using i by (simp add: refs len2 del: upt_Suc)
    show "slotSensors (buildWorld s) ! i < length (bodies (buildWorld s))"
      using i by (simp add: ref len2 total)
    show "isStatic (bodies (buildWorld s) ! (slotSensors (buildWorld s) ! i))"
      unfolding ref bodies by (rule createSlots_sensor(1) [OF i2])
    show "label (bodies (buildWorld s) ! (slotSensors (buildWorld s) ! i)) = ''slot-'' @ showNat i"
      unfolding ref bodies by (rule createSlots_sensor(2) [OF i2])
    show "fst (position (bodies (buildWorld s) ! (slotSensors (buildWorld s) ! i)))
          = slotCenterX s (int i)"
      unfolding ref bodies c2 [symmetric] by (rule createSlots_sensor(3) [OF i2])
  qed
qed

lemma sensorsPlaced_new: "sensorsPlaced (PlinkoEngine_new rect rws now rnd)"
proof -
  have "sensorsPlaced (buildWorld ((calculateDimensions rect (initialFields rws))\<lparr>canvasInDom := True\<rparr>))"
    by (rule sensorsPlaced_buildWorld)
  then show ?thesis
    unfolding new_eq by (rule sensorsPlaced_cong) simp_all
qed

lemma sensorsPlaced_exec: "sensorsPlaced s \<Longrightarrow> sensorsPlaced (exec e s)"
proof (cases e)
  case (Frame now rnd)
  assume a: "sensorsPlaced s"
  then have "sensorsPlaced (s\<lparr>rafPending := False\<rparr>)"
    by (rule sensorsPlaced_cong) simp_all
  then show ?thesis
    using a Frame by (simp add: sensorsPlaced_render)
qed (simp_all add: sensorsPlaced_dropChip sensorsPlaced_collisionStart sensorsPlaced_landingTimeout
      sensorsPlaced_nudgeTick sensorsPlaced_physicsUpdate sensorsPlaced_destroy
      sensorsPlaced_buildWorld resize_def setRows_def)

lemma sensorsPlaced_run: "sensorsPlaced s \<Longrightarrow> sensorsPlaced (run es s)"
  unfolding run_def by (induction es arbitrary: s) (simp_all add: sensorsPlaced_exec)


text \<open>
  Claim C7. Let \<open>R\<close> be any state the engine reaches from its construction. Dropping a chip
  in deterministic mode in \<open>R\<close> registers one steering task (in physics mode none), for the
  new chip body, with the count 0, the bound \<open>rowCount div 2\<close>, the slot width of the board, and
  as target the x coordinate of the centre of the chip's target slot \<open>K\<close>: the slot given, or
  else the slot selected, which is also the slot recorded in the registry. For \<open>K\<close> from 0 to
  \<open>rowCount\<close> that target is the x coordinate of the sensor body of slot \<open>K\<close>; every sensor
  \<open>i\<close> of a reachable state is centred at the centre of slot \<open>i\<close>. Whatever happens afterwards,
  the task \<open>T\<close> keeps its chip body, target, slot width and bound, and its count is at most
  \<open>rowCount div 2\<close>; in any state and through any events a task keeps these four values, its
  count does not go down, and a cleared task stays cleared.

  A tick of a task that is not yet cleared stops the task, applying no force, when the
  engine is destroyed, the count has reached the bound, or the chip is not registered or
  has landed; otherwise it counts one iteration, and it applies a force exactly when
  \<open>progress\<close> lies strictly between 0.3 and 0.85 and the offset from the target exceeds 0.3
  slot widths: the lateral force \<open>diff * 0.00002 * (r + 0.5)\<close>, proportional to the offset. A
  cleared task does nothing.
\<close>

theorem steering_task:
  fixes es es' :: "Event list" and s :: PlinkoEngine
    and rect rws now rnd c now' xp tS rnd'
  defines "R \<equiv> run es (PlinkoEngine_new rect rws now rnd)"
  defines "K \<equiv> (case tS of Some k \<Rightarrow> k | None \<Rightarrow> selectTargetSlot (rows R) (rTargetSlot rnd'))"
  defines "F \<equiv> run es' (dropChip c now' xp Deterministic tS rnd' R)"
  defines "T \<equiv> intervals F ! length (intervals R)"
  shows
  "tasksBounded R \<and>
   intervals (applyDeterministicNudges chip tSlot s)
     = intervals s @ [\<lparr>nudgeChip = chip, targetX = slotCenterX s tSlot,
                        nudgeSlotWidth = slotWidth s, maxNudges = rowNum (rows s) div 2,
                        nudgeCount = 0, cleared = False\<rparr>] \<and>
   intervals (dropChip c now' xp Deterministic tS rnd' R)
     = intervals R @ [\<lparr>nudgeChip = length (bodies R), targetX = slotCenterX R K,
                        nudgeSlotWidth = slotWidth R, maxNudges = rowNum (rows R) div 2,
                        nudgeCount = 0, cleared = False\<rparr>] \<and>
   label (bodies (dropChip c now' xp Deterministic tS rnd' R) ! length (bodies R)) = ''chip-'' @ c \<and>
   map_option targetSlot (map_of (chips (dropChip c now' xp Deterministic tS rnd' R)) c)
     = Some (Some K) \<and>
   intervals (dropChip c now' xp Physics tS rnd' R) = intervals R \<and>
   (i < rowNum (rows R) + 1 \<longrightarrow>
      slotSensors R ! i < length (bodies R) \<and>
      label (bodies R ! (slotSensors R ! i)) = ''slot-'' @ showNat i \<and>
      fst (position (bodies R ! (slotSensors R ! i))) = slotCenterX R (int i)) \<and>
   length (intervals R) < length (intervals F) \<and>
   nudgeChip T = length (bodies R) \<and> targetX T = slotCenterX R K \<and>
   nudgeSlotWidth T = slotWidth R \<and> maxNudges T = rowNum (rows R) div 2 \<and>
   nudgeCount T \<le> rowNum (rows R) div 2 \<and>
   (0 \<le> K \<and> K \<le> int (rowNum (rows R)) \<longrightarrow>
      targetX T = fst (position (bodies R ! (slotSensors R ! nat K)))) \<and>
   (h < length (intervals s) \<longrightarrow>
      h < length (intervals (run es' s)) \<and>
      nudgeChip (intervals (run es' s) ! h) = nudgeChip (intervals s ! h) \<and>
      targetX (intervals (run es' s) ! h) = targetX (intervals s ! h) \<and>
      nudgeSlotWidth (intervals (run es' s) ! h) = nudgeSlotWidth (intervals s ! h) \<and>
      maxNudges (intervals (run es' s) ! h) = maxNudges (intervals s ! h) \<and>
      nudgeCount (intervals s ! h) \<le> nudgeCount (intervals (run es' s) ! h) \<and>
      (cleared (intervals s ! h) \<longrightarrow> cleared (intervals (run es' s) ! h))) \<and>
   (h < length (intervals s) \<and> cleared (intervals s ! h) \<longrightarrow> nudgeTick h r s = s) \<and>
   (h < length (intervals s) \<and> \<not> cleared (intervals s ! h) \<and>
    (isDestroyed s \<or> maxNudges (intervals s ! h) \<le> nudgeCount (intervals s ! h)
     \<or> landedFlag (taskChipId s (intervals s ! h)) s \<noteq> Some False) \<longrightarrow>
      bodies (nudgeTick h r s) = bodies s \<and> cleared (intervals (nudgeTick h r s) ! h) \<and>
      nudgeCount (intervals (nudgeTick h r s) ! h) = nudgeCount (intervals s ! h)) \<and>
   (h < length (intervals s) \<and> \<not> cleared (intervals s ! h) \<and> \<not> isDestroyed s \<and>
    nudgeCount (intervals s ! h) < maxNudges (intervals s ! h) \<and>
    landedFlag (taskChipId s (intervals s ! h)) s = Some False \<longrightarrow>
      nudgeCount (intervals (nudgeTick h r s) ! h) = nudgeCount (intervals s ! h) + 1 \<and>
      (shouldNudge s (intervals s ! h) \<longrightarrow>
         bodies (nudgeTick h r s)
         = (bodies s)[nudgeChip (intervals s ! h) :=
              Body_applyForce (bodies s ! nudgeChip (intervals s ! h))
                (taskDiff s (intervals s ! h) * (2 / 100000) * (r + 1 / 2), 0)]) \<and>
      (\<not> shouldNudge s (intervals s ! h) \<longrightarrow> bodies (nudgeTick h r s) = bodies s))"
proof -
  define D where "D = dropChip c now' xp Deterministic tS rnd' R"
  define t0 where "t0 = \<lparr>nudgeChip = length (bodies R), targetX = slotCenterX R K,
                          nudgeSlotWidth = slotWidth R, maxNudges = rowNum (rows R) div 2,
                          nudgeCount = 0, cleared = False\<rparr>"
  have tbR: "tasksBounded R"
    unfolding R_def by (intro tasksBounded_run tasksBounded_new)
  have mk: "intervals (applyDeterministicNudges chip tSlot s)
     = intervals s @ [\<lparr>nudgeChip = chip, targetX = slotCenterX s tSlot,
                        nudgeSlotWidth = slotWidth s, maxNudges = rowNum (rows s) div 2,
                        nudgeCount = 0, cleared = False\<rparr>]"
    by (simp add: applyDeterministicNudges_def Let_def slotCenterX_def slotWidth_def)
  have iD: "intervals D = intervals R @ [t0]"
    by (simp add: D_def t0_def K_def dropChip_intervals_cases)
  have lD: "label (bodies D ! length (bodies R)) = ''chip-'' @ c"
    unfolding D_def by (rule dropChip_label_new)
  have cD: "map_option targetSlot (map_of (chips D) c) = Some (Some K)"
    by (cases tS) (simp_all add: D_def K_def dropChip_chips_eq map_of_update)
  have iP: "intervals (dropChip c now' xp Physics tS rnd' R) = intervals R"
    by (simp add: dropChip_intervals_cases)
  have spR: "sensorsPlaced R"
    unfolding R_def by (intro sensorsPlaced_run sensorsPlaced_new)
  have sens: "slotSensors R ! j < length (bodies R) \<and>
      label (bodies R ! (slotSensors R ! j)) = ''slot-'' @ showNat j \<and>
      fst (position (bodies R ! (slotSensors R ! j))) = slotCenterX R (int j)"
    if "j < rowNum (rows R) + 1" for j
    using spR that unfolding sensorsPlaced_iff by blast
  have jD: "length (intervals R) < length (intervals D)" and tD: "intervals D ! length (intervals R) = t0"
    by (simp_all add: iD)
  have kept: "length (intervals R) < length (intervals F)" "taskKept t0 T"
    using run_taskKept [OF jD, of es'] unfolding F_def [folded D_def] T_def tD by simp_all
  have tbF: "tasksBounded F"
    unfolding F_def by (intro tasksBounded_run tasksBounded_dropChip tbR)
  have cnt: "nudgeCount T \<le> maxNudges T"
    using tbF kept(1) unfolding tasksBounded_def list_all_length T_def by blast
  have T: "nudgeChip T = length (bodies R)" "targetX T = slotCenterX R K"
    "nudgeSlotWidth T = slotWidth R" "maxNudges T = rowNum (rows R) div 2"
    using kept(2) by (simp_all add: taskKept_def t0_def)
  have bound: "nudgeCount T \<le> rowNum (rows R) div 2"
    using cnt T(4) by simp
  have centre: "targetX T = fst (position (bodies R ! (slotSensors R ! nat K)))"
    if "0 \<le> K \<and> K \<le> int (rowNum (rows R))"
  proof -
    have nk: "nat K < rowNum (rows R) + 1" "int (nat K) = K"
      using that by linarith+
    show ?thesis
      using sens [OF nk(1)] T(2) unfolding nk(2) by simp
  qed
  have life: "h < length (intervals (run es' s)) \<and>
      nudgeChip (intervals (run es' s) ! h) = nudgeChip (intervals s ! h) \<and>
      targetX (intervals (run es' s) ! h) = targetX (intervals s ! h) \<and>
      nudgeSlotWidth (intervals (run es' s) ! h) = nudgeSlotWidth (intervals s ! h) \<and>
      maxNudges (intervals (run es' s) ! h) = maxNudges (intervals s ! h) \<and>
      nudgeCount (intervals s ! h) \<le> nudgeCount (intervals (run es' s) ! h) \<and>
      (cleared (intervals s ! h) \<longrightarrow> cleared (intervals (run es' s) ! h))"
    if "h < length (intervals s)"
    using run_taskKept [OF that, of es'] by (simp add: taskKept_def)
  have c: "nudgeTick h r s = s" if "h < length (intervals s) \<and> cleared (intervals s ! h)"
    using that by (simp add: nudgeTick_cleared)
  have d: "bodies (nudgeTick h r s) = bodies s \<and> cleared (intervals (nudgeTick h r s) ! h) \<and>
      nudgeCount (intervals (nudgeTick h r s) ! h) = nudgeCount (intervals s ! h)"
    if "h < length (intervals s) \<and> \<not> cleared (intervals s ! h) \<and>
      (isDestroyed s \<or> maxNudges (intervals s ! h) \<le> nudgeCount (intervals s ! h)
       \<or> landedFlag (taskChipId s (intervals s ! h)) s \<noteq> Some False)"
  proof -
    have "nudgeTick h r s = clearInterval h s"
      using that by (intro nudgeTick_stops) simp_all
    then show ?thesis
      using that by (simp add: clearInterval_def)
  qed
  have e: "nudgeCount (intervals (nudgeTick h r s) ! h) = nudgeCount (intervals s ! h) + 1 \<and>
      (shouldNudge s (intervals s ! h) \<longrightarrow>
         bodies (nudgeTick h r s)
         = (bodies s)[nudgeChip (intervals s ! h) :=
              Body_applyForce (bodies s ! nudgeChip (intervals s ! h))
                (taskDiff s (intervals s ! h) * (2 / 100000) * (r + 1 / 2), 0)]) \<and>
      (\<not> shouldNudge s (intervals s ! h) \<longrightarrow> bodies (nudgeTick h r s) = bodies s)"
    if "h < length (intervals s) \<and> \<not> cleared (intervals s ! h) \<and> \<not> isDestroyed s \<and>
      nudgeCount (intervals s ! h) < maxNudges (intervals s ! h) \<and>
      landedFlag (taskChipId s (intervals s ! h)) s = Some False"
    using that nudgeTick_iterates [of h s r] by simp
  show ?thesis
    using tbR mk iD [unfolded D_def t0_def] lD [unfolded D_def] cD [unfolded D_def] iP
      sens [of i] kept(1) T bound centre life c d e
    by blast
qed


text \<open>
  The cases in a run: chip \<^verbatim>\<open>c1\<close> is dropped with target slot 6 on the 8-row board of 400
  by 600, whose slots are 112/3 wide; the sensor of slot 6 is centred at x = 824/3, and that
  is the target of the task, with the bound 4; the same drop in physics mode registers no
  task. Held at (200, 300) the chip is in the band and 224/3 pixels from the target, and a
  tick applies the force and counts one iteration, leaving target and bound as they were;
  held at (200, 100) it is above the band, and a tick applies none; after \<^verbatim>\<open>destroy\<close> a
  tick clears the task, the next tick does nothing, and the task still has its target and
  its bound.
\<close>

theorem steering_task_witness:
  "tasksBounded (run [dropDet, PhysicsUpdate placeMid, NudgeTick 0 (1 / 2)]
                   (PlinkoEngine_new (400, 600) R8 0 noRandom)) \<and>
   intervals (run [dropDet, PhysicsUpdate placeMid] engine0)
     = [\<lparr>nudgeChip = length (bodies engine0), targetX = 824 / 3, nudgeSlotWidth = 112 / 3,
         maxNudges = 4, nudgeCount = 0, cleared = False\<rparr>] \<and>
   label (bodies engine0 ! (slotSensors engine0 ! 6)) = ''slot-6'' \<and>
   fst (position (bodies engine0 ! (slotSensors engine0 ! 6))) = 824 / 3 \<and>
   map_option targetSlot (map_of (chips (run [dropDet] engine0)) ''c1'') = Some (Some 6) \<and>
   label (bodies (run [dropDet] engine0) ! length (bodies engine0)) = ''chip-c1'' \<and>
   intervals (dropChip ''c1'' 0 None Physics (Some 6) dropRandom0 engine0) = [] \<and>
   shouldNudge (run [dropDet, PhysicsUpdate placeMid] engine0)
     (intervals (run [dropDet, PhysicsUpdate placeMid] engine0) ! 0) \<and>
   nudgeCount (intervals (nudgeTick 0 (1 / 2) (run [dropDet, PhysicsUpdate placeMid] engine0)) ! 0) = 1 \<and>
   force (bodies (nudgeTick 0 (1 / 2) (run [dropDet, PhysicsUpdate placeMid] engine0))
          ! length (bodies engine0)) = (224 / 3 * (2 / 100000) * (1 / 2 + 1 / 2), 0) \<and>
   targetX (intervals (run [dropDet, PhysicsUpdate placeMid, NudgeTick 0 (1 / 2)] engine0) ! 0)
     = fst (position (bodies engine0 ! (slotSensors engine0 ! 6))) \<and>
   maxNudges (intervals (run [dropDet, PhysicsUpdate placeMid, NudgeTick 0 (1 / 2)] engine0) ! 0) = 4 \<and>
   nudgeCount (intervals (run [dropDet, PhysicsUpdate placeMid, NudgeTick 0 (1 / 2)] engine0) ! 0) \<le> 4 \<and>
   \<not> shouldNudge (run [dropDet, PhysicsUpdate placeTop] engine0)
       (intervals (run [dropDet, PhysicsUpdate placeTop] engine0) ! 0) \<and>
   bodies (nudgeTick 0 (1 / 2) (run [dropDet, PhysicsUpdate placeTop] engine0))
     = bodies (run [dropDet, PhysicsUpdate placeTop] engine0) \<and>
   isDestroyed (run [dropDet, PhysicsUpdate placeMid, Destroy] engine0) \<and>
   bodies (nudgeTick 0 (1 / 2) (run [dropDet, PhysicsUpdate placeMid, Destroy] engine0))
     = bodies (run [dropDet, PhysicsUpdate placeMid, Destroy] engine0) \<and>
   cleared (intervals (nudgeTick 0 (1 / 2) (run [dropDet, PhysicsUpdate placeMid, Destroy] engine0)) ! 0) \<and>
   nudgeTick 0 (1 / 2) (nudgeTick 0 (1 / 2) (run [dropDet, PhysicsUpdate placeMid, Destroy] engine0))
     = nudgeTick 0 (1 / 2) (run [dropDet, PhysicsUpdate placeMid, Destroy] engine0) \<and>
   targetX (intervals (run [dropDet, PhysicsUpdate placeMid, Destroy, NudgeTick 0 (1 / 2),
                            NudgeTick 0 (1 / 2)] engine0) ! 0) = 824 / 3 \<and>
   maxNudges (intervals (run [dropDet, PhysicsUpdate placeMid, Destroy, NudgeTick 0 (1 / 2),
                              NudgeTick 0 (1 / 2)] engine0) ! 0) = 4"
proof -
  define L where "L = length (bodies engine0)"
  define sD where "sD = dropChip ''c1'' 0 None Deterministic (Some 6) dropRandom0 engine0"
  define sMid where "sMid = exec (PhysicsUpdate placeMid) sD"
  define sTop where "sTop = exec (PhysicsUpdate placeTop) sD"
  define sGone where "sGone = destroy sMid"
  define sDone where "sDone = nudgeTick 0 (1 / 2) sGone"
  define sTick where "sTick = run [PhysicsUpdate placeMid, NudgeTick 0 (1 / 2)] sD"
  define sLate where "sLate = run [PhysicsUpdate placeMid, Destroy, NudgeTick 0 (1 / 2),
                                   NudgeTick 0 (1 / 2)] sD"
  define t0 where "t0 = \<lparr>nudgeChip = L, targetX = 824 / 3, nudgeSlotWidth = 112 / 3,
                          maxNudges = 4, nudgeCount = 0, cleared = False\<rparr>"
  note mid = held_state [where c = "''c1''" and now = 0 and xp = None and m = Deterministic
      and t = "Some 6" and rnd = dropRandom0 and upd = placeMid, folded sD_def L_def,
      folded sMid_def]
  note top = held_state [where c = "''c1''" and now = 0 and xp = None and m = Deterministic
      and t = "Some 6" and rnd = dropRandom0 and upd = placeTop, folded sD_def L_def,
      folded sTop_def]
  have e0: "run [] (PlinkoEngine_new (400, 600) R8 0 noRandom) = engine0"
    by (simp add: run_Nil engine0_def)
  have cx: "slotCenterX engine0 6 = 824 / 3" and sw: "slotWidth engine0 = 112 / 3"
    by (simp_all add: slotCenterX_def slotWidth_def engine0_fields)
  have six: "showNat 6 = ''6''"
    by (simp add: showNat_digit digitChar_def)
  note board = steering_task [where es = "[]" and rect = "(400, 600)" and rws = R8 and now = 0
      and rnd = noRandom and c = "''c1''" and now' = 0 and xp = None and tS = "Some 6"
      and rnd' = dropRandom0 and es' = "[PhysicsUpdate placeMid, NudgeTick 0 (1 / 2)]"
      and i = 6 and s = engine0 and h = 0 and r = 0 and chip = 0 and tSlot = 0,
      unfolded e0, folded sD_def, folded sTick_def]
  have sens: "label (bodies engine0 ! (slotSensors engine0 ! 6)) = ''slot-6''"
    "fst (position (bodies engine0 ! (slotSensors engine0 ! 6))) = 824 / 3"
    using board by (simp_all add: engine0_fields cx six)
  have iD: "intervals sD = [t0]"
    using board by (simp add: engine0_fields cx sw t0_def L_def)
  have tD: "map_option targetSlot (map_of (chips sD) ''c1'') = Some (Some 6)"
    "label (bodies sD ! L) = ''chip-c1''"
    using board by (simp_all add: L_def)
  have iPh: "intervals (dropChip ''c1'' 0 None Physics (Some 6) dropRandom0 engine0) = []"
    using board by (simp add: engine0_fields)
  have tick: "targetX (intervals sTick ! 0) = fst (position (bodies engine0 ! (slotSensors engine0 ! 6)))"
    "maxNudges (intervals sTick ! 0) = 4" "nudgeCount (intervals sTick ! 0) \<le> 4"
    using board by (simp_all add: engine0_fields)
  have cD: "landedFlag ''c1'' sD = Some False"
    by (simp add: landedFlag_def sD_def dropChip_chips_eq engine0_fields)
  have runD: "run [dropDet] engine0 = sD"
    and runMid: "run [dropDet, PhysicsUpdate placeMid] engine0 = sMid"
    and runTop: "run [dropDet, PhysicsUpdate placeTop] engine0 = sTop"
    and runGone: "run [dropDet, PhysicsUpdate placeMid, Destroy] engine0 = sGone"
    and runTick: "run [dropDet, PhysicsUpdate placeMid, NudgeTick 0 (1 / 2)] engine0 = sTick"
    and runLate: "run [dropDet, PhysicsUpdate placeMid, Destroy, NudgeTick 0 (1 / 2),
                       NudgeTick 0 (1 / 2)] engine0 = sLate"
    by (simp_all add: run_Cons run_Nil dropDet_def sMid_def sTop_def sGone_def sD_def sTick_def
        sLate_def)
  have iMid: "intervals sMid = [t0]" and iTop: "intervals sTop = [t0]"
    by (simp_all add: mid top iD)
  have nc: "nudgeChip t0 = L"
    by (simp add: t0_def)
  have idMid: "taskChipId sMid t0 = ''c1''" and idTop: "taskChipId sTop t0 = ''c1''"
    by (simp_all only: taskChipId_def nc mid(1) top(1) removeFirst_chip)
  have fMid: "landedFlag (taskChipId sMid t0) sMid = Some False"
    using cD unfolding idMid by (simp add: mid landedFlag_def)
  have fTop: "landedFlag (taskChipId sTop t0) sTop = Some False"
    using cD unfolding idTop by (simp add: top landedFlag_def)
  have dMid: "taskDiff sMid t0 = 224 / 3"
    by (simp add: taskDiff_def t0_def mid placeMid_def)
  have shMid: "shouldNudge sMid t0"
    by (simp add: shouldNudge_def taskProgress_def taskDiff_def t0_def mid placeMid_def)
  have shTop: "\<not> shouldNudge sTop t0"
    by (simp add: shouldNudge_def taskProgress_def taskDiff_def t0_def top placeTop_def)
  have iGone: "intervals sGone = [t0]" and dGone: "isDestroyed sGone"
    by (simp_all add: sGone_def destroy_fields iMid)
  have a: "tasksBounded (run [dropDet, PhysicsUpdate placeMid, NudgeTick 0 (1 / 2)]
                   (PlinkoEngine_new (400, 600) R8 0 noRandom))"
    using steering_task [where es = "[dropDet, PhysicsUpdate placeMid, NudgeTick 0 (1 / 2)]"
        and rect = "(400, 600)" and rws = R8 and now = 0 and rnd = noRandom]
    by blast
  have b: "nudgeCount (intervals (nudgeTick 0 (1 / 2) sMid) ! 0) = 1"
    "bodies (nudgeTick 0 (1 / 2) sMid)
     = (bodies sMid)[L := Body_applyForce (bodies sMid ! L) (224 / 3 * (2 / 100000) * (1 / 2 + 1 / 2), 0)]"
    using steering_task [where s = sMid and h = 0 and r = "1 / 2"] fMid shMid mid(12)
    by (simp_all add: iMid dMid) (simp_all add: t0_def)
  have b2: "force (bodies (nudgeTick 0 (1 / 2) sMid) ! L) = (224 / 3 * (2 / 100000) * (1 / 2 + 1 / 2), 0)"
    unfolding b(2) using mid(4,5) by (simp add: Body_applyForce_def)
  have c: "bodies (nudgeTick 0 (1 / 2) sTop) = bodies sTop"
    using steering_task [where s = sTop and h = 0 and r = "1 / 2"] fTop shTop top(12)
    by (simp add: iTop) (simp add: t0_def)
  have d: "bodies sDone = bodies sGone" "cleared (intervals sDone ! 0)"
    using steering_task [where s = sGone and h = 0 and r = "1 / 2"] dGone
    unfolding sDone_def by (simp_all add: iGone) (simp_all add: t0_def)
  have lenDone: "0 < length (intervals sDone)"
    by (simp add: sDone_def nudgeTick_def iGone dGone clearInterval_def t0_def)
  have e: "nudgeTick 0 (1 / 2) sDone = sDone"
    using steering_task [where s = sDone and h = 0 and r = "1 / 2"] d(2) lenDone
    by blast
  have late: "targetX (intervals sLate ! 0) = 824 / 3" "maxNudges (intervals sLate ! 0) = 4"
    using steering_task [where s = sD and h = 0
        and es' = "[PhysicsUpdate placeMid, Destroy, NudgeTick 0 (1 / 2), NudgeTick 0 (1 / 2)]",
        folded sLate_def]
    by (simp_all add: iD) (simp_all add: t0_def)
  show ?thesis
    unfolding runD runMid runTop runGone runTick runLate L_def [symmetric]
    using a iMid sens tD iPh shMid b(1) b2 tick shTop c dGone d e late
    unfolding sDone_def by (simp add: iMid iTop t0_def)
qed

end
